(* ===== verification/Prelude.thy ===== *)
theory Prelude
  imports Main "HOL-Library.Word"
begin

text \<open>
  Shared vocabulary of the development: the machine types of the Rust sources, the model of
  \<^verbatim>\<open>std::collections::HashMap\<close> as an association list in iteration order, the model of
  \<^verbatim>\<open>Iterator::find\<close>, and the generic lemmas the components use.
\<close>

named_theorems amap_simps \<open>equations for the association-list model of HashMap\<close>
named_theorems frame_simps \<open>fields an operation leaves unchanged\<close>

section \<open>Machine types\<close>

type_synonym u8 = "8 word"
type_synonym u32 = "32 word"
type_synonym u64 = "64 word"
type_synonym i32 = "32 word"
type_synonym b256 = "256 word"
type_synonym bytes = "8 word list"

section \<open>HashMap as an association list in iteration order\<close>

text \<open>
  A \<^verbatim>\<open>HashMap\<close> is the list of its entries. Keys are pairwise distinct (\<open>amap_ok\<close>), and
  the position of an entry carries no meaning: code that iterates a map does so through an
  arbitrary permutation supplied by its environment.
\<close>

type_synonym ('k, 'v) amap = "('k \<times> 'v) list"

definition amap_ok :: "('k, 'v) amap \<Rightarrow> bool" where
  "amap_ok m \<longleftrightarrow> distinct (map fst m)"

text \<open>\<^verbatim>\<open>HashMap::get_mut\<close> followed by a mutation of the value.\<close>

definition amap_mod :: "'k \<Rightarrow> ('v \<Rightarrow> 'v) \<Rightarrow> ('k, 'v) amap \<Rightarrow> ('k, 'v) amap" where
  "amap_mod k f m = map (\<lambda>(a, v). if a = k then (a, f v) else (a, v)) m"

text \<open>\<^verbatim>\<open>HashMap::insert\<close>: replaces the value of a present key, adds an entry otherwise.\<close>

definition amap_insert :: "'k \<Rightarrow> 'v \<Rightarrow> ('k, 'v) amap \<Rightarrow> ('k, 'v) amap" where
  "amap_insert k v m =
     (if k \<in> fst ` set m then amap_mod k (\<lambda>_. v) m else m @ [(k, v)])"

text \<open>\<^verbatim>\<open>HashMap::remove\<close>.\<close>

definition amap_remove :: "'k \<Rightarrow> ('k, 'v) amap \<Rightarrow> ('k, 'v) amap" where
  "amap_remove k m = filter (\<lambda>p. fst p \<noteq> k) m"

lemma fst_amap_mod [simp, amap_simps]: "map fst (amap_mod k f m) = map fst m"
  by (auto simp: amap_mod_def)

lemma keys_amap_mod [simp, amap_simps]: "fst ` set (amap_mod k f m) = fst ` set m"
  by (metis fst_amap_mod list.set_map)

lemma amap_ok_mod [simp, amap_simps]: "amap_ok (amap_mod k f m) = amap_ok m"
  by (simp add: amap_ok_def)

lemma in_amap_mod:
  "p \<in> set (amap_mod k f m) \<longleftrightarrow>
     (fst p \<noteq> k \<and> p \<in> set m) \<or> (fst p = k \<and> (\<exists>v. (k, v) \<in> set m \<and> snd p = f v))"
proof (induction m)
  case Nil
  show ?case by (simp add: amap_mod_def)
next
  case (Cons e m)
  then show ?case by (cases e; cases p) (auto simp: amap_mod_def)
qed

lemma length_amap_mod [simp, amap_simps]: "length (amap_mod k f m) = length m"
  by (simp add: amap_mod_def)

lemma in_amap_remove [simp, amap_simps]:
  "p \<in> set (amap_remove k m) \<longleftrightarrow> p \<in> set m \<and> fst p \<noteq> k"
  by (auto simp: amap_remove_def)

lemma amap_ok_remove [simp, amap_simps]: "amap_ok m \<Longrightarrow> amap_ok (amap_remove k m)"
  by (simp add: amap_ok_def amap_remove_def distinct_map_filter)

lemma amap_ok_filter [intro]: "amap_ok m \<Longrightarrow> amap_ok (filter P m)"
  by (simp add: amap_ok_def distinct_map_filter)

lemma amap_ok_insert [simp, amap_simps]: "amap_ok m \<Longrightarrow> amap_ok (amap_insert k v m)"
  by (auto simp: amap_insert_def amap_ok_def)

lemma in_amap_insert:
  "amap_ok m \<Longrightarrow>
   p \<in> set (amap_insert k v m) \<longleftrightarrow> (fst p \<noteq> k \<and> p \<in> set m) \<or> p = (k, v)"
  by (cases p) (force simp: amap_insert_def in_amap_mod)

lemma amap_ok_unique:
  "amap_ok m \<Longrightarrow> (k, v) \<in> set m \<Longrightarrow> (k, v') \<in> set m \<Longrightarrow> v = v'"
  by (auto simp: amap_ok_def dest: eq_key_imp_eq_value)

lemma amap_get_iff [amap_simps]: "amap_ok m \<Longrightarrow> map_of m k = Some v \<longleftrightarrow> (k, v) \<in> set m"
  by (simp add: amap_ok_def)

section \<open>Iterator::find\<close>

lemma find_SomeD: "List.find P xs = Some x \<Longrightarrow> x \<in> set xs \<and> P x"
  by (auto simp: find_Some_iff in_set_conv_nth)

lemma find_None_iff_ball: "List.find P xs = None \<longleftrightarrow> (\<forall>x\<in>set xs. \<not> P x)"
  by (auto simp: find_None_iff)

lemma find_exists: "x \<in> set xs \<Longrightarrow> P x \<Longrightarrow> \<exists>y. List.find P xs = Some y \<and> y \<in> set xs \<and> P y"
  by (cases "List.find P xs") (auto simp: find_None_iff_ball dest: find_SomeD)

text \<open>When the sought entry is unique, the order of the iteration does not matter.\<close>

lemma find_unique:
  assumes "x \<in> set xs" "P x" "\<And>y. y \<in> set xs \<Longrightarrow> P y \<Longrightarrow> y = x"
  shows "List.find P xs = Some x"
  using find_exists [where P = P, OF assms(1,2)] assms(3) by blast

section \<open>Strings\<close>

text \<open>Decimal \<^verbatim>\<open>Display\<close> of unsigned integers, and \<^verbatim>\<open>[&str]::join\<close>.\<close>

fun show_nat :: "nat \<Rightarrow> string" where
  "show_nat n = (if n < 10 then [char_of (48 + n)] else show_nat (n div 10) @ [char_of (48 + n mod 10)])"

declare show_nat.simps [simp del]

fun join_str :: "string \<Rightarrow> string list \<Rightarrow> string" where
  "join_str sep [] = []"
| "join_str sep [x] = x"
| "join_str sep (x # y # ys) = x @ sep @ join_str sep (y # ys)"

text \<open>\<^verbatim>\<open>str::to_ascii_lowercase\<close>, and \<^verbatim>\<open>str::trim\<close> for ASCII text.\<close>

definition ascii_lower :: "char \<Rightarrow> char" where
  "ascii_lower c = (if 65 \<le> (of_char c :: nat) \<and> (of_char c :: nat) \<le> 90 then char_of (of_char c + 32 :: nat) else c)"

definition to_ascii_lowercase :: "string \<Rightarrow> string" where
  "to_ascii_lowercase = map ascii_lower"

definition is_white :: "char \<Rightarrow> bool" where
  "is_white c \<longleftrightarrow> (9 \<le> (of_char c :: nat) \<and> (of_char c :: nat) \<le> 13) \<or> (of_char c :: nat) = 32"

definition trim_str :: "string \<Rightarrow> string" where
  "trim_str s = rev (dropWhile is_white (rev (dropWhile is_white s)))"

text \<open>\<^verbatim>\<open>str::split\<close> on one character: never empty, adjacent separators give empty parts.\<close>

fun split_on :: "char \<Rightarrow> string \<Rightarrow> string list" where
  "split_on c [] = [[]]"
| "split_on c (x # xs) =
     (if x = c then [] # split_on c xs
      else (case split_on c xs of [] \<Rightarrow> [[x]] | y # ys \<Rightarrow> (x # y) # ys))"

lemma split_on_no_sep: "c \<notin> set s \<Longrightarrow> split_on c s = [s]"
  by (induction s) auto

lemma split_on_append: "c \<notin> set a \<Longrightarrow> split_on c (a @ c # b) = a # split_on c b"
  by (induction a) auto

lemma length_split_on: "length (split_on c s) = Suc (count_list s c)"
  by (induction s) (auto split: list.splits)

section \<open>Lists\<close>

lemma subseq_length_filter: "length (filter P xs) \<le> length xs"
  by simp

lemma append_split_suffix:
  "xs @ ys = pre @ a # post \<Longrightarrow> a \<notin> set xs \<Longrightarrow> b \<in> set post \<Longrightarrow> b \<in> set ys"
  by (auto simp: append_eq_append_conv2 append_eq_Cons_conv)

lemma distinct_map_unique:
  "distinct (map f xs) \<Longrightarrow> x \<in> set xs \<Longrightarrow> y \<in> set xs \<Longrightarrow> f x = f y \<Longrightarrow> x = y"
  by (auto simp: distinct_map inj_on_def)

end
