(* ===== verification/Rust_Float.thy ===== *)
theory Rust_Float
  imports Complex_Main Prelude
begin

text \<open>
  The floating point of the Rust sources. A value is the rational it denotes; an operation is
  the exact operation followed by \<open>fround p\<close>, rounding to nearest, ties to even, at \<open>p\<close> bits of
  precision (24 for \<^verbatim>\<open>f32\<close>, 53 for \<^verbatim>\<open>f64\<close>). The exponent range is not bounded: every value
  the modelled code forms (durations in seconds and minutes, cycle counts and their products)
  stays far inside the range of the format, so no overflow, subnormal or NaN arises.
\<close>

section \<open>Rounding\<close>

text \<open>The binary exponent: \<open>2 powi bexp x \<le> x < 2 powi (bexp x + 1)\<close> for positive \<open>x\<close>.\<close>

fun ilog2 :: "int \<Rightarrow> int" where
  "ilog2 n = (if n \<le> 1 then 0 else 1 + ilog2 (n div 2))"

declare ilog2.simps [simp del]

definition bexp :: "rat \<Rightarrow> int" where
  "bexp x = (let (n, d) = quotient_of x; k = ilog2 n - ilog2 d
             in if x < 2 powi k then k - 1 else k)"

text \<open>Round half to even.\<close>

definition rne :: "rat \<Rightarrow> int" where
  "rne x = (let f = \<lfloor>x\<rfloor>; r = x - of_int f
            in if r < 1 / 2 then f else if 1 / 2 < r then f + 1
               else if even f then f else f + 1)"

definition fround :: "nat \<Rightarrow> rat \<Rightarrow> rat" where
  "fround p x =
     (if x = 0 then 0
      else let u = 2 powi (bexp \<bar>x\<bar> - (int p - 1))
           in sgn x * of_int (rne (\<bar>x\<bar> / u)) * u)"

lemma rne_mono: "x \<le> y \<Longrightarrow> rne x \<le> rne y"
proof -
  assume xy: "x \<le> y"
  show ?thesis
  proof (cases "\<lfloor>x\<rfloor> = \<lfloor>y\<rfloor>")
    case True
    with xy show ?thesis by (simp add: rne_def Let_def)
  next
    case False
    with floor_mono [OF xy] have "\<lfloor>x\<rfloor> + 1 \<le> \<lfloor>y\<rfloor>" by simp
    moreover have "rne x \<le> \<lfloor>x\<rfloor> + 1" and "\<lfloor>y\<rfloor> \<le> rne y"
      by (simp_all add: rne_def Let_def)
    ultimately show ?thesis by linarith
  qed
qed

lemma rne_of_int [simp]: "rne (of_int n) = n"
  by (simp add: rne_def)

lemma ilog2_bounds:
  assumes "0 < n"
  shows "0 \<le> ilog2 n \<and> 2 ^ nat (ilog2 n) \<le> n \<and> n < 2 ^ nat (ilog2 n + 1)"
  using assms
proof (induction n rule: ilog2.induct)
  case (1 n)
  show ?case
  proof (cases "n \<le> 1")
    case True
    then show ?thesis using "1.prems" by (simp add: ilog2.simps)
  next
    case False
    then have l: "ilog2 n = 1 + ilog2 (n div 2)" by (simp add: ilog2.simps)
    have IH: "0 \<le> ilog2 (n div 2)" "2 ^ nat (ilog2 (n div 2)) \<le> n div 2"
      "n div 2 < 2 ^ nat (ilog2 (n div 2) + 1)"
      using 1 False by auto
    have e: "nat (ilog2 n) = Suc (nat (ilog2 (n div 2)))" "nat (ilog2 n + 1) = Suc (nat (ilog2 (n div 2) + 1))"
      using IH(1) l by auto
    have "2 * (n div 2) \<le> n" "n < 2 * (n div 2) + 2" by presburger+
    moreover have "(2::int) ^ nat (ilog2 n) = 2 * 2 ^ nat (ilog2 (n div 2))"
      "(2::int) ^ nat (ilog2 n + 1) = 2 * 2 ^ nat (ilog2 (n div 2) + 1)"
      unfolding e by (rule power_Suc)+
    ultimately show ?thesis using IH l by linarith
  qed
qed

lemma ilog2_bounds_rat:
  assumes "0 < n"
  shows "2 powi ilog2 n \<le> (of_int n :: rat)" "of_int n < (2 powi (ilog2 n + 1) :: rat)"
proof -
  note b = ilog2_bounds [OF assms]
  then have "(of_int (2 ^ nat (ilog2 n)) :: rat) \<le> of_int n"
    "(of_int n :: rat) < of_int (2 ^ nat (ilog2 n + 1))"
    by (simp_all only: of_int_le_iff of_int_less_iff)
  with b show "2 powi ilog2 n \<le> (of_int n :: rat)" "of_int n < (2 powi (ilog2 n + 1) :: rat)"
    by (simp_all add: power_int_def)
qed

lemma bexp_bounds:
  assumes "0 < x"
  shows "2 powi bexp x \<le> x" "x < 2 powi (bexp x + 1)"
proof -
  obtain n d where q: "quotient_of x = (n, d)" by (cases "quotient_of x")
  have x: "x = of_int n / of_int d" by (rule quotient_of_div [OF q])
  have d: "0 < d" by (rule quotient_of_denom_pos [OF q])
  have n: "0 < n" using assms d by (simp add: x zero_less_divide_iff)
  let ?k = "ilog2 n - ilog2 d"
  have lo: "2 powi (?k - 1) \<le> x"
  proof -
    have k: "?k - 1 = ilog2 n - (ilog2 d + 1)" by simp
    have "2 powi (?k - 1) = (2 powi ilog2 n / 2 powi (ilog2 d + 1) :: rat)"
      unfolding k by (rule power_int_diff) simp
    also have "\<dots> \<le> x"
      unfolding x
      using ilog2_bounds_rat [OF n] ilog2_bounds_rat [OF d] d n
      by (intro frac_le) (auto intro: less_imp_le)
    finally show ?thesis .
  qed
  have hi: "x < 2 powi (?k + 1)"
  proof -
    have "x < 2 powi (ilog2 n + 1) / 2 powi ilog2 d"
      unfolding x
      using ilog2_bounds_rat [OF n] ilog2_bounds_rat [OF d] d n
      by (intro frac_less) auto
    also have "\<dots> = 2 powi (?k + 1)"
      by (simp add: power_int_diff power_int_add)
    finally show ?thesis .
  qed
  have b: "bexp x = (if x < 2 powi ?k then ?k - 1 else ?k)"
    by (simp add: bexp_def q)
  show "2 powi bexp x \<le> x" "x < 2 powi (bexp x + 1)"
    using lo hi by (auto simp: b)
qed

lemma bexp_mono:
  assumes "0 < x" "x \<le> y" shows "bexp x \<le> bexp y"
proof (rule ccontr)
  assume "\<not> bexp x \<le> bexp y"
  then have "(2 powi (bexp y + 1) :: rat) \<le> 2 powi bexp x"
    by (intro power_int_increasing) auto
  with bexp_bounds [of x] bexp_bounds [of y] assms show False by linarith
qed

text \<open>The unit in the last place of the binade of \<open>x\<close>, and the integer significand.\<close>

lemma fround_pos:
  "0 < x \<Longrightarrow> fround p x = of_int (rne (x / 2 powi (bexp x - (int p - 1)))) * 2 powi (bexp x - (int p - 1))"
  by (simp add: fround_def Let_def)

lemma fround_0 [simp]: "fround p 0 = 0"
  by (simp add: fround_def)

lemma fround_binade:
  assumes "0 < x" "0 < p"
  shows "2 powi bexp x \<le> fround p x" "fround p x \<le> 2 powi (bexp x + 1)"
proof -
  let ?u = "2 powi (bexp x - (int p - 1)) :: rat"
  have f: "fround p x = of_int (rne (x / ?u)) * ?u" by (rule fround_pos [OF assms(1)])
  have lo: "(of_int (2 ^ (p - 1)) :: rat) \<le> x / ?u"
    using bexp_bounds(1) [OF assms(1)] assms(2)
    by (simp add: pos_le_divide_eq power_int_def [symmetric] flip: power_int_of_nat power_int_add)
  have hi: "x / ?u \<le> of_int (2 ^ p)"
    using bexp_bounds(2) [OF assms(1)]
    by (simp add: pos_divide_le_eq flip: power_int_of_nat power_int_add)
  have "2 ^ (p - 1) \<le> rne (x / ?u)" using rne_mono [OF lo] by (simp only: rne_of_int)
  then have "(of_int (2 ^ (p - 1)) :: rat) * ?u \<le> of_int (rne (x / ?u)) * ?u"
    by (intro mult_right_mono) (simp_all only: of_int_le_iff, simp)
  moreover have "(of_int (2 ^ (p - 1)) :: rat) * ?u = 2 powi bexp x"
    using assms(2) by (simp flip: power_int_of_nat power_int_add)
  ultimately show "2 powi bexp x \<le> fround p x" unfolding f by linarith
  have "rne (x / ?u) \<le> 2 ^ p" using rne_mono [OF hi] by (simp only: rne_of_int)
  then have "of_int (rne (x / ?u)) * ?u \<le> (of_int (2 ^ p) :: rat) * ?u"
    by (intro mult_right_mono) (simp_all only: of_int_le_iff, simp)
  moreover have "(of_int (2 ^ p) :: rat) * ?u = 2 powi (bexp x + 1)"
    by (simp flip: power_int_of_nat power_int_add)
  ultimately show "fround p x \<le> 2 powi (bexp x + 1)" unfolding f by linarith
qed

lemma fround_nonneg: "0 \<le> x \<Longrightarrow> 0 < p \<Longrightarrow> 0 \<le> fround p x"
  using fround_binade(1) [of x p] by (cases "x = 0") (auto intro: order_trans [rotated])

text \<open>Rounding is monotone.\<close>

lemma fround_mono:
  assumes "0 \<le> x" "x \<le> y" "0 < p"
  shows "fround p x \<le> fround p y"
proof (cases "x = 0")
  case True
  with assms show ?thesis by (simp add: fround_nonneg)
next
  case False
  with assms have x: "0 < x" and y: "0 < y" by auto
  show ?thesis
  proof (cases "bexp x = bexp y")
    case True
    have "rne (x / 2 powi (bexp y - (int p - 1))) \<le> rne (y / 2 powi (bexp y - (int p - 1)))"
      using assms by (intro rne_mono divide_right_mono) auto
    then show ?thesis by (simp add: fround_pos x y True)
  next
    case False
    with bexp_mono [OF x assms(2)] have "bexp x + 1 \<le> bexp y" by simp
    then have "(2 powi (bexp x + 1) :: rat) \<le> 2 powi bexp y" by (intro power_int_increasing) auto
    with fround_binade(2) [OF x assms(3)] fround_binade(1) [OF y assms(3)]
    show ?thesis by linarith
  qed
qed

text \<open>Integers of at most \<open>p\<close> bits are exact.\<close>

lemma fround_of_nat:
  assumes "n \<le> 2 ^ p" "0 < p"
  shows "fround p (of_nat n) = of_nat n"
proof (cases "n = 0")
  case False
  then have x: "0 < (of_nat n :: rat)" by simp
  let ?b = "bexp (of_nat n)"
  have "(2 powi ?b :: rat) \<le> 2 powi int p"
    using bexp_bounds(1) [OF x] assms(1)
    by (simp add: power_int_of_nat) (metis of_nat_le_iff of_nat_numeral of_nat_power order_trans)
  then have bp: "?b \<le> int p"
    using power_int_strict_increasing [of "int p" ?b "2 :: rat"] by (meson not_less order_less_le_trans not_less_iff_gr_or_eq one_less_numeral_iff semiring_norm(76))
  have b0: "0 \<le> ?b"
  proof (rule ccontr)
    assume "\<not> 0 \<le> ?b"
    then have "(2 powi (?b + 1) :: rat) \<le> 2 powi 0" by (intro power_int_increasing) auto
    with bexp_bounds(2) [OF x] have "(of_nat n :: rat) < 1" by simp
    with False show False by simp
  qed
  show ?thesis
  proof (cases "?b = int p")
    case True
    with bexp_bounds(1) [OF x] have "(2 ^ p :: rat) \<le> of_nat n" by (simp add: power_int_of_nat)
    with assms(1) have n: "n = 2 ^ p"
      by (metis antisym of_nat_le_iff of_nat_numeral of_nat_power)
    obtain q where p: "p = Suc q" using assms(2) by (cases p) auto
    have u: "?b - (int p - 1) = 1" using True by simp
    have h: "(of_nat n :: rat) / 2 powi 1 = of_int (2 ^ q)" by (simp add: n p)
    have "fround p (of_nat n) = of_int (2 ^ q) * 2 powi 1"
      using fround_pos [OF x, of p] by (simp only: u h rne_of_int)
    then show ?thesis by (simp add: n p)
  next
    case False
    with bp have neg: "?b - (int p - 1) \<le> 0" by simp
    define j where "j = nat (int p - 1 - ?b)"
    have j: "?b - (int p - 1) = - int j" using neg by (simp add: j_def)
    have "(of_nat n :: rat) / 2 powi (- int j) = of_int (int n * 2 ^ j)"
      by (simp add: power_int_minus power_int_of_nat field_simps)
    then have "fround p (of_nat n) = of_int (int n * 2 ^ j) * 2 powi (- int j)"
      using x by (subst fround_pos) (simp_all only: j rne_of_int)
    then show ?thesis by (simp add: power_int_minus power_int_of_nat field_simps)
  qed
qed simp

section \<open>Durations\<close>

text \<open>
  A \<^verbatim>\<open>Duration\<close> is its number of nanoseconds. \<^verbatim>\<open>Duration::as_secs_f32\<close> and
  \<^verbatim>\<open>as_secs_f64\<close> of the standard library compute
  \<^verbatim>\<open>(secs as f) + (nanos as f) / (NANOS_PER_SEC as f)\<close>.
\<close>

type_synonym duration = nat

definition nanos_per_sec :: nat where
  "nanos_per_sec = 1000000000"

definition from_secs :: "nat \<Rightarrow> duration" where
  "from_secs s = s * nanos_per_sec"

definition as_secs :: "duration \<Rightarrow> nat" where
  "as_secs d = d div nanos_per_sec"

definition as_secs_f :: "nat \<Rightarrow> duration \<Rightarrow> rat" where
  "as_secs_f p d =
     fround p (fround p (of_nat (d div nanos_per_sec)) +
       fround p (fround p (of_nat (d mod nanos_per_sec)) / fround p (of_nat nanos_per_sec)))"

text \<open>\<^verbatim>\<open>(d.as_secs_f32() / 60.0)\<close>, and its truncating cast \<^verbatim>\<open>as u64\<close>.\<close>

definition minutes_f :: "nat \<Rightarrow> duration \<Rightarrow> rat" where
  "minutes_f p d = fround p (as_secs_f p d / 60)"

definition minutes :: "nat \<Rightarrow> duration \<Rightarrow> nat" where
  "minutes p d = nat \<lfloor>minutes_f p d\<rfloor>"

lemma nanos_pos: "0 < nanos_per_sec"
  by (simp add: nanos_per_sec_def)

lemma div_from_secs: "from_secs s div nanos_per_sec = s"
  unfolding from_secs_def using nanos_pos by (intro nonzero_mult_div_cancel_right) simp

text \<open>The fractional part of a duration, as the code rounds it.\<close>

definition frac_f :: "nat \<Rightarrow> duration \<Rightarrow> rat" where
  "frac_f p d =
     fround p (fround p (of_nat (d mod nanos_per_sec)) / fround p (of_nat nanos_per_sec))"

lemma as_secs_f_frac:
  "as_secs_f p d = fround p (fround p (of_nat (d div nanos_per_sec)) + frac_f p d)"
  by (simp only: as_secs_f_def frac_f_def)

lemma frac_f_bounds:
  assumes "0 < p" shows "0 \<le> frac_f p d" "frac_f p d \<le> 1"
proof -
  let ?a = "fround p (of_nat (d mod nanos_per_sec))" and ?b = "fround p (of_nat nanos_per_sec)"
  have "d mod nanos_per_sec \<le> nanos_per_sec"
    using nanos_pos by (simp add: less_imp_le)
  then have ab: "?a \<le> ?b" using assms by (intro fround_mono) simp_all
  have a: "0 \<le> ?a" using assms by (simp add: fround_nonneg)
  have q: "0 \<le> ?a / ?b" using ab a by (intro divide_nonneg_nonneg) linarith+
  show "0 \<le> frac_f p d" unfolding frac_f_def by (rule fround_nonneg [OF q assms])
  have "?a / ?b \<le> of_nat 1"
  proof (cases "?b = 0")
    case False
    with ab a have "0 < ?b" by linarith
    with ab show ?thesis by (simp add: pos_divide_le_eq)
  qed simp
  then have "fround p (?a / ?b) \<le> fround p (of_nat 1)"
    using q assms by (intro fround_mono)
  also have "\<dots> = of_nat 1" using assms by (intro fround_of_nat) simp_all
  finally show "frac_f p d \<le> 1" unfolding frac_f_def by simp
qed

lemma as_secs_f_nonneg: "0 < p \<Longrightarrow> 0 \<le> as_secs_f p d"
  unfolding as_secs_f_frac by (intro fround_nonneg add_nonneg_nonneg frac_f_bounds) simp_all

lemma as_secs_f_le:
  assumes "d \<le> from_secs s" "s \<le> 2 ^ p" "0 < p"
  shows "as_secs_f p d \<le> of_nat s"
proof (cases "d div nanos_per_sec = s")
  case True
  with assms(1) have "d mod nanos_per_sec = 0"
    using div_mult_mod_eq [of d nanos_per_sec] unfolding from_secs_def by simp
  with True assms(2,3) show ?thesis by (simp add: as_secs_f_def fround_of_nat)
next
  case False
  have "d div nanos_per_sec \<le> s"
    using div_le_mono [OF assms(1), of nanos_per_sec] by (simp add: div_from_secs)
  with False have lt: "Suc (d div nanos_per_sec) \<le> s" by simp
  have e: "fround p (of_nat (d div nanos_per_sec)) = of_nat (d div nanos_per_sec)"
    using assms(2,3) lt by (intro fround_of_nat) linarith+
  have "(of_nat (Suc (d div nanos_per_sec)) :: rat) \<le> of_nat s" using lt by (simp only: of_nat_le_iff)
  then have le: "of_nat (d div nanos_per_sec) + frac_f p d \<le> of_nat s"
    using frac_f_bounds(2) [OF assms(3), of d] unfolding of_nat_Suc by linarith
  have "as_secs_f p d \<le> fround p (of_nat s)"
    unfolding as_secs_f_frac e
    by (intro fround_mono le assms(3) add_nonneg_nonneg frac_f_bounds(1)) simp
  with assms(2,3) show ?thesis by (simp add: fround_of_nat)
qed

lemma as_secs_f_ge:
  assumes "from_secs s \<le> d" "s \<le> 2 ^ p" "0 < p"
  shows "of_nat s \<le> as_secs_f p d"
proof -
  have "s \<le> d div nanos_per_sec"
    using div_le_mono [OF assms(1), of nanos_per_sec] by (simp only: div_from_secs)
  then have "fround p (of_nat s) \<le> fround p (of_nat (d div nanos_per_sec))"
    by (intro fround_mono assms(3)) simp_all
  then have le: "of_nat s \<le> fround p (of_nat (d div nanos_per_sec)) + frac_f p d"
    using frac_f_bounds(1) [OF assms(3), of d] fround_of_nat [OF assms(2,3)] by linarith
  have "fround p (of_nat s) \<le> as_secs_f p d"
    unfolding as_secs_f_frac by (intro fround_mono le assms(3)) simp
  with fround_of_nat [OF assms(2,3)] show ?thesis by simp
qed

text \<open>
  The truncated minute count is exact at whole minutes: up to \<open>m\<close> minutes it is at most \<open>m\<close>,
  from \<open>m\<close> minutes on it is at least \<open>m\<close>, whatever the rounding did in between.
\<close>

lemma minutes_le:
  assumes "d \<le> from_secs (60 * m)" "60 * m \<le> 2 ^ p" "0 < p"
  shows "minutes p d \<le> m"
proof -
  have "as_secs_f p d / 60 \<le> of_nat m" using as_secs_f_le [OF assms] by simp
  then have "minutes_f p d \<le> fround p (of_nat m)"
    unfolding minutes_f_def using assms(3) as_secs_f_nonneg [OF assms(3)]
    by (intro fround_mono) auto
  also have "\<dots> = of_nat m" using assms by (intro fround_of_nat) auto
  finally have "\<lfloor>minutes_f p d\<rfloor> \<le> \<lfloor>of_nat m :: rat\<rfloor>" by (rule floor_mono)
  then show ?thesis by (simp add: minutes_def)
qed

lemma minutes_ge:
  assumes "from_secs (60 * m) \<le> d" "60 * m \<le> 2 ^ p" "0 < p"
  shows "m \<le> minutes p d"
proof -
  have "of_nat m \<le> as_secs_f p d / 60" using as_secs_f_ge [OF assms] by simp
  then have "fround p (of_nat m) \<le> minutes_f p d"
    unfolding minutes_f_def using assms(3) by (intro fround_mono) auto
  moreover have "fround p (of_nat m) = of_nat m" using assms by (intro fround_of_nat) auto
  ultimately show ?thesis by (simp add: minutes_def le_nat_iff le_floor_iff)
qed

lemma minutes_0 [simp]: "minutes p 0 = 0"
  by (simp add: minutes_def minutes_f_def as_secs_f_def)

end
