(* ===== verification/Network_Lib.thy ===== *)
theory Network_Lib
  imports Prelude "HOL-Library.Option_ord"
begin

text \<open>
  The messages and shared types of \<^verbatim>\<open>src/network-lib\<close>: virtual machine kinds, proof requests of
  the three virtual machines, the status a contemplant reports and the progress order, and the two
  message enums of the websocket. \<^verbatim>\<open>SP1Stdin\<close> is a type of \<^verbatim>\<open>sp1_sdk\<close> and appears as the type
  parameter \<open>'s\<close>; the display of a \<^verbatim>\<open>B256\<close> is the parameter \<open>show_id\<close>.
\<close>

section \<open>Wire enums\<close>

datatype execution_status =
  UnspecifiedExecutionStatus | Unexecuted | Executed | Unexecutable

datatype fulfillment_status =
  UnspecifiedFulfillmentStatus | Requested | Assigned | Fulfilled | Unfulfillable

datatype proof_mode = UnspecifiedProofMode | Core | Compressed | Plonk | Groth16

text \<open>\<^verbatim>\<open>From<ExecutionStatus> for i32\<close> and \<^verbatim>\<open>TryFrom<i32>\<close>, as prost generates them.\<close>

fun execution_status_i32 :: "execution_status \<Rightarrow> i32" where
  "execution_status_i32 UnspecifiedExecutionStatus = 0"
| "execution_status_i32 Unexecuted = 1"
| "execution_status_i32 Executed = 2"
| "execution_status_i32 Unexecutable = 3"

definition execution_status_of :: "i32 \<Rightarrow> execution_status option" where
  "execution_status_of n =
     (if n = 0 then Some UnspecifiedExecutionStatus else if n = 1 then Some Unexecuted
      else if n = 2 then Some Executed else if n = 3 then Some Unexecutable else None)"

fun execution_status_name :: "execution_status \<Rightarrow> string" where
  "execution_status_name UnspecifiedExecutionStatus = ''UNSPECIFIED_EXECUTION_STATUS''"
| "execution_status_name Unexecuted = ''UNEXECUTED''"
| "execution_status_name Executed = ''EXECUTED''"
| "execution_status_name Unexecutable = ''UNEXECUTABLE''"

fun fulfillment_status_i32 :: "fulfillment_status \<Rightarrow> i32" where
  "fulfillment_status_i32 UnspecifiedFulfillmentStatus = 0"
| "fulfillment_status_i32 Requested = 1"
| "fulfillment_status_i32 Assigned = 2"
| "fulfillment_status_i32 Fulfilled = 3"
| "fulfillment_status_i32 Unfulfillable = 4"

definition fulfillment_status_of :: "i32 \<Rightarrow> fulfillment_status option" where
  "fulfillment_status_of n =
     (if n = 0 then Some UnspecifiedFulfillmentStatus else if n = 1 then Some Requested
      else if n = 2 then Some Assigned else if n = 3 then Some Fulfilled
      else if n = 4 then Some Unfulfillable else None)"

fun fulfillment_status_name :: "fulfillment_status \<Rightarrow> string" where
  "fulfillment_status_name UnspecifiedFulfillmentStatus = ''UNSPECIFIED_FULFILLMENT_STATUS''"
| "fulfillment_status_name Requested = ''REQUESTED''"
| "fulfillment_status_name Assigned = ''ASSIGNED''"
| "fulfillment_status_name Fulfilled = ''FULFILLED''"
| "fulfillment_status_name Unfulfillable = ''UNFULFILLABLE''"

definition proof_mode_of :: "i32 \<Rightarrow> proof_mode option" where
  "proof_mode_of n =
     (if n = 0 then Some UnspecifiedProofMode else if n = 1 then Some Core
      else if n = 2 then Some Compressed else if n = 3 then Some Plonk
      else if n = 4 then Some Groth16 else None)"

fun proof_mode_name :: "proof_mode \<Rightarrow> string" where
  "proof_mode_name UnspecifiedProofMode = ''UNSPECIFIED_PROOF_MODE''"
| "proof_mode_name Core = ''CORE''"
| "proof_mode_name Compressed = ''COMPRESSED''"
| "proof_mode_name Plonk = ''PLONK''"
| "proof_mode_name Groth16 = ''GROTH16''"

lemma execution_status_roundtrip [simp]: "execution_status_of (execution_status_i32 s) = Some s"
  by (cases s) (simp_all add: execution_status_of_def)

lemma fulfillment_status_roundtrip [simp]:
  "fulfillment_status_of (fulfillment_status_i32 s) = Some s"
  by (cases s) (simp_all add: fulfillment_status_of_def)

lemma execution_status_i32_inj [simp]:
  "execution_status_i32 s = execution_status_i32 t \<longleftrightarrow> s = t"
  by (metis execution_status_roundtrip option.inject)

lemma fulfillment_status_i32_inj [simp]:
  "fulfillment_status_i32 s = fulfillment_status_i32 t \<longleftrightarrow> s = t"
  by (metis fulfillment_status_roundtrip option.inject)

lemma execution_status_of_SomeD: "execution_status_of n = Some s \<Longrightarrow> n = execution_status_i32 s"
  by (auto simp: execution_status_of_def split: if_splits)

section \<open>Virtual machines and proof requests\<close>

datatype vm_kind = Vm_Sp1 | Vm_Risc0 | Vm_OpenVm

fun vm_as_str :: "vm_kind \<Rightarrow> string" where
  "vm_as_str Vm_Sp1 = ''SP1''"
| "vm_as_str Vm_Risc0 = ''RISC0''"
| "vm_as_str Vm_OpenVm = ''OPENVM''"

record worker_register_info =
  wri_name :: string
  wri_contemplant_version :: string
  wri_supported_vms :: "vm_kind list"
  wri_groth16_enabled :: bool
  wri_openvm_evm_enabled :: bool
  wri_magister_drop_endpoint :: "string option"
  wri_instance_nonce :: u64

definition display_worker_register_info :: "worker_register_info \<Rightarrow> string" where
  "display_worker_register_info w =
     (let magister_info = (case wri_magister_drop_endpoint w of
                             Some x \<Rightarrow> '' with Magister drop endpoint '' @ x | None \<Rightarrow> '''');
          vms = join_str '','' (map vm_as_str (wri_supported_vms w));
          groth16 = (if wri_groth16_enabled w then '', groth16'' else '''');
          openvm_evm = (if wri_openvm_evm_enabled w then '', openvm-evm'' else '''')
      in wri_name w @ '' CONTEMPLANT_VERSION '' @ wri_contemplant_version w @ '' [VMs: '' @ vms @
           groth16 @ openvm_evm @ '']'' @ magister_info)"

datatype risc0_proof_mode = R_Composite | R_Succinct | R_Groth16

fun risc0_mode_as_str :: "risc0_proof_mode \<Rightarrow> string" where
  "risc0_mode_as_str R_Composite = ''COMPOSITE''"
| "risc0_mode_as_str R_Succinct = ''SUCCINCT''"
| "risc0_mode_as_str R_Groth16 = ''GROTH16''"

datatype openvm_proof_mode = O_App | O_Stark | O_Evm

fun openvm_mode_as_str :: "openvm_proof_mode \<Rightarrow> string" where
  "openvm_mode_as_str O_App = ''APP''"
| "openvm_mode_as_str O_Stark = ''STARK''"
| "openvm_mode_as_str O_Evm = ''EVM''"

record 's sp1_proof_request =
  sp1_request_id :: b256
  sp1_elf :: bytes
  sp1_mock :: bool
  sp1_mode :: proof_mode
  sp1_stdin :: 's

record risc0_proof_request =
  r0_request_id :: b256
  r0_elf :: bytes
  r0_input :: bytes
  r0_mode :: risc0_proof_mode
  r0_mock :: bool
  r0_wrap_of :: "bytes option"

record openvm_proof_request =
  ovm_request_id :: b256
  ovm_elf :: bytes
  ovm_app_config_toml :: "string option"
  ovm_input :: "bytes list"
  ovm_mode :: openvm_proof_mode
  ovm_mock :: bool

datatype 's contemplant_proof_request =
    Req_Sp1 "'s sp1_proof_request"
  | Req_Risc0 risc0_proof_request
  | Req_OpenVm openvm_proof_request

fun request_id :: "'s contemplant_proof_request \<Rightarrow> b256" where
  "request_id (Req_Sp1 r) = sp1_request_id r"
| "request_id (Req_Risc0 r) = r0_request_id r"
| "request_id (Req_OpenVm r) = ovm_request_id r"

fun request_vm :: "'s contemplant_proof_request \<Rightarrow> vm_kind" where
  "request_vm (Req_Sp1 _) = Vm_Sp1"
| "request_vm (Req_Risc0 _) = Vm_Risc0"
| "request_vm (Req_OpenVm _) = Vm_OpenVm"

fun is_mock :: "'s contemplant_proof_request \<Rightarrow> bool" where
  "is_mock (Req_Sp1 r) = sp1_mock r"
| "is_mock (Req_Risc0 r) = r0_mock r"
| "is_mock (Req_OpenVm r) = ovm_mock r"

fun mode_name :: "'s contemplant_proof_request \<Rightarrow> string" where
  "mode_name (Req_Sp1 r) = proof_mode_name (sp1_mode r)"
| "mode_name (Req_Risc0 r) = risc0_mode_as_str (r0_mode r)"
| "mode_name (Req_OpenVm r) = openvm_mode_as_str (ovm_mode r)"

fun needs_groth16 :: "'s contemplant_proof_request \<Rightarrow> bool" where
  "needs_groth16 (Req_Sp1 _) = False"
| "needs_groth16 (Req_Risc0 r) = (r0_mode r = R_Groth16 \<or> r0_wrap_of r \<noteq> None)"
| "needs_groth16 (Req_OpenVm _) = False"

fun needs_openvm_evm :: "'s contemplant_proof_request \<Rightarrow> bool" where
  "needs_openvm_evm (Req_Sp1 _) = False"
| "needs_openvm_evm (Req_Risc0 _) = False"
| "needs_openvm_evm (Req_OpenVm r) = (ovm_mode r = O_Evm)"

definition display_request :: "(b256 \<Rightarrow> string) \<Rightarrow> 's contemplant_proof_request \<Rightarrow> string" where
  "display_request show_id r =
     vm_as_str (request_vm r) @ '' '' @ (if is_mock r then ''mock '' else '''') @ mode_name r @
       '' proof with request id '' @ show_id (request_id r)"

text \<open>A request asks for at most one of the two opt-in toolchains, and only of its own machine.\<close>

lemma needs_groth16_vm: "needs_groth16 r \<Longrightarrow> request_vm r = Vm_Risc0 \<and> \<not> needs_openvm_evm r"
  by (cases r) auto

lemma needs_openvm_evm_vm: "needs_openvm_evm r \<Longrightarrow> request_vm r = Vm_OpenVm \<and> \<not> needs_groth16 r"
  by (cases r) auto

section \<open>Progress\<close>

datatype estimate_reason = Executing | NoHistory

fun reason_rank :: "estimate_reason \<Rightarrow> u8" where
  "reason_rank Executing = 0"
| "reason_rank NoHistory = 1"

fun reason_as_str :: "estimate_reason \<Rightarrow> string" where
  "reason_as_str Executing = ''executing''"
| "reason_as_str NoHistory = ''no history for this proof kind yet''"

datatype progress_update =
    Estimating estimate_reason
  | Proving (cycles: u64) (estimate_secs: u64)
  | Done

definition executing :: progress_update where
  "executing = Estimating Executing"

definition no_history :: progress_update where
  "no_history = Estimating NoHistory"

definition proving :: "u64 \<Rightarrow> u64 \<Rightarrow> progress_update" where
  "proving c e = Proving c e"

definition default_progress :: progress_update where
  "default_progress = Estimating Executing"

fun progress_rank :: "progress_update \<Rightarrow> u32" where
  "progress_rank (Estimating r) = ucast (reason_rank r)"
| "progress_rank (Proving _ _) = 2"
| "progress_rank Done = 3"

fun display_progress :: "progress_update \<Rightarrow> string" where
  "display_progress (Estimating reason) = ''estimating ('' @ reason_as_str reason @ '')''"
| "display_progress (Proving c e) =
     ''proving '' @ show_nat (unat c) @ '' cycles, ~'' @ show_nat (unat e) @ ''s est''"
| "display_progress Done = ''done''"

text \<open>
  \<^verbatim>\<open>impl Ord for ProgressUpdate\<close> compares ranks. All \<^verbatim>\<open>Proving\<close> values compare equal, so the
  order is a preorder only. HOL's \<open>max a b = (if a \<le> b then b else a)\<close> is Rust's \<^verbatim>\<open>Ord::max\<close>,
  which returns its argument on a tie; \<^verbatim>\<open>Option\<close> puts \<^verbatim>\<open>None\<close> below every \<^verbatim>\<open>Some\<close>.
\<close>

datatype ordering = Ord_Less | Ord_Equal | Ord_Greater

definition progress_cmp :: "progress_update \<Rightarrow> progress_update \<Rightarrow> ordering" where
  "progress_cmp a b =
     (if progress_rank a < progress_rank b then Ord_Less
      else if progress_rank a = progress_rank b then Ord_Equal else Ord_Greater)"

definition progress_partial_cmp :: "progress_update \<Rightarrow> progress_update \<Rightarrow> ordering option" where
  "progress_partial_cmp a b = Some (progress_cmp a b)"

instantiation progress_update :: preorder
begin

definition less_eq_progress_update :: "progress_update \<Rightarrow> progress_update \<Rightarrow> bool" where
  "less_eq_progress_update a b \<longleftrightarrow> progress_partial_cmp a b \<in> {Some Ord_Less, Some Ord_Equal}"

definition less_progress_update :: "progress_update \<Rightarrow> progress_update \<Rightarrow> bool" where
  "less_progress_update a b \<longleftrightarrow> progress_partial_cmp a b = Some Ord_Less"

instance
  by intro_classes
    (auto simp: less_eq_progress_update_def less_progress_update_def progress_partial_cmp_def progress_cmp_def
      split: if_splits)

end

lemma progress_order_rank:
  "a \<le> b \<longleftrightarrow> progress_rank a \<le> progress_rank b" "a < b \<longleftrightarrow> progress_rank a < progress_rank b" for a b :: progress_update
  by (auto simp: less_eq_progress_update_def less_progress_update_def progress_partial_cmp_def progress_cmp_def)

lemma progress_total: "a \<le> b \<or> b \<le> (a :: progress_update)"
  by (auto simp: progress_order_rank)

lemma progress_not_le [simp]: "\<not> a \<le> b \<longleftrightarrow> b < (a :: progress_update)"
  by (auto simp: progress_order_rank)

lemma progress_max_ub: "a \<le> max a b" "b \<le> max a (b :: progress_update)"
  by (auto simp: max_def less_imp_le)

lemma progress_le_Done: "p \<le> Done"
  by (cases p; (cases "(case p of Estimating r \<Rightarrow> r | _ \<Rightarrow> Executing)")?)
    (auto simp: progress_order_rank)

section \<open>The status a contemplant reports\<close>

record contemplant_proof_status =
  cps_execution_status :: i32
  cps_proof :: "bytes option"
  cps_progress :: "progress_update option"

definition cps_unexecuted :: contemplant_proof_status where
  "cps_unexecuted =
     \<lparr>cps_execution_status = execution_status_i32 Unexecuted, cps_proof = None, cps_progress = None\<rparr>"

definition cps_default :: contemplant_proof_status where
  "cps_default =
     \<lparr>cps_execution_status = execution_status_i32 Unexecutable, cps_proof = None, cps_progress = None\<rparr>"

definition cps_update_progress ::
    "progress_update option \<Rightarrow> contemplant_proof_status \<Rightarrow> contemplant_proof_status" where
  "cps_update_progress new s =
     s\<lparr>cps_progress := (case (cps_progress s, new) of
         (Some progress, Some new_progress) \<Rightarrow> Some (max progress new_progress)
       | (Some progress, None) \<Rightarrow> Some progress
       | (None, Some progress) \<Rightarrow> Some progress
       | (None, None) \<Rightarrow> None)\<rparr>"

definition display_cps :: "contemplant_proof_status \<Rightarrow> string" where
  "display_cps s =
     (let execution_status = (case execution_status_of (cps_execution_status s) of
                                Some e \<Rightarrow> e | None \<Rightarrow> UnspecifiedExecutionStatus);
          pr = (case cps_proof s of Some _ \<Rightarrow> ''some'' | None \<Rightarrow> ''none'');
          progress = (case cps_progress s of Some p \<Rightarrow> display_progress p | None \<Rightarrow> ''not started'')
      in ''ExecutionStatus: '' @ execution_status_name execution_status @ '', Progress: '' @ progress @
           '', Proof: '' @ pr)"

text \<open>The reported progress never regresses, and takes in every update it is given.\<close>

lemma cps_update_progress_ub:
  "cps_progress s \<le> cps_progress (cps_update_progress new s)"
  "new \<le> cps_progress (cps_update_progress new s)"
  by (auto simp: cps_update_progress_def progress_max_ub split: option.splits)

lemma cps_update_progress_frame [simp, frame_simps]:
  "cps_execution_status (cps_update_progress new s) = cps_execution_status s"
  "cps_proof (cps_update_progress new s) = cps_proof s"
  by (simp_all add: cps_update_progress_def)

section \<open>Websocket messages\<close>

datatype from_contemplant_message =
    Register worker_register_info
  | ProofStatusResponse b256 "contemplant_proof_status option"
  | Heartbeat

fun display_from_contemplant :: "from_contemplant_message \<Rightarrow> string" where
  "display_from_contemplant (Register _) = ''Register''"
| "display_from_contemplant (ProofStatusResponse _ _) = ''ProofStatusResponse''"
| "display_from_contemplant Heartbeat = ''Heartbeat''"

datatype 's from_hierophant_message =
    ProofRequest "'s contemplant_proof_request"
  | ProofStatusRequest b256

fun display_from_hierophant :: "'s from_hierophant_message \<Rightarrow> string" where
  "display_from_hierophant (ProofRequest _) = ''ProofRequest''"
| "display_from_hierophant (ProofStatusRequest _) = ''ProofStatusRequest''"

definition CONTEMPLANT_VERSION :: string where
  "CONTEMPLANT_VERSION = ''8.1.0''"

definition REGISTER_CONTEMPLANT_ENDPOINT :: string where
  "REGISTER_CONTEMPLANT_ENDPOINT = ''register_contemplant''"

end
