(* ===== verification/Proof_Status.thy ===== *)
theory Proof_Status
  imports Network_Lib Rust_Float
begin

text \<open>
  The status returned to clients (\<^verbatim>\<open>proof/status.rs\<close>) and the record of a completed proof
  (\<^verbatim>\<open>proof/completed_proof_info.rs\<close>). The conversion from a contemplant's report unwraps an
  \<^verbatim>\<open>Option\<close>; its panic is the value \<open>None\<close>.
\<close>

record proof_status =
  ps_fulfillment_status :: i32
  ps_execution_status :: i32
  ps_proof :: bytes

definition mk_status :: "fulfillment_status \<Rightarrow> execution_status \<Rightarrow> bytes \<Rightarrow> proof_status" where
  "mk_status f x p =
     \<lparr>ps_fulfillment_status = fulfillment_status_i32 f,
      ps_execution_status = execution_status_i32 x, ps_proof = p\<rparr>"

definition status_from :: "contemplant_proof_status \<Rightarrow> proof_status option" where
  "status_from c =
     (case (case execution_status_of (cps_execution_status c) of
              Some e \<Rightarrow> e | None \<Rightarrow> UnspecifiedExecutionStatus) of
        UnspecifiedExecutionStatus \<Rightarrow>
          Some (mk_status UnspecifiedFulfillmentStatus UnspecifiedExecutionStatus [])
      | Unexecuted \<Rightarrow> Some (mk_status Assigned Unexecuted [])
      | Executed \<Rightarrow> (case cps_proof c of
            Some p \<Rightarrow> Some (mk_status Fulfilled Executed p)
          | None \<Rightarrow> None)
      | Unexecutable \<Rightarrow> Some (mk_status Unfulfillable Unexecutable []))"

definition status_lost :: proof_status where
  "status_lost = mk_status Unfulfillable UnspecifiedExecutionStatus []"

definition status_assigned :: proof_status where
  "status_assigned = mk_status Assigned Unexecuted []"

definition display_status :: "proof_status \<Rightarrow> string" where
  "display_status s =
     (let f = fulfillment_status_name (case fulfillment_status_of (ps_fulfillment_status s) of
                Some x \<Rightarrow> x | None \<Rightarrow> UnspecifiedFulfillmentStatus);
          x = execution_status_name (case execution_status_of (ps_execution_status s) of
                Some x \<Rightarrow> x | None \<Rightarrow> UnspecifiedExecutionStatus);
          p = (if ps_proof s = [] then ''Empty'' else ''Non-empty'')
      in ''FulfillmentStatus: '' @ f @ '', ExecutionStatus: '' @ x @ '', Proof: '' @ p)"

record completed_proof_info =
  cpi_proof_request_id :: b256
  cpi_vm :: vm_kind
  cpi_proof_mode :: string
  cpi_worker_addr :: string
  cpi_worker_name :: string
  cpi_minutes_to_complete :: rat

definition completed_proof_info_new ::
    "b256 \<Rightarrow> vm_kind \<Rightarrow> string \<Rightarrow> rat \<Rightarrow> string \<Rightarrow> string \<Rightarrow> completed_proof_info" where
  "completed_proof_info_new rid vm mode mins addr nm =
     \<lparr>cpi_proof_request_id = rid, cpi_vm = vm, cpi_proof_mode = mode,
      cpi_worker_addr = addr, cpi_worker_name = nm, cpi_minutes_to_complete = mins\<rparr>"

text \<open>The invariant the comment above \<^verbatim>\<open>From\<close> states: an executed status carries its proof.\<close>

definition cps_ok :: "contemplant_proof_status \<Rightarrow> bool" where
  "cps_ok c \<longleftrightarrow>
     (cps_execution_status c = execution_status_i32 Executed \<longrightarrow> cps_proof c \<noteq> None)"

lemma cps_ok_unexecuted [simp]: "cps_ok cps_unexecuted"
  by (simp add: cps_ok_def cps_unexecuted_def)

lemma cps_ok_default [simp]: "cps_ok cps_default"
  by (simp add: cps_ok_def cps_default_def)

lemma cps_ok_progress [simp]: "cps_ok (cps_update_progress p c) = cps_ok c"
  by (simp add: cps_ok_def)

lemma status_from_panics_iff:
  "status_from c = None \<longleftrightarrow>
     cps_execution_status c = execution_status_i32 Executed \<and> cps_proof c = None"
  by (auto simp: status_from_def execution_status_of_def
      split: option.splits execution_status.splits if_splits)

lemma status_from_Some_fields:
  assumes "status_from c = Some s"
  shows "ps_fulfillment_status s = fulfillment_status_i32 Fulfilled \<longleftrightarrow>
           cps_execution_status c = execution_status_i32 Executed"
    and "ps_fulfillment_status s = fulfillment_status_i32 Fulfilled \<Longrightarrow> cps_proof c = Some (ps_proof s)"
    and "ps_fulfillment_status s \<noteq> fulfillment_status_i32 Fulfilled \<Longrightarrow> ps_proof s = []"
  using assms
  by (auto simp: status_from_def mk_status_def execution_status_of_def
      split: option.splits execution_status.splits if_splits)

end
