(* ===== verification/Worker_State.thy ===== *)
theory Worker_State
  imports Rust_Float Network_Lib Proof_Status
begin

text \<open>
  One registered worker (\<^verbatim>\<open>worker_registry/worker_state.rs\<close>) and the eviction limits of
  \<^verbatim>\<open>WorkerRegistryConfig\<close>. Time and the peers are supplied by an \<open>env\<close>, sampled once for each
  command the registry processes.
\<close>

section \<open>The environment of a command\<close>

text \<open>
  \<open>now_i\<close> is the monotonic clock (\<^verbatim>\<open>tokio::time::Instant\<close>), \<open>now_s\<close> the system clock, both in
  nanoseconds; \<open>chan_open\<close> says whether the receiving end of a websocket channel is alive, which
  decides whether \<^verbatim>\<open>mpsc::Sender::send\<close> succeeds; \<open>iter_order\<close> is the order in which a
  \<^verbatim>\<open>HashMap\<close> with these keys is iterated.
\<close>

type_synonym instant = nat
type_synonym system_time = nat
type_synonym chan = nat

record env =
  now_i :: instant
  now_s :: system_time
  chan_open :: "chan \<Rightarrow> bool"
  iter_order :: "string list \<Rightarrow> string list"

definition env_ok :: "env \<Rightarrow> bool" where
  "env_ok e \<longleftrightarrow> (\<forall>ks. set (iter_order e ks) = set ks \<and> (distinct ks \<longrightarrow> distinct (iter_order e ks)))"

text \<open>\<^verbatim>\<open>Instant::elapsed\<close> saturates at zero.\<close>

definition elapsed :: "env \<Rightarrow> instant \<Rightarrow> duration" where
  "elapsed e t = now_i e - t"

text \<open>\<^verbatim>\<open>SystemTime::now().duration_since(t)\<close>; \<open>None\<close> is the error of a clock set backwards.\<close>

definition duration_since :: "env \<Rightarrow> system_time \<Rightarrow> duration option" where
  "duration_since e t = (if t \<le> now_s e then Some (now_s e - t) else None)"

text \<open>\<^verbatim>\<open>HashMap::iter\<close>.\<close>

definition entries :: "env \<Rightarrow> (string, 'v) amap \<Rightarrow> (string \<times> 'v) list" where
  "entries e m = map (\<lambda>k. (k, the (map_of m k))) (iter_order e (map fst m))"

lemma set_entries:
  assumes "env_ok e" "amap_ok m" shows "set (entries e m) = set m"
proof -
  have "set (entries e m) = (\<lambda>k. (k, the (map_of m k))) ` (fst ` set m)"
    using assms(1) by (simp add: entries_def env_ok_def)
  also have "\<dots> = set m"
    using assms(2) by (force simp: image_image amap_ok_def)
  finally show ?thesis .
qed

lemma keys_entries: "map fst (entries e m) = iter_order e (map fst m)"
  by (simp add: entries_def comp_def)

section \<open>Limits\<close>

record worker_registry_config =
  max_worker_strikes :: nat
  max_worker_heartbeat_interval_secs :: duration
  proof_timeout_mins :: nat
  worker_required_progress_interval_mins :: nat
  worker_max_execution_report_mins :: nat
  assignment_startup_grace_secs :: nat

definition default_worker_registry_config :: worker_registry_config where
  "default_worker_registry_config =
     \<lparr>max_worker_strikes = 3,
      max_worker_heartbeat_interval_secs = from_secs (10 * 60),
      proof_timeout_mins = 300,
      worker_required_progress_interval_mins = 0,
      worker_max_execution_report_mins = 45,
      assignment_startup_grace_secs = 90\<rparr>"

section \<open>State\<close>

datatype worker_status =
    Idle
  | Busy (busy_id: b256) (busy_vm: vm_kind) (busy_mode: string) (start_time: instant)
      (busy_progress: "progress_update option") (time_of_last_update: system_time)

record capabilities =
  cap_vms :: "vm_kind list"
  cap_risc0_groth16 :: bool
  cap_openvm_evm :: bool

record worker_state =
  ws_name :: string
  ws_status :: worker_status
  ws_last_vm :: "vm_kind option"
  ws_capabilities :: capabilities
  ws_strikes :: nat
  ws_last_heartbeat :: instant
  ws_sender :: chan
  ws_magister_drop_endpoint :: "string option"
  ws_instance_nonce :: u64

definition worker_new ::
    "env \<Rightarrow> string \<Rightarrow> vm_kind list \<Rightarrow> bool \<Rightarrow> bool \<Rightarrow> string option \<Rightarrow> u64 \<Rightarrow> chan \<Rightarrow> worker_state" where
  "worker_new e nm supported_vms groth16_enabled openvm_evm_enabled magister nonce sender =
     \<lparr>ws_name = nm, ws_status = Idle, ws_last_vm = None,
      ws_capabilities = \<lparr>cap_vms = supported_vms, cap_risc0_groth16 = groth16_enabled,
                         cap_openvm_evm = openvm_evm_enabled\<rparr>,
      ws_strikes = 0, ws_last_heartbeat = now_i e, ws_sender = sender,
      ws_magister_drop_endpoint = magister, ws_instance_nonce = nonce\<rparr>"

definition is_busy :: "worker_state \<Rightarrow> bool" where
  "is_busy w \<longleftrightarrow> ws_status w \<noteq> Idle"

definition supports :: "vm_kind \<Rightarrow> worker_state \<Rightarrow> bool" where
  "supports vm w \<longleftrightarrow> vm \<in> set (cap_vms (ws_capabilities w))"

definition can_serve :: "'s contemplant_proof_request \<Rightarrow> worker_state \<Rightarrow> bool" where
  "can_serve r w =
     (if \<not> supports (request_vm r) w then False
      else if needs_groth16 r \<and> \<not> cap_risc0_groth16 (ws_capabilities w) then False
      else if needs_openvm_evm r \<and> \<not> cap_openvm_evm (ws_capabilities w) then False
      else True)"

definition completed_proof :: "worker_state \<Rightarrow> worker_state" where
  "completed_proof w = w\<lparr>ws_status := Idle, ws_strikes := 0\<rparr>"

definition failed_proof :: "worker_state \<Rightarrow> worker_state" where
  "failed_proof w = w\<lparr>ws_status := Idle\<rparr>"

definition add_strike :: "worker_state \<Rightarrow> worker_state" where
  "add_strike w = w\<lparr>ws_strikes := ws_strikes w + 1\<rparr>"

definition assigned_proof :: "env \<Rightarrow> b256 \<Rightarrow> vm_kind \<Rightarrow> string \<Rightarrow> worker_state \<Rightarrow> worker_state" where
  "assigned_proof e rid vm mode w =
     w\<lparr>ws_status := Busy rid vm mode (now_i e) None (now_s e),
       ws_last_vm := Some vm,
       ws_strikes := 0\<rparr>"

definition worker_heartbeat :: "env \<Rightarrow> worker_state \<Rightarrow> worker_state" where
  "worker_heartbeat e w = w\<lparr>ws_last_heartbeat := now_i e\<rparr>"

definition should_drop :: "env \<Rightarrow> worker_registry_config \<Rightarrow> worker_state \<Rightarrow> bool" where
  "should_drop e cfg w =
     (if ws_strikes w \<ge> max_worker_strikes cfg then True
      else if elapsed e (ws_last_heartbeat w) \<ge> max_worker_heartbeat_interval_secs cfg then True
      else (case ws_status w of
          Busy rid vm mode start prog last_update \<Rightarrow>
            (let mins_on_this_proof = minutes 24 (elapsed e start) in
             if mins_on_this_proof > proof_timeout_mins cfg then True
             else (case duration_since e last_update of
                 Some d \<Rightarrow>
                   (let mins_since_last_update = minutes 53 d in
                    if worker_required_progress_interval_mins cfg > 0 \<and>
                       mins_since_last_update > worker_required_progress_interval_mins cfg
                    then True else False)
               | None \<Rightarrow>
                   (if prog = None then
                      (if mins_on_this_proof > worker_max_execution_report_mins cfg
                       then True else False)
                    else False)))
        | Idle \<Rightarrow> False))"

definition current_proof :: "worker_state \<Rightarrow> (b256 \<times> vm_kind \<times> string) option" where
  "current_proof w = (case ws_status w of
       Idle \<Rightarrow> None
     | Busy rid vm mode _ _ _ \<Rightarrow> Some (rid, vm, mode))"

text \<open>\<^verbatim>\<open>serialize_instant_age_secs\<close>, and the two \<^verbatim>\<open>Display\<close> implementations.\<close>

definition instant_age_secs :: "env \<Rightarrow> instant \<Rightarrow> nat" where
  "instant_age_secs e t = as_secs (elapsed e t)"

definition display_worker_status :: "env \<Rightarrow> (b256 \<Rightarrow> string) \<Rightarrow> worker_status \<Rightarrow> string" where
  "display_worker_status e show_id s = (case s of
       Idle \<Rightarrow> ''Idle''
     | Busy rid vm mode start prog _ \<Rightarrow>
         (let mins = min (2 ^ 32 - 1) (nat \<lfloor>minutes_f 24 (elapsed e start) + 1 / 2\<rfloor>);
              progress = (case prog of Some p \<Rightarrow> display_progress p | None \<Rightarrow> ''not started'')
          in vm_as_str vm @ '' '' @ mode @ '' proof '' @ show_id rid @ '' is '' @ progress @
             ''. Computing for '' @ show_nat mins @ '' minutes''))"

definition display_worker_state :: "env \<Rightarrow> (b256 \<Rightarrow> string) \<Rightarrow> worker_state \<Rightarrow> string" where
  "display_worker_state e show_id w =
     (let vms = join_str '','' (map vm_as_str (cap_vms (ws_capabilities w)));
          groth16 = (if cap_risc0_groth16 (ws_capabilities w) then '', Groth16'' else '''');
          openvm_evm = (if cap_openvm_evm (ws_capabilities w) then '', OpenVM-EVM'' else '''')
      in ''name: '' @ ws_name w @ '' [VMs: '' @ vms @ groth16 @ openvm_evm @ ''] status: '' @
         display_worker_status e show_id (ws_status w) @ '', strikes: '' @ show_nat (ws_strikes w))"

section \<open>Facts about one worker\<close>

text \<open>The request a worker is busy with.\<close>

definition works_on :: "b256 \<Rightarrow> worker_state \<Rightarrow> bool" where
  "works_on rid w \<longleftrightarrow> (case ws_status w of Idle \<Rightarrow> False | Busy r _ _ _ _ _ \<Rightarrow> r = rid)"

lemma works_on_current_proof:
  "works_on rid w \<longleftrightarrow> (case current_proof w of Some (i, _) \<Rightarrow> i = rid | None \<Rightarrow> False)"
  by (auto simp: works_on_def current_proof_def split: worker_status.splits)

lemma works_on_busy: "works_on rid w \<Longrightarrow> is_busy w"
  by (auto simp: works_on_def is_busy_def split: worker_status.splits)

lemma works_on_unique: "works_on r w \<Longrightarrow> works_on r' w \<Longrightarrow> r = r'"
  by (auto simp: works_on_def split: worker_status.splits)

lemma works_on_update [simp, frame_simps]:
  "\<not> works_on r (completed_proof w)"
  "\<not> works_on r (failed_proof w)"
  "works_on r (add_strike w) = works_on r w"
  "works_on r (assigned_proof e rid vm m w) \<longleftrightarrow> r = rid"
  "works_on r (worker_heartbeat e w) = works_on r w"
  "\<not> works_on r (worker_new e n v g o' d i c)"
  "works_on r (w\<lparr>ws_strikes := k\<rparr>) = works_on r w"
  by (auto simp: works_on_def completed_proof_def failed_proof_def add_strike_def
      assigned_proof_def worker_heartbeat_def worker_new_def)

lemma can_serve_frame [simp, frame_simps]:
  "can_serve q (add_strike w) = can_serve q w"
  "can_serve q (assigned_proof e rid vm m w) = can_serve q w"
  "can_serve q (completed_proof w) = can_serve q w"
  "can_serve q (failed_proof w) = can_serve q w"
  "can_serve q (worker_heartbeat e w) = can_serve q w"
  "can_serve q (w\<lparr>ws_strikes := k\<rparr>) = can_serve q w"
  "can_serve q (w\<lparr>ws_status := t\<rparr>) = can_serve q w"
  by (simp_all add: can_serve_def supports_def add_strike_def assigned_proof_def
      completed_proof_def failed_proof_def worker_heartbeat_def)

lemma sender_frame [simp, frame_simps]:
  "ws_sender (add_strike w) = ws_sender w"
  "ws_sender (assigned_proof e rid vm m w) = ws_sender w"
  "ws_sender (completed_proof w) = ws_sender w"
  "ws_sender (failed_proof w) = ws_sender w"
  "ws_sender (worker_heartbeat e w) = ws_sender w"
  by (simp_all add: add_strike_def assigned_proof_def completed_proof_def failed_proof_def
      worker_heartbeat_def)

lemma status_frame [simp, frame_simps]:
  "ws_status (add_strike w) = ws_status w"
  "ws_status (completed_proof w) = Idle"
  "ws_status (failed_proof w) = Idle"
  "ws_status (worker_heartbeat e w) = ws_status w"
  "ws_status (assigned_proof e rid vm m w) \<noteq> Idle"
  by (simp_all add: add_strike_def completed_proof_def failed_proof_def worker_heartbeat_def
      assigned_proof_def)

lemma is_busy_frame [simp, frame_simps]:
  "is_busy (add_strike w) = is_busy w"
  "is_busy (assigned_proof e rid vm m w)"
  "\<not> is_busy (completed_proof w)"
  "\<not> is_busy (failed_proof w)"
  "is_busy (worker_heartbeat e w) = is_busy w"
  "is_busy (w\<lparr>ws_strikes := k\<rparr>) = is_busy w"
  "\<not> is_busy (worker_new e n v g o' d i c)"
  by (simp_all add: is_busy_def worker_new_def)

text \<open>The three conditions that evict a worker, whatever its other fields hold.\<close>

lemma should_drop_strikes: "max_worker_strikes cfg \<le> ws_strikes w \<Longrightarrow> should_drop e cfg w"
  by (simp add: should_drop_def)

lemma should_drop_silent:
  "max_worker_heartbeat_interval_secs cfg \<le> elapsed e (ws_last_heartbeat w) \<Longrightarrow> should_drop e cfg w"
  by (simp add: should_drop_def)

lemma not_should_drop_idle:
  assumes "ws_strikes w < max_worker_strikes cfg"
    and "elapsed e (ws_last_heartbeat w) < max_worker_heartbeat_interval_secs cfg"
    and "\<not> is_busy w"
  shows "\<not> should_drop e cfg w"
  using assms by (simp add: should_drop_def is_busy_def)

text \<open>The proof timeout, measured in rounded \<^verbatim>\<open>f32\<close> minutes, is exact to the minute: with the
  default progress interval, a worker that is alive and below the strike limit is kept up to
  \<open>proof_timeout_mins\<close> minutes on one proof and is evicted from one minute later on.\<close>

theorem proof_timeout_window:
  assumes "ws_strikes w < max_worker_strikes cfg"
    and "elapsed e (ws_last_heartbeat w) < max_worker_heartbeat_interval_secs cfg"
    and "ws_status w = Busy rid vm m start prog upd"
    and "60 * (proof_timeout_mins cfg + 1) \<le> 2 ^ 24"
    and "upd \<le> now_s e"
    and "worker_required_progress_interval_mins cfg = 0"
  shows "(elapsed e start \<le> from_secs (60 * proof_timeout_mins cfg) \<longrightarrow> \<not> should_drop e cfg w) \<and>
         (from_secs (60 * (proof_timeout_mins cfg + 1)) \<le> elapsed e start \<longrightarrow> should_drop e cfg w)"
proof (intro conjI impI)
  assume "elapsed e start \<le> from_secs (60 * proof_timeout_mins cfg)"
  then have "minutes 24 (elapsed e start) \<le> proof_timeout_mins cfg"
    using assms(4) by (intro minutes_le) simp_all
  then show "\<not> should_drop e cfg w"
    using assms(1,2,3,5,6) by (simp add: should_drop_def Let_def duration_since_def)
next
  assume "from_secs (60 * (proof_timeout_mins cfg + 1)) \<le> elapsed e start"
  then have "proof_timeout_mins cfg + 1 \<le> minutes 24 (elapsed e start)"
    using assms(4) by (intro minutes_ge) simp_all
  then show "should_drop e cfg w" using assms(3) by (simp add: should_drop_def Let_def)
qed

text \<open>A worker busy since time 0, and an instant.\<close>

definition busy_worker :: "system_time \<Rightarrow> worker_state" where
  "busy_worker upd = \<lparr>ws_name = ''alice'', ws_status = Busy 1 Vm_Risc0 ''SUCCINCT'' 0 None upd,
     ws_last_vm = Some Vm_Risc0,
     ws_capabilities = \<lparr>cap_vms = [Vm_Risc0], cap_risc0_groth16 = False, cap_openvm_evm = False\<rparr>,
     ws_strikes = 0, ws_last_heartbeat = from_secs 18060, ws_sender = 0,
     ws_magister_drop_endpoint = None, ws_instance_nonce = 7\<rparr>"

definition at_time :: "instant \<Rightarrow> env" where
  "at_time t = \<lparr>now_i = t, now_s = t, chan_open = (\<lambda>_. True), iter_order = (\<lambda>ks. ks)\<rparr>"

theorem proof_timeout_window_witness:
  "should_drop (at_time (from_secs 18060)) default_worker_registry_config (busy_worker 0) \<and>
   \<not> should_drop (at_time (from_secs 18000)) default_worker_registry_config (busy_worker 0)"
proof -
  have st: "ws_status (busy_worker 0) = Busy 1 Vm_Risc0 ''SUCCINCT'' 0 None 0"
    and a: "ws_strikes (busy_worker 0) < max_worker_strikes default_worker_registry_config"
    and c: "60 * (proof_timeout_mins default_worker_registry_config + 1) \<le> 2 ^ 24"
    and d: "worker_required_progress_interval_mins default_worker_registry_config = 0"
    and p: "proof_timeout_mins default_worker_registry_config = 300"
    by (simp_all add: busy_worker_def default_worker_registry_config_def)
  have b: "elapsed (at_time (from_secs k)) (ws_last_heartbeat (busy_worker 0)) <
      max_worker_heartbeat_interval_secs default_worker_registry_config" if "k \<le> 18060" for k
    using that by (simp add: at_time_def busy_worker_def default_worker_registry_config_def elapsed_def
        from_secs_def nanos_per_sec_def)
  have u: "0 \<le> now_s (at_time t)" for t by simp
  have "should_drop (at_time (from_secs 18060)) default_worker_registry_config (busy_worker 0)"
    using proof_timeout_window [OF a b st c u d, of 18060] by (simp add: p at_time_def elapsed_def)
  moreover have "\<not> should_drop (at_time (from_secs 18000)) default_worker_registry_config (busy_worker 0)"
    using proof_timeout_window [OF a b st c u d, of 18000] by (simp add: p at_time_def elapsed_def)
  ultimately show ?thesis by blast
qed

text \<open>As long as the system clock is not set back behind the last progress update, the eviction
  decision does not depend on \<open>worker_max_execution_report_mins\<close> at all.\<close>

theorem execution_report_limit_unused:
  assumes "ws_status w = Idle \<or> time_of_last_update (ws_status w) \<le> now_s e"
  shows "should_drop e (cfg\<lparr>worker_max_execution_report_mins := k\<rparr>) w = should_drop e cfg w"
  using assms by (auto simp: should_drop_def Let_def duration_since_def split: worker_status.splits)

theorem execution_report_limit_unused_witness:
  "should_drop (at_time 9) (default_worker_registry_config\<lparr>worker_max_execution_report_mins := 0\<rparr>) (busy_worker 0) =
   should_drop (at_time 9) default_worker_registry_config (busy_worker 0)"
  by (rule execution_report_limit_unused) (simp add: busy_worker_def at_time_def)

end
