(* ===== verification/Configuration.thy ===== *)
theory Configuration
  imports Worker_State
begin

text \<open>
  Loading of the two configurations (\<^verbatim>\<open>hierophant/src/config.rs\<close>, \<^verbatim>\<open>contemplant/src/config.rs\<close>): the file or
  the defaults, then the overrides from environment variables in the order of the sources, then validation.
  The TOML parser is the parameter \<open>toml\<close>: for the hierophant it yields the table of the file, from which the
  derived \<^verbatim>\<open>Deserialize\<close> with its per-field defaults is modelled; for the contemplant, whose provers are a list
  of tables, it includes the deserialisation. The environment is a function from names to values, \<open>None\<close> where
  \<^verbatim>\<open>env::var\<close> fails. Values are ASCII text.
\<close>

section \<open>Parsing of values\<close>

datatype config_error =
    ReadConfig
  | ParseConfig
  | BadVar string
  | UnknownVm string
  | MissingField string
  | NoProvers
  | Risc0CudaBuild
  | Groth16Misplaced
  | EvmMisplaced

definition sbind :: "'e + 'a \<Rightarrow> ('a \<Rightarrow> 'e + 'b) \<Rightarrow> 'e + 'b" where
  "sbind m f = (case m of Inl e \<Rightarrow> Inl e | Inr x \<Rightarrow> f x)"

text \<open>\<^verbatim>\<open>FromStr\<close> of the unsigned integer types: an optional plus sign, then at least one digit.\<close>

fun parse_digits :: "nat \<Rightarrow> string \<Rightarrow> nat option" where
  "parse_digits acc [] = Some acc"
| "parse_digits acc (c # cs) =
     (let d = (of_char c :: nat) in
      if 48 \<le> d \<and> d \<le> 57 then parse_digits (acc * 10 + (d - 48)) cs else None)"

definition parse_uint :: "nat \<Rightarrow> string \<Rightarrow> nat option" where
  "parse_uint w s =
     (let ds = (case s of [] \<Rightarrow> [] | c # cs \<Rightarrow> if c = CHR ''+'' then cs else s) in
      if ds = [] then None
      else (case parse_digits 0 ds of
              None \<Rightarrow> None
            | Some n \<Rightarrow> (if n < 2 ^ w then Some n else None)))"

definition parse_bool :: "string \<Rightarrow> bool option" where
  "parse_bool s = (if s = ''true'' then Some True else if s = ''false'' then Some False else None)"

text \<open>A number of seconds, read as a \<^verbatim>\<open>u64\<close>.\<close>

definition parse_secs :: "string \<Rightarrow> duration option" where
  "parse_secs s = map_option from_secs (parse_uint 64 s)"

text \<open>\<^verbatim>\<open>if let Ok(val) = env::var(name) { config.field = val.parse().context(..)?; }\<close>\<close>

type_synonym env_vars = "string \<Rightarrow> string option"

definition env_set ::
    "env_vars \<Rightarrow> string \<Rightarrow> (string \<Rightarrow> 'v option) \<Rightarrow> ('v \<Rightarrow> 'c \<Rightarrow> 'c) \<Rightarrow> 'c \<Rightarrow> config_error + 'c" where
  "env_set env nm parse upd c = (case env nm of
       None \<Rightarrow> Inr c
     | Some val \<Rightarrow> (case parse val of None \<Rightarrow> Inl (BadVar nm) | Some v \<Rightarrow> Inr (upd v c)))"

fun run_overrides :: "('c \<Rightarrow> config_error + 'c) list \<Rightarrow> 'c \<Rightarrow> config_error + 'c" where
  "run_overrides [] c = Inr c"
| "run_overrides (f # fs) c = sbind (f c) (run_overrides fs)"

text \<open>The configuration file: absent, unreadable, or its text.\<close>

datatype config_file = FileMissing | FileUnreadable | FileText string

definition load_base :: "(string \<Rightarrow> 'c option) \<Rightarrow> config_file \<Rightarrow> 'c \<Rightarrow> config_error + 'c" where
  "load_base toml f defaults = (case f of
       FileMissing \<Rightarrow> Inr defaults
     | FileUnreadable \<Rightarrow> Inl ReadConfig
     | FileText t \<Rightarrow> (case toml t of None \<Rightarrow> Inl ParseConfig | Some c \<Rightarrow> Inr c))"

section \<open>The hierophant\<close>

text \<open>\<open>'a\<close> is \<^verbatim>\<open>alloy_primitives::Address\<close>, with its parser as a parameter.\<close>

record 'a hierophant_config =
  hc_grpc_port :: nat
  hc_http_port :: nat
  hc_worker_response_timeout_secs :: duration
  hc_this_hierophant_ip :: string
  hc_pub_key :: 'a
  hc_mock_mode :: bool
  hc_artifact_store_directory :: string
  hc_max_stdin_artifacts_stored :: nat
  hc_max_proof_artifacts_stored :: nat
  hc_worker_registry :: worker_registry_config

definition hierophant_config_default :: "'a \<Rightarrow> 'a hierophant_config" where
  "hierophant_config_default addr0 =
     \<lparr>hc_grpc_port = 9000, hc_http_port = 9010, hc_worker_response_timeout_secs = from_secs 30,
      hc_this_hierophant_ip = [], hc_pub_key = addr0, hc_mock_mode = False,
      hc_artifact_store_directory = ''artifacts'', hc_max_stdin_artifacts_stored = 50,
      hc_max_proof_artifacts_stored = 10, hc_worker_registry = default_worker_registry_config\<rparr>"

text \<open>
  The derived \<^verbatim>\<open>Deserialize\<close> on the table of a file: a missing field takes its \<^verbatim>\<open>#[serde(default = ..)]\<close>, a
  field without a default has to be there, a present one has to be of its type and in range, and unknown fields
  are ignored. (The positional form of a table, an array, is not modelled.) \<open>de_addr\<close> reads an address.
\<close>

datatype toml_value = Toml_Int int | Toml_Str string | Toml_Bool bool | Toml_Table "(string \<times> toml_value) list" | Toml_Other

type_synonym toml_table = "(string \<times> toml_value) list"

definition toml_uint :: "nat \<Rightarrow> toml_value \<Rightarrow> nat option" where
  "toml_uint w v = (case v of Toml_Int i \<Rightarrow> (if 0 \<le> i \<and> i < 2 ^ w then Some (nat i) else None) | _ \<Rightarrow> None)"

definition deserialize_duration_from_secs :: "toml_value \<Rightarrow> duration option" where
  "deserialize_duration_from_secs v = map_option from_secs (toml_uint 64 v)"

definition toml_str :: "toml_value \<Rightarrow> string option" where
  "toml_str v = (case v of Toml_Str x \<Rightarrow> Some x | _ \<Rightarrow> None)"

definition toml_bool :: "toml_value \<Rightarrow> bool option" where
  "toml_bool v = (case v of Toml_Bool b \<Rightarrow> Some b | _ \<Rightarrow> None)"

definition toml_field :: "toml_table \<Rightarrow> string \<Rightarrow> (toml_value \<Rightarrow> 'v option) \<Rightarrow> 'v \<Rightarrow> 'v option" where
  "toml_field t key de dflt = (case map_of t key of None \<Rightarrow> Some dflt | Some v \<Rightarrow> de v)"

definition worker_registry_deserialize :: "toml_table \<Rightarrow> worker_registry_config option" where
  "worker_registry_deserialize t =
     (let d = default_worker_registry_config in
      Option.bind (toml_field t ''max_worker_strikes'' (toml_uint 64) (max_worker_strikes d)) (\<lambda>strikes.
      Option.bind (toml_field t ''max_worker_heartbeat_interval_secs'' deserialize_duration_from_secs
                     (max_worker_heartbeat_interval_secs d)) (\<lambda>heartbeat.
      Option.bind (toml_field t ''proof_timeout_mins'' (toml_uint 64) (proof_timeout_mins d)) (\<lambda>timeout.
      Option.bind (toml_field t ''worker_required_progress_interval_mins'' (toml_uint 64)
                     (worker_required_progress_interval_mins d)) (\<lambda>progress.
      Option.bind (toml_field t ''worker_max_execution_report_mins'' (toml_uint 64)
                     (worker_max_execution_report_mins d)) (\<lambda>report.
      Option.bind (toml_field t ''assignment_startup_grace_secs'' (toml_uint 64)
                     (assignment_startup_grace_secs d)) (\<lambda>grace.
        Some \<lparr>max_worker_strikes = strikes, max_worker_heartbeat_interval_secs = heartbeat,
              proof_timeout_mins = timeout, worker_required_progress_interval_mins = progress,
              worker_max_execution_report_mins = report, assignment_startup_grace_secs = grace\<rparr>)))))))"

definition worker_registry_value :: "toml_value \<Rightarrow> worker_registry_config option" where
  "worker_registry_value v = (case v of Toml_Table u \<Rightarrow> worker_registry_deserialize u | _ \<Rightarrow> None)"

definition hierophant_config_deserialize ::
    "(toml_value \<Rightarrow> 'a option) \<Rightarrow> 'a \<Rightarrow> toml_table \<Rightarrow> 'a hierophant_config option" where
  "hierophant_config_deserialize de_addr addr0 t =
     (let d = hierophant_config_default addr0 in
      Option.bind (toml_field t ''grpc_port'' (toml_uint 16) (hc_grpc_port d)) (\<lambda>grpc.
      Option.bind (toml_field t ''http_port'' (toml_uint 16) (hc_http_port d)) (\<lambda>http.
      Option.bind (toml_field t ''worker_response_timeout_secs'' deserialize_duration_from_secs
                     (hc_worker_response_timeout_secs d)) (\<lambda>response.
      Option.bind (Option.bind (map_of t ''this_hierophant_ip'') toml_str) (\<lambda>ip.
      Option.bind (toml_field t ''pub_key'' de_addr (hc_pub_key d)) (\<lambda>key.
      Option.bind (toml_field t ''mock_mode'' toml_bool (hc_mock_mode d)) (\<lambda>mock.
      Option.bind (toml_field t ''artifact_store_directory'' toml_str (hc_artifact_store_directory d)) (\<lambda>dir.
      Option.bind (toml_field t ''max_stdin_artifacts_stored'' (toml_uint 64)
                     (hc_max_stdin_artifacts_stored d)) (\<lambda>stdin.
      Option.bind (toml_field t ''max_proof_artifacts_stored'' (toml_uint 64)
                     (hc_max_proof_artifacts_stored d)) (\<lambda>proofs.
      Option.bind (toml_field t ''worker_registry'' worker_registry_value (hc_worker_registry d)) (\<lambda>registry.
        Some \<lparr>hc_grpc_port = grpc, hc_http_port = http, hc_worker_response_timeout_secs = response,
              hc_this_hierophant_ip = ip, hc_pub_key = key, hc_mock_mode = mock,
              hc_artifact_store_directory = dir, hc_max_stdin_artifacts_stored = stdin,
              hc_max_proof_artifacts_stored = proofs, hc_worker_registry = registry\<rparr>)))))))))))"

definition hierophant_overrides ::
    "(string \<Rightarrow> 'a option) \<Rightarrow> env_vars \<Rightarrow> ('a hierophant_config \<Rightarrow> config_error + 'a hierophant_config) list" where
  "hierophant_overrides parse_addr env =
     [env_set env ''GRPC_PORT'' (parse_uint 16) (\<lambda>v c. c\<lparr>hc_grpc_port := v\<rparr>),
      env_set env ''HTTP_PORT'' (parse_uint 16) (\<lambda>v c. c\<lparr>hc_http_port := v\<rparr>),
      env_set env ''WORKER_RESPONSE_TIMEOUT_SECS'' parse_secs
        (\<lambda>v c. c\<lparr>hc_worker_response_timeout_secs := v\<rparr>),
      env_set env ''THIS_HIEROPHANT_IP'' Some (\<lambda>v c. c\<lparr>hc_this_hierophant_ip := v\<rparr>),
      env_set env ''PUB_KEY'' parse_addr (\<lambda>v c. c\<lparr>hc_pub_key := v\<rparr>),
      env_set env ''MOCK_MODE'' parse_bool (\<lambda>v c. c\<lparr>hc_mock_mode := v\<rparr>),
      env_set env ''ARTIFACT_STORE_DIRECTORY'' Some (\<lambda>v c. c\<lparr>hc_artifact_store_directory := v\<rparr>),
      env_set env ''MAX_STDIN_ARTIFACTS_STORED'' (parse_uint 64) (\<lambda>v c. c\<lparr>hc_max_stdin_artifacts_stored := v\<rparr>),
      env_set env ''MAX_PROOF_ARTIFACTS_STORED'' (parse_uint 64) (\<lambda>v c. c\<lparr>hc_max_proof_artifacts_stored := v\<rparr>),
      env_set env ''MAX_WORKER_STRIKES'' (parse_uint 64)
        (\<lambda>v c. c\<lparr>hc_worker_registry := (hc_worker_registry c)\<lparr>max_worker_strikes := v\<rparr>\<rparr>),
      env_set env ''MAX_WORKER_HEARTBEAT_INTERVAL_SECS'' parse_secs
        (\<lambda>v c. c\<lparr>hc_worker_registry := (hc_worker_registry c)\<lparr>max_worker_heartbeat_interval_secs := v\<rparr>\<rparr>),
      env_set env ''PROOF_TIMEOUT_MINS'' (parse_uint 64)
        (\<lambda>v c. c\<lparr>hc_worker_registry := (hc_worker_registry c)\<lparr>proof_timeout_mins := v\<rparr>\<rparr>),
      env_set env ''WORKER_REQUIRED_PROGRESS_INTERVAL_MINS'' (parse_uint 64)
        (\<lambda>v c. c\<lparr>hc_worker_registry := (hc_worker_registry c)\<lparr>worker_required_progress_interval_mins := v\<rparr>\<rparr>),
      env_set env ''WORKER_MAX_EXECUTION_REPORT_MINS'' (parse_uint 64)
        (\<lambda>v c. c\<lparr>hc_worker_registry := (hc_worker_registry c)\<lparr>worker_max_execution_report_mins := v\<rparr>\<rparr>)]"

definition hierophant_config_load ::
    "(string \<Rightarrow> 'a option) \<Rightarrow> (toml_value \<Rightarrow> 'a option) \<Rightarrow> 'a \<Rightarrow> (string \<Rightarrow> toml_table option) \<Rightarrow> config_file \<Rightarrow>
     env_vars \<Rightarrow> config_error + 'a hierophant_config" where
  "hierophant_config_load parse_addr de_addr addr0 toml f env =
     sbind (load_base (\<lambda>x. Option.bind (toml x) (hierophant_config_deserialize de_addr addr0)) f
              (hierophant_config_default addr0)) (\<lambda>base.
     sbind (run_overrides (hierophant_overrides parse_addr env) base) (\<lambda>c.
       if hc_this_hierophant_ip c = [] then Inl (MissingField ''this_hierophant_ip'') else Inr c))"

section \<open>The contemplant\<close>

datatype prover_backend = Backend_Cpu | Backend_Cuda

definition prover_backend_from_str :: "string \<Rightarrow> prover_backend option" where
  "prover_backend_from_str s =
     (let l = to_ascii_lowercase s in
      if l = ''cpu'' then Some Backend_Cpu else if l = ''cuda'' then Some Backend_Cuda else None)"

datatype vm_choice = Choice_Sp1 | Choice_Risc0 | Choice_OpenVm

fun vm_choice_kind :: "vm_choice \<Rightarrow> vm_kind" where
  "vm_choice_kind Choice_Sp1 = Vm_Sp1"
| "vm_choice_kind Choice_Risc0 = Vm_Risc0"
| "vm_choice_kind Choice_OpenVm = Vm_OpenVm"

record prover_config =
  pc_vm :: vm_choice
  pc_backend :: prover_backend
  pc_moongate_endpoint :: "string option"
  pc_groth16_enabled :: bool
  pc_evm_enabled :: bool

record assessor_config =
  ac_moongate_log_path :: string
  ac_watcher_polling_interval_ms :: nat

definition assessor_config_default :: assessor_config where
  "assessor_config_default = \<lparr>ac_moongate_log_path = ''./moongate.log'', ac_watcher_polling_interval_ms = 2000\<rparr>"

record contemplant_config =
  cc_hierophant_ws_address :: string
  cc_contemplant_name :: string
  cc_http_port :: nat
  cc_provers :: "prover_config list"
  cc_heartbeat_interval_seconds :: nat
  cc_max_proofs_stored :: nat
  cc_assessor :: assessor_config
  cc_magister_drop_endpoint :: "string option"
  cc_compute_proof_totals :: bool

text \<open>
  \<open>names\<close> are the lines of \<^verbatim>\<open>names.txt\<close> that could be read, \<open>None\<close> when the file does not open; \<open>rng n\<close> is
  the random index below \<open>n\<close>.
\<close>

definition default_contemplant_name :: "string list option \<Rightarrow> (nat \<Rightarrow> nat) \<Rightarrow> string" where
  "default_contemplant_name names rng = (case names of
       None \<Rightarrow> ''judas''
     | Some ns \<Rightarrow>
         (if ns = [] then ''judas''
          else (let i = rng (length ns) in if i < length ns then ns ! i else ''judas'')))"

definition contemplant_config_default :: "string \<Rightarrow> contemplant_config" where
  "contemplant_config_default nm =
     \<lparr>cc_hierophant_ws_address = [], cc_contemplant_name = nm, cc_http_port = 9011, cc_provers = [],
      cc_heartbeat_interval_seconds = 30, cc_max_proofs_stored = 2, cc_assessor = assessor_config_default,
      cc_magister_drop_endpoint = None, cc_compute_proof_totals = True\<rparr>"

definition contemplant_overrides ::
    "env_vars \<Rightarrow> (contemplant_config \<Rightarrow> config_error + contemplant_config) list" where
  "contemplant_overrides env =
     [env_set env ''HIEROPHANT_WS_ADDRESS'' Some (\<lambda>v c. c\<lparr>cc_hierophant_ws_address := v\<rparr>),
      env_set env ''CONTEMPLANT_NAME'' Some (\<lambda>v c. c\<lparr>cc_contemplant_name := v\<rparr>),
      env_set env ''HTTP_PORT'' (parse_uint 16) (\<lambda>v c. c\<lparr>cc_http_port := v\<rparr>),
      env_set env ''HEARTBEAT_INTERVAL_SECONDS'' (parse_uint 64) (\<lambda>v c. c\<lparr>cc_heartbeat_interval_seconds := v\<rparr>),
      env_set env ''MAX_PROOFS_STORED'' (parse_uint 64) (\<lambda>v c. c\<lparr>cc_max_proofs_stored := v\<rparr>),
      env_set env ''MAGISTER_DROP_ENDPOINT'' Some (\<lambda>v c. c\<lparr>cc_magister_drop_endpoint := Some v\<rparr>),
      env_set env ''CONTEMPLANT_PROOF_TOTALS'' parse_bool (\<lambda>v c. c\<lparr>cc_compute_proof_totals := v\<rparr>),
      env_set env ''MOONGATE_LOG_PATH'' Some
        (\<lambda>v c. c\<lparr>cc_assessor := (cc_assessor c)\<lparr>ac_moongate_log_path := v\<rparr>\<rparr>),
      env_set env ''WATCHER_POLLING_INTERVAL_MS'' (parse_uint 64)
        (\<lambda>v c. c\<lparr>cc_assessor := (cc_assessor c)\<lparr>ac_watcher_polling_interval_ms := v\<rparr>\<rparr>)]"

text \<open>\<^verbatim>\<open>env::var(name).ok().map(|s| s.parse()).transpose().context(..)?.unwrap_or(default)\<close>\<close>

definition env_or :: "env_vars \<Rightarrow> string \<Rightarrow> (string \<Rightarrow> 'v option) \<Rightarrow> 'v \<Rightarrow> config_error + 'v" where
  "env_or env nm parse dflt = (case env nm of
       None \<Rightarrow> Inr dflt
     | Some val \<Rightarrow> (case parse val of None \<Rightarrow> Inl (BadVar nm) | Some v \<Rightarrow> Inr v))"

definition prover_of_token :: "env_vars \<Rightarrow> string \<Rightarrow> config_error + prover_config" where
  "prover_of_token env token =
     (let t = to_ascii_lowercase token in
      if t = ''sp1'' then
        sbind (env_or env ''CONTEMPLANT_SP1_BACKEND'' prover_backend_from_str Backend_Cpu) (\<lambda>b.
          Inr \<lparr>pc_vm = Choice_Sp1, pc_backend = b, pc_moongate_endpoint = env ''MOONGATE_ENDPOINT'',
               pc_groth16_enabled = False, pc_evm_enabled = False\<rparr>)
      else if t = ''risc0'' then
        sbind (env_or env ''CONTEMPLANT_RISC0_BACKEND'' prover_backend_from_str Backend_Cpu) (\<lambda>b.
        sbind (env_or env ''CONTEMPLANT_RISC0_GROTH16'' parse_bool False) (\<lambda>g.
          Inr \<lparr>pc_vm = Choice_Risc0, pc_backend = b, pc_moongate_endpoint = None,
               pc_groth16_enabled = g, pc_evm_enabled = False\<rparr>))
      else if t = ''openvm'' then
        sbind (env_or env ''CONTEMPLANT_OPENVM_BACKEND'' prover_backend_from_str Backend_Cpu) (\<lambda>b.
        sbind (env_or env ''CONTEMPLANT_OPENVM_EVM'' parse_bool False) (\<lambda>ev.
          Inr \<lparr>pc_vm = Choice_OpenVm, pc_backend = b, pc_moongate_endpoint = None,
               pc_groth16_enabled = False, pc_evm_enabled = ev\<rparr>))
      else Inl (UnknownVm t))"

fun provers_of_tokens :: "env_vars \<Rightarrow> string list \<Rightarrow> prover_config list \<Rightarrow> config_error + prover_config list" where
  "provers_of_tokens env [] ps = Inr ps"
| "provers_of_tokens env (t # ts) ps =
     sbind (prover_of_token env t) (\<lambda>p. provers_of_tokens env ts (ps @ [p]))"

definition vm_tokens :: "string \<Rightarrow> string list" where
  "vm_tokens vms = filter (\<lambda>t. t \<noteq> []) (map trim_str (split_on (CHR '','') vms))"

definition provers_from_env :: "env_vars \<Rightarrow> contemplant_config \<Rightarrow> config_error + contemplant_config" where
  "provers_from_env env c =
     (if cc_provers c \<noteq> [] then Inr c
      else (case env ''CONTEMPLANT_VMS'' of
              None \<Rightarrow> Inr c
            | Some vms \<Rightarrow>
                sbind (provers_of_tokens env (vm_tokens vms) (cc_provers c)) (\<lambda>ps. Inr (c\<lparr>cc_provers := ps\<rparr>))))"

text \<open>\<open>risc0_cuda\<close>: the binary was built with the feature \<^verbatim>\<open>enable-risc0-cuda\<close>.\<close>

fun check_provers :: "bool \<Rightarrow> prover_config list \<Rightarrow> config_error + unit" where
  "check_provers risc0_cuda [] = Inr ()"
| "check_provers risc0_cuda (p # ps) =
     (if \<not> risc0_cuda \<and> pc_vm p = Choice_Risc0 \<and> pc_backend p = Backend_Cuda then Inl Risc0CudaBuild
      else if pc_groth16_enabled p \<and> pc_vm p \<noteq> Choice_Risc0 then Inl Groth16Misplaced
      else if pc_evm_enabled p \<and> pc_vm p \<noteq> Choice_OpenVm then Inl EvmMisplaced
      else check_provers risc0_cuda ps)"

definition contemplant_config_load ::
    "bool \<Rightarrow> string \<Rightarrow> (string \<Rightarrow> contemplant_config option) \<Rightarrow> config_file \<Rightarrow> env_vars \<Rightarrow>
     config_error + contemplant_config" where
  "contemplant_config_load risc0_cuda nm toml f env =
     sbind (load_base toml f (contemplant_config_default nm)) (\<lambda>base.
     sbind (run_overrides (contemplant_overrides env) base) (\<lambda>c1.
     sbind (provers_from_env env c1) (\<lambda>c.
       if cc_hierophant_ws_address c = [] then Inl (MissingField ''hierophant_ws_address'')
       else if cc_provers c = [] then Inl NoProvers
       else sbind (check_provers risc0_cuda (cc_provers c)) (\<lambda>_. Inr c))))"

section \<open>Facts\<close>

lemma sbind_Inr: "sbind m f = Inr y \<longleftrightarrow> (\<exists>x. m = Inr x \<and> f x = Inr y)"
  by (cases m) (simp_all add: sbind_def)

lemma sbind_simps [simp]: "sbind (Inl e) f = Inl e" "sbind (Inr x) f = f x"
  by (simp_all add: sbind_def)

text \<open>Decimal text parses to its number, at every width that holds it.\<close>

lemma show_nat_digits:
  "parse_digits acc (show_nat n @ rest) = parse_digits (acc * 10 ^ length (show_nat n) + n) rest"
proof (induction n arbitrary: acc rest rule: show_nat.induct)
  case (1 n)
  show ?case
  proof (cases "n < 10")
    case True
    then show ?thesis by (subst (1 2) show_nat.simps) (simp add: Let_def)
  next
    case False
    have "parse_digits acc (show_nat n @ rest) =
        parse_digits acc (show_nat (n div 10) @ char_of (48 + n mod 10) # rest)"
      using False by (subst show_nat.simps) simp
    also have "\<dots> = parse_digits (acc * 10 ^ length (show_nat (n div 10)) + n div 10) (char_of (48 + n mod 10) # rest)"
      by (rule 1 [OF False])
    also have "\<dots> = parse_digits (acc * 10 ^ Suc (length (show_nat (n div 10))) + n) rest"
    proof -
      have "n mod 10 \<le> 9" by presburger
      then show ?thesis by (simp add: Let_def algebra_simps)
    qed
    also have "Suc (length (show_nat (n div 10))) = length (show_nat n)"
      using False by (subst (2) show_nat.simps) simp
    finally show ?thesis .
  qed
qed

lemma show_nat_first: "\<exists>c cs. show_nat n = c # cs \<and> c \<noteq> CHR ''+''"
proof (induction n rule: show_nat.induct)
  case (1 n)
  have "char_of (48 + n) \<noteq> CHR ''+''" if "n < 10"
  proof
    assume "char_of (48 + n) = CHR ''+''"
    then have "(of_char (char_of (48 + n) :: char) :: nat) = of_char (CHR ''+'')" by simp
    then show False using that by simp
  qed
  then show ?case using 1 by (cases "n < 10") (subst show_nat.simps, auto)+
qed

lemma parse_uint_show_nat: "parse_uint w (show_nat n) = (if n < 2 ^ w then Some n else None)"
proof -
  obtain c cs where c: "show_nat n = c # cs" "c \<noteq> CHR ''+''" using show_nat_first by blast
  have "parse_digits 0 (show_nat n) = Some n" using show_nat_digits [of 0 n "[]"] by simp
  then show ?thesis using c by (simp add: parse_uint_def)
qed

lemma parse_uint_bound: "parse_uint w s = Some n \<Longrightarrow> n < 2 ^ w"
  by (auto simp: parse_uint_def Let_def split: if_splits option.splits)

text \<open>What a field holds after its override, and whether the override goes through.\<close>

definition from_env :: "env_vars \<Rightarrow> string \<Rightarrow> (string \<Rightarrow> 'v option) \<Rightarrow> 'v \<Rightarrow> 'v" where
  "from_env env nm parse old = (case env nm of None \<Rightarrow> old | Some val \<Rightarrow> the (parse val))"

definition env_parses :: "env_vars \<Rightarrow> string \<Rightarrow> (string \<Rightarrow> 'v option) \<Rightarrow> bool" where
  "env_parses env nm parse \<longleftrightarrow> (case env nm of None \<Rightarrow> True | Some val \<Rightarrow> parse val \<noteq> None)"

lemma env_parses_Some [simp]: "env_parses env nm Some"
  by (simp add: env_parses_def split: option.splits)

lemma env_set_Inr:
  assumes "\<And>c. upd (get c) c = c"
  shows "env_set env nm parse upd c = Inr c' \<longleftrightarrow>
     env_parses env nm parse \<and> c' = upd (from_env env nm parse (get c)) c"
  using assms by (auto simp: env_set_def env_parses_def from_env_def split: option.splits)

section \<open>Properties\<close>

text \<open>What a field of the file holds, with the default of a missing one, and whether it can be read.\<close>

definition in_file :: "toml_table \<Rightarrow> string \<Rightarrow> (toml_value \<Rightarrow> 'v option) \<Rightarrow> 'v \<Rightarrow> 'v" where
  "in_file t key de dflt = (case map_of t key of None \<Rightarrow> dflt | Some v \<Rightarrow> the (de v))"

definition file_reads :: "toml_table \<Rightarrow> string \<Rightarrow> (toml_value \<Rightarrow> 'v option) \<Rightarrow> bool" where
  "file_reads t key de \<longleftrightarrow> (case map_of t key of None \<Rightarrow> True | Some v \<Rightarrow> de v \<noteq> None)"

lemma toml_str_Some: "toml_str v = Some x \<longleftrightarrow> v = Toml_Str x"
  by (cases v) (auto simp: toml_str_def)

lemma toml_field_Some: "toml_field t key de dflt = Some x \<longleftrightarrow> file_reads t key de \<and> x = in_file t key de dflt"
  by (auto simp: toml_field_def file_reads_def in_file_def split: option.splits)

definition registry_table :: "toml_table \<Rightarrow> toml_table" where
  "registry_table t = (case map_of t ''worker_registry'' of Some (Toml_Table u) \<Rightarrow> u | _ \<Rightarrow> [])"

definition registry_file_ok :: "toml_table \<Rightarrow> bool" where
  "registry_file_ok u \<longleftrightarrow>
     file_reads u ''max_worker_strikes'' (toml_uint 64) \<and>
     file_reads u ''max_worker_heartbeat_interval_secs'' deserialize_duration_from_secs \<and>
     file_reads u ''proof_timeout_mins'' (toml_uint 64) \<and>
     file_reads u ''worker_required_progress_interval_mins'' (toml_uint 64) \<and>
     file_reads u ''worker_max_execution_report_mins'' (toml_uint 64) \<and>
     file_reads u ''assignment_startup_grace_secs'' (toml_uint 64)"

definition hierophant_file_ok :: "(toml_value \<Rightarrow> 'a option) \<Rightarrow> toml_table \<Rightarrow> bool" where
  "hierophant_file_ok de_addr t \<longleftrightarrow>
     (\<exists>ip. map_of t ''this_hierophant_ip'' = Some (Toml_Str ip)) \<and>
     file_reads t ''grpc_port'' (toml_uint 16) \<and> file_reads t ''http_port'' (toml_uint 16) \<and>
     file_reads t ''worker_response_timeout_secs'' deserialize_duration_from_secs \<and>
     file_reads t ''pub_key'' de_addr \<and> file_reads t ''mock_mode'' toml_bool \<and>
     file_reads t ''artifact_store_directory'' toml_str \<and>
     file_reads t ''max_stdin_artifacts_stored'' (toml_uint 64) \<and>
     file_reads t ''max_proof_artifacts_stored'' (toml_uint 64) \<and>
     (case map_of t ''worker_registry'' of
        None \<Rightarrow> True | Some (Toml_Table u) \<Rightarrow> registry_file_ok u | Some _ \<Rightarrow> False)"

text \<open>
  The configuration as the documentation states it: a variable that is set wins over the file, the file over the
  default, field by field; and every variable that is set has to parse.
\<close>

definition configured ::
    "(string \<Rightarrow> 'a option) \<Rightarrow> (toml_value \<Rightarrow> 'a option) \<Rightarrow> 'a \<Rightarrow> env_vars \<Rightarrow> toml_table \<Rightarrow> 'a hierophant_config" where
  "configured parse_addr de_addr addr0 env t =
     (let u = registry_table t in
      \<lparr>hc_grpc_port = from_env env ''GRPC_PORT'' (parse_uint 16) (in_file t ''grpc_port'' (toml_uint 16) 9000),
       hc_http_port = from_env env ''HTTP_PORT'' (parse_uint 16) (in_file t ''http_port'' (toml_uint 16) 9010),
       hc_worker_response_timeout_secs =
         from_env env ''WORKER_RESPONSE_TIMEOUT_SECS'' parse_secs
           (in_file t ''worker_response_timeout_secs'' deserialize_duration_from_secs (from_secs 30)),
       hc_this_hierophant_ip =
         from_env env ''THIS_HIEROPHANT_IP'' Some (in_file t ''this_hierophant_ip'' toml_str []),
       hc_pub_key = from_env env ''PUB_KEY'' parse_addr (in_file t ''pub_key'' de_addr addr0),
       hc_mock_mode = from_env env ''MOCK_MODE'' parse_bool (in_file t ''mock_mode'' toml_bool False),
       hc_artifact_store_directory =
         from_env env ''ARTIFACT_STORE_DIRECTORY'' Some (in_file t ''artifact_store_directory'' toml_str ''artifacts''),
       hc_max_stdin_artifacts_stored =
         from_env env ''MAX_STDIN_ARTIFACTS_STORED'' (parse_uint 64)
           (in_file t ''max_stdin_artifacts_stored'' (toml_uint 64) 50),
       hc_max_proof_artifacts_stored =
         from_env env ''MAX_PROOF_ARTIFACTS_STORED'' (parse_uint 64)
           (in_file t ''max_proof_artifacts_stored'' (toml_uint 64) 10),
       hc_worker_registry =
         \<lparr>max_worker_strikes =
            from_env env ''MAX_WORKER_STRIKES'' (parse_uint 64) (in_file u ''max_worker_strikes'' (toml_uint 64) 3),
          max_worker_heartbeat_interval_secs =
            from_env env ''MAX_WORKER_HEARTBEAT_INTERVAL_SECS'' parse_secs
              (in_file u ''max_worker_heartbeat_interval_secs'' deserialize_duration_from_secs (from_secs 600)),
          proof_timeout_mins =
            from_env env ''PROOF_TIMEOUT_MINS'' (parse_uint 64) (in_file u ''proof_timeout_mins'' (toml_uint 64) 300),
          worker_required_progress_interval_mins =
            from_env env ''WORKER_REQUIRED_PROGRESS_INTERVAL_MINS'' (parse_uint 64)
              (in_file u ''worker_required_progress_interval_mins'' (toml_uint 64) 0),
          worker_max_execution_report_mins =
            from_env env ''WORKER_MAX_EXECUTION_REPORT_MINS'' (parse_uint 64)
              (in_file u ''worker_max_execution_report_mins'' (toml_uint 64) 45),
          assignment_startup_grace_secs = in_file u ''assignment_startup_grace_secs'' (toml_uint 64) 90\<rparr>\<rparr>)"

text \<open>The overrides alone, on the configuration \<open>b\<close> of the file or the defaults.\<close>

definition overridden :: "(string \<Rightarrow> 'a option) \<Rightarrow> env_vars \<Rightarrow> 'a hierophant_config \<Rightarrow> 'a hierophant_config" where
  "overridden parse_addr env b =
     \<lparr>hc_grpc_port = from_env env ''GRPC_PORT'' (parse_uint 16) (hc_grpc_port b),
      hc_http_port = from_env env ''HTTP_PORT'' (parse_uint 16) (hc_http_port b),
      hc_worker_response_timeout_secs =
        from_env env ''WORKER_RESPONSE_TIMEOUT_SECS'' parse_secs (hc_worker_response_timeout_secs b),
      hc_this_hierophant_ip = from_env env ''THIS_HIEROPHANT_IP'' Some (hc_this_hierophant_ip b),
      hc_pub_key = from_env env ''PUB_KEY'' parse_addr (hc_pub_key b),
      hc_mock_mode = from_env env ''MOCK_MODE'' parse_bool (hc_mock_mode b),
      hc_artifact_store_directory =
        from_env env ''ARTIFACT_STORE_DIRECTORY'' Some (hc_artifact_store_directory b),
      hc_max_stdin_artifacts_stored =
        from_env env ''MAX_STDIN_ARTIFACTS_STORED'' (parse_uint 64) (hc_max_stdin_artifacts_stored b),
      hc_max_proof_artifacts_stored =
        from_env env ''MAX_PROOF_ARTIFACTS_STORED'' (parse_uint 64) (hc_max_proof_artifacts_stored b),
      hc_worker_registry =
        (let w = hc_worker_registry b in
         \<lparr>max_worker_strikes = from_env env ''MAX_WORKER_STRIKES'' (parse_uint 64) (max_worker_strikes w),
          max_worker_heartbeat_interval_secs =
            from_env env ''MAX_WORKER_HEARTBEAT_INTERVAL_SECS'' parse_secs (max_worker_heartbeat_interval_secs w),
          proof_timeout_mins = from_env env ''PROOF_TIMEOUT_MINS'' (parse_uint 64) (proof_timeout_mins w),
          worker_required_progress_interval_mins =
            from_env env ''WORKER_REQUIRED_PROGRESS_INTERVAL_MINS'' (parse_uint 64)
              (worker_required_progress_interval_mins w),
          worker_max_execution_report_mins =
            from_env env ''WORKER_MAX_EXECUTION_REPORT_MINS'' (parse_uint 64) (worker_max_execution_report_mins w),
          assignment_startup_grace_secs = assignment_startup_grace_secs w\<rparr>)\<rparr>"

definition hierophant_env_ok :: "(string \<Rightarrow> 'a option) \<Rightarrow> env_vars \<Rightarrow> bool" where
  "hierophant_env_ok parse_addr env \<longleftrightarrow>
     env_parses env ''GRPC_PORT'' (parse_uint 16) \<and> env_parses env ''HTTP_PORT'' (parse_uint 16) \<and>
     env_parses env ''WORKER_RESPONSE_TIMEOUT_SECS'' parse_secs \<and>
     env_parses env ''PUB_KEY'' parse_addr \<and> env_parses env ''MOCK_MODE'' parse_bool \<and>
     env_parses env ''MAX_STDIN_ARTIFACTS_STORED'' (parse_uint 64) \<and>
     env_parses env ''MAX_PROOF_ARTIFACTS_STORED'' (parse_uint 64) \<and>
     env_parses env ''MAX_WORKER_STRIKES'' (parse_uint 64) \<and>
     env_parses env ''MAX_WORKER_HEARTBEAT_INTERVAL_SECS'' parse_secs \<and>
     env_parses env ''PROOF_TIMEOUT_MINS'' (parse_uint 64) \<and>
     env_parses env ''WORKER_REQUIRED_PROGRESS_INTERVAL_MINS'' (parse_uint 64) \<and>
     env_parses env ''WORKER_MAX_EXECUTION_REPORT_MINS'' (parse_uint 64)"

lemmas hierophant_set_Inr =
  env_set_Inr [where get = hc_grpc_port and upd = "\<lambda>v c. c\<lparr>hc_grpc_port := v\<rparr>", simplified]
  env_set_Inr [where get = hc_http_port and upd = "\<lambda>v c. c\<lparr>hc_http_port := v\<rparr>", simplified]
  env_set_Inr [where get = hc_worker_response_timeout_secs
    and upd = "\<lambda>v c. c\<lparr>hc_worker_response_timeout_secs := v\<rparr>", simplified]
  env_set_Inr [where get = hc_this_hierophant_ip and upd = "\<lambda>v c. c\<lparr>hc_this_hierophant_ip := v\<rparr>", simplified]
  env_set_Inr [where get = hc_pub_key and upd = "\<lambda>v c. c\<lparr>hc_pub_key := v\<rparr>", simplified]
  env_set_Inr [where get = hc_mock_mode and upd = "\<lambda>v c. c\<lparr>hc_mock_mode := v\<rparr>", simplified]
  env_set_Inr [where get = hc_artifact_store_directory
    and upd = "\<lambda>v c. c\<lparr>hc_artifact_store_directory := v\<rparr>", simplified]
  env_set_Inr [where get = hc_max_stdin_artifacts_stored
    and upd = "\<lambda>v c. c\<lparr>hc_max_stdin_artifacts_stored := v\<rparr>", simplified]
  env_set_Inr [where get = hc_max_proof_artifacts_stored
    and upd = "\<lambda>v c. c\<lparr>hc_max_proof_artifacts_stored := v\<rparr>", simplified]
  env_set_Inr [where get = "\<lambda>c. max_worker_strikes (hc_worker_registry c)"
    and upd = "\<lambda>v c. c\<lparr>hc_worker_registry := (hc_worker_registry c)\<lparr>max_worker_strikes := v\<rparr>\<rparr>", simplified]
  env_set_Inr [where get = "\<lambda>c. max_worker_heartbeat_interval_secs (hc_worker_registry c)"
    and upd = "\<lambda>v c. c\<lparr>hc_worker_registry := (hc_worker_registry c)\<lparr>max_worker_heartbeat_interval_secs := v\<rparr>\<rparr>", simplified]
  env_set_Inr [where get = "\<lambda>c. proof_timeout_mins (hc_worker_registry c)"
    and upd = "\<lambda>v c. c\<lparr>hc_worker_registry := (hc_worker_registry c)\<lparr>proof_timeout_mins := v\<rparr>\<rparr>", simplified]
  env_set_Inr [where get = "\<lambda>c. worker_required_progress_interval_mins (hc_worker_registry c)"
    and upd = "\<lambda>v c. c\<lparr>hc_worker_registry := (hc_worker_registry c)\<lparr>worker_required_progress_interval_mins := v\<rparr>\<rparr>", simplified]
  env_set_Inr [where get = "\<lambda>c. worker_max_execution_report_mins (hc_worker_registry c)"
    and upd = "\<lambda>v c. c\<lparr>hc_worker_registry := (hc_worker_registry c)\<lparr>worker_max_execution_report_mins := v\<rparr>\<rparr>", simplified]

lemma hierophant_overrides_Inr:
  "run_overrides (hierophant_overrides parse_addr env) b = Inr c \<longleftrightarrow>
     hierophant_env_ok parse_addr env \<and> c = overridden parse_addr env b"
  unfolding hierophant_overrides_def run_overrides.simps sbind_Inr hierophant_env_ok_def hierophant_set_Inr
  by (auto simp: overridden_def Let_def)

definition in_file_registry :: "toml_table \<Rightarrow> worker_registry_config" where
  "in_file_registry u =
     \<lparr>max_worker_strikes = in_file u ''max_worker_strikes'' (toml_uint 64) 3,
      max_worker_heartbeat_interval_secs =
        in_file u ''max_worker_heartbeat_interval_secs'' deserialize_duration_from_secs (from_secs 600),
      proof_timeout_mins = in_file u ''proof_timeout_mins'' (toml_uint 64) 300,
      worker_required_progress_interval_mins = in_file u ''worker_required_progress_interval_mins'' (toml_uint 64) 0,
      worker_max_execution_report_mins = in_file u ''worker_max_execution_report_mins'' (toml_uint 64) 45,
      assignment_startup_grace_secs = in_file u ''assignment_startup_grace_secs'' (toml_uint 64) 90\<rparr>"

lemma registry_deserialize_Some:
  "worker_registry_deserialize u = Some w \<longleftrightarrow> registry_file_ok u \<and> w = in_file_registry u"
  by (auto simp: worker_registry_deserialize_def Let_def bind_eq_Some_conv toml_field_Some registry_file_ok_def
      in_file_registry_def default_worker_registry_config_def)

lemma in_file_registry_Nil: "in_file_registry [] = default_worker_registry_config"
  by (simp add: in_file_registry_def in_file_def default_worker_registry_config_def)

lemma registry_field_Some:
  "toml_field t ''worker_registry'' worker_registry_value default_worker_registry_config = Some w \<longleftrightarrow>
     (case map_of t ''worker_registry'' of
        None \<Rightarrow> True | Some (Toml_Table u) \<Rightarrow> registry_file_ok u | Some _ \<Rightarrow> False) \<and>
     w = in_file_registry (registry_table t)"
  by (auto simp: toml_field_def worker_registry_value_def registry_table_def registry_deserialize_Some
      in_file_registry_Nil split: option.splits toml_value.splits)

text \<open>The configuration of a file, and of no file, is that of its table.\<close>

lemma deserialize_overridden:
  "(\<exists>b. hierophant_config_deserialize de_addr addr0 t = Some b \<and> c = overridden parse_addr env b) \<longleftrightarrow>
   hierophant_file_ok de_addr t \<and> c = configured parse_addr de_addr addr0 env t"
proof -
  have ip: "Option.bind (map_of t ''this_hierophant_ip'') toml_str = Some ip \<longleftrightarrow>
      (\<exists>x. map_of t ''this_hierophant_ip'' = Some (Toml_Str x)) \<and> ip = in_file t ''this_hierophant_ip'' toml_str []" for ip
    by (auto simp: bind_eq_Some_conv toml_str_Some in_file_def) (simp_all add: toml_str_def)
  have registry: "toml_field t ''worker_registry'' worker_registry_value (hc_worker_registry (hierophant_config_default addr0)) =
      Some w \<longleftrightarrow> (case map_of t ''worker_registry'' of
        None \<Rightarrow> True | Some (Toml_Table u) \<Rightarrow> registry_file_ok u | Some _ \<Rightarrow> False) \<and>
      w = in_file_registry (registry_table t)" for w
    using registry_field_Some [of t w] by (simp add: hierophant_config_default_def)
  show ?thesis
    unfolding hierophant_config_deserialize_def Let_def bind_eq_Some_conv [of "toml_field _ _ _ _"]
      bind_eq_Some_conv [of "Option.bind _ _"] ip
    unfolding registry
    unfolding toml_field_Some hierophant_config_default_def hierophant_file_ok_def
    by (auto simp: configured_def overridden_def in_file_registry_def Let_def)
qed

lemma defaults_overridden:
  "overridden parse_addr env (hierophant_config_default addr0) = configured parse_addr de_addr addr0 env []"
  by (simp add: overridden_def configured_def hierophant_config_default_def in_file_def registry_table_def
      default_worker_registry_config_def Let_def)

text \<open>C29. Loading the hierophant's configuration succeeds exactly when the file, if there is one, can be read and
  parsed, names an address and has only fields of their type and range, every environment variable that is set
  parses, and the address is not empty; each field of the result is then that of its variable when it is set, of the
  file when the variable is not set and the file has the field, and the built-in default otherwise.\<close>

theorem hierophant_config_exact:
  fixes c :: "'a hierophant_config"
  shows "hierophant_config_load parse_addr de_addr addr0 toml f env = Inr c \<longleftrightarrow>
     (\<exists>t. (f = FileMissing \<and> t = [] \<or>
           (\<exists>x. f = FileText x \<and> toml x = Some t \<and> hierophant_file_ok de_addr t)) \<and>
        hierophant_env_ok parse_addr env \<and> c = configured parse_addr de_addr addr0 env t \<and>
        hc_this_hierophant_ip c \<noteq> [])"
proof (cases f)
  case FileMissing
  then show ?thesis
    unfolding hierophant_config_load_def sbind_Inr hierophant_overrides_Inr load_base_def
    by (auto simp: defaults_overridden [where de_addr = de_addr])
next
  case FileUnreadable
  then show ?thesis by (simp add: hierophant_config_load_def load_base_def)
next
  case (FileText x)
  have load: "load_base (\<lambda>x. Option.bind (toml x) D) f d = Inr b \<longleftrightarrow> (\<exists>t. toml x = Some t \<and> D t = Some b)"
    for D d and b :: "'a hierophant_config"
    by (auto simp: FileText load_base_def bind_eq_Some_conv split: option.splits)
  have last: "(if P then Inl e else Inr y) = Inr c \<longleftrightarrow> \<not> P \<and> y = c" for P e and y :: "'a hierophant_config"
    by simp
  have "hierophant_config_load parse_addr de_addr addr0 toml f env = Inr c \<longleftrightarrow>
      (\<exists>t b. toml x = Some t \<and> hierophant_config_deserialize de_addr addr0 t = Some b \<and>
         hierophant_env_ok parse_addr env \<and> c = overridden parse_addr env b \<and> hc_this_hierophant_ip c \<noteq> [])"
    unfolding hierophant_config_load_def sbind_Inr hierophant_overrides_Inr load last by blast
  also have "\<dots> \<longleftrightarrow> (\<exists>t. toml x = Some t \<and>
         (\<exists>b. hierophant_config_deserialize de_addr addr0 t = Some b \<and> c = overridden parse_addr env b) \<and>
         hierophant_env_ok parse_addr env \<and> hc_this_hierophant_ip c \<noteq> [])"
    by blast
  finally show ?thesis unfolding deserialize_overridden by (auto simp: FileText)
qed

end
