(* ===== verification/Actor.thy ===== *)
theory Actor
  imports Main
begin

text \<open>
  The actor pattern of the sources: a task owns its state and handles the commands of one
  \<^verbatim>\<open>mpsc\<close> channel in sequence (\<^verbatim>\<open>while let Some(command) = receiver.recv().await\<close>). The state of
  an actor after any sequence of commands is a reachable state of \<open>step\<close>; each command runs in an
  environment related to the previous one by \<open>nxt\<close>.
\<close>

inductive reach ::
    "('e \<Rightarrow> 'c \<Rightarrow> 's \<Rightarrow> 's) \<Rightarrow> ('e \<Rightarrow> 'e \<Rightarrow> 'c \<Rightarrow> bool) \<Rightarrow> ('e \<Rightarrow> 's \<Rightarrow> bool) \<Rightarrow> 'e \<Rightarrow> 's \<Rightarrow> bool"
  for step nxt start where
  reach_start: "start e s \<Longrightarrow> reach step nxt start e s"
| reach_step: "reach step nxt start e s \<Longrightarrow> nxt e e' c \<Longrightarrow> reach step nxt start e' (step e' c s)"

text \<open>The loop itself, on the commands it receives before its channel closes.\<close>

fun event_loop :: "('e \<Rightarrow> 'c \<Rightarrow> 's \<Rightarrow> 's) \<Rightarrow> ('e \<times> 'c) list \<Rightarrow> 's \<Rightarrow> 's" where
  "event_loop step [] s = s"
| "event_loop step ((e, c) # cs) s = event_loop step cs (step e c s)"

text \<open>Successive environments of a command sequence are related.\<close>

fun env_chain :: "('e \<Rightarrow> 'e \<Rightarrow> 'c \<Rightarrow> bool) \<Rightarrow> 'e \<Rightarrow> ('e \<times> 'c) list \<Rightarrow> bool" where
  "env_chain nxt e [] = True"
| "env_chain nxt e ((e', c) # cs) = (nxt e e' c \<and> env_chain nxt e' cs)"

lemma reach_event_loop:
  "reach step nxt start e s \<Longrightarrow> env_chain nxt e cs \<Longrightarrow>
   \<exists>e'. reach step nxt start e' (event_loop step cs s)"
  by (induction cs arbitrary: e s rule: list.induct) (auto, meson reach_step)

text \<open>
  The contract of an inductive invariant: it holds at the start and every command keeps it.
\<close>

locale actor_invariant =
  fixes step :: "'e \<Rightarrow> 'c \<Rightarrow> 's \<Rightarrow> 's"
    and nxt :: "'e \<Rightarrow> 'e \<Rightarrow> 'c \<Rightarrow> bool"
    and start :: "'e \<Rightarrow> 's \<Rightarrow> bool"
    and inv :: "'e \<Rightarrow> 's \<Rightarrow> bool"
  assumes inv_start: "start e s \<Longrightarrow> inv e s"
    and inv_step: "inv e s \<Longrightarrow> nxt e e' c \<Longrightarrow> inv e' (step e' c s)"
begin

lemma reach_inv: "reach step nxt start e s \<Longrightarrow> inv e s"
  by (induction rule: reach.induct) (auto intro: inv_start inv_step)

lemma event_loop_inv:
  "inv e s \<Longrightarrow> env_chain nxt e cs \<Longrightarrow> \<exists>e'. inv e' (event_loop step cs s)"
  by (induction cs arbitrary: e s rule: list.induct) (auto, meson inv_step)

end

end
