(* ===== verification/Ring.thy ===== *)
theory Ring
  imports Main
begin

text \<open>
  The bounded stores of the program keep their keys in a fixed vector that is overwritten in a
  circle: an insertion takes the slot at the current index, evicts what was there, and advances the
  index modulo the capacity. \<open>ring_cache\<close> is that contract, and what it gives: an entry survives
  the next \<open>capacity - 1\<close> insertions.
\<close>

locale ring_cache =
  fixes slots :: "'s \<Rightarrow> 'k list"
    and pos :: "'s \<Rightarrow> nat"
    and look :: "'s \<Rightarrow> 'k \<Rightarrow> 'v option"
    and put :: "'k \<Rightarrow> 'v \<Rightarrow> 's \<Rightarrow> 's"
    and adm :: "'s \<Rightarrow> 'k \<Rightarrow> bool"
    and ok :: "'s \<Rightarrow> bool"
  assumes pos_bound: "ok s \<Longrightarrow> pos s < length (slots s)"
    and absent: "ok s \<Longrightarrow> adm s k \<Longrightarrow> look s k = None \<Longrightarrow> k \<notin> set (slots s)"
    and put_ok: "ok s \<Longrightarrow> adm s k \<Longrightarrow> look s k = None \<Longrightarrow> ok (put k v s)"
    and put_adm: "ok s \<Longrightarrow> adm s k \<Longrightarrow> look s k = None \<Longrightarrow> adm s j \<Longrightarrow> adm (put k v s) j"
    and put_slots: "ok s \<Longrightarrow> adm s k \<Longrightarrow> look s k = None \<Longrightarrow> slots (put k v s) = (slots s)[pos s := k]"
    and put_pos: "ok s \<Longrightarrow> adm s k \<Longrightarrow> look s k = None \<Longrightarrow>
      pos (put k v s) = (pos s + 1) mod length (slots s)"
    and put_get: "ok s \<Longrightarrow> adm s k \<Longrightarrow> look s k = None \<Longrightarrow> look (put k v s) k = Some v"
    and put_other: "ok s \<Longrightarrow> adm s k \<Longrightarrow> look s k = None \<Longrightarrow> adm s j \<Longrightarrow> j \<noteq> k \<Longrightarrow>
      j \<noteq> slots s ! pos s \<Longrightarrow> look (put k v s) j = look s j"
    and put_absent: "ok s \<Longrightarrow> adm s k \<Longrightarrow> look s k = None \<Longrightarrow> adm s j \<Longrightarrow> j \<noteq> k \<Longrightarrow>
      look s j = None \<Longrightarrow> look (put k v s) j = None"
begin

text \<open>Insertion of several new keys in turn.\<close>

definition puts :: "('k \<times> 'v) list \<Rightarrow> 's \<Rightarrow> 's" where
  "puts kvs s = fold (\<lambda>(k, v). put k v) kvs s"

definition fresh_keys :: "('k \<times> 'v) list \<Rightarrow> 's \<Rightarrow> bool" where
  "fresh_keys kvs s \<longleftrightarrow> distinct (map fst kvs) \<and> (\<forall>(k, v) \<in> set kvs. adm s k \<and> look s k = None)"

lemma fresh_keys_put:
  assumes "ok s" "fresh_keys ((k, v) # kvs) s"
  shows "fresh_keys kvs (put k v s)"
proof -
  have k: "adm s k" "look s k = None" and d: "distinct (map fst kvs)" "k \<notin> fst ` set kvs"
    and o: "\<And>j u. (j, u) \<in> set kvs \<Longrightarrow> adm s j \<and> look s j = None"
    using assms(2) by (auto simp: fresh_keys_def)
  have "adm (put k v s) j \<and> look (put k v s) j = None" if "(j, u) \<in> set kvs" for j u
  proof -
    have "j \<noteq> k" using that d(2) by force
    then show ?thesis
      using put_absent [OF assms(1) k] put_adm [OF assms(1) k] o [OF that] by blast
  qed
  then show ?thesis using d(1) unfolding fresh_keys_def by blast
qed

text \<open>
  A key in slot \<open>i\<close>, and in no other slot, keeps its value until the index comes round to \<open>i\<close>.
\<close>

definition distance :: "'s \<Rightarrow> nat \<Rightarrow> nat" where
  "distance s i = (i + length (slots s) - pos s) mod length (slots s)"

lemma kept:
  assumes "ok s" "fresh_keys kvs s" "adm s k" "look s k = Some v"
    and "i < length (slots s)" "\<And>j. j < length (slots s) \<Longrightarrow> slots s ! j = k \<longleftrightarrow> j = i"
    and "length kvs \<le> distance s i"
  shows "look (puts kvs s) k = Some v"
  using assms
proof (induction kvs arbitrary: s)
  case Nil
  then show ?case by (simp add: puts_def)
next
  case (Cons p kvs)
  obtain k' v' where p: "p = (k', v')" by (cases p)
  let ?s = "put k' v' s" and ?n = "length (slots s)"
  have new: "adm s k'" "look s k' = None" using Cons.prems(2) by (auto simp: fresh_keys_def p)
  note law = Cons.prems(1) new
  have ne: "k' \<noteq> k" using new Cons.prems(4) by auto
  have pos: "pos s < ?n" by (rule pos_bound [OF Cons.prems(1)])
  have away: "pos s \<noteq> i" using Cons.prems(7) by (auto simp: distance_def)
  have slots': "slots ?s = (slots s)[pos s := k']" by (rule put_slots [OF law])
  have dist: "length kvs \<le> distance ?s i"
  proof -
    have "distance ?s i = distance s i - 1"
    proof (cases "pos s + 1 = ?n")
      case True
      then have "(i + ?n - pos s) mod ?n = (i + 1) mod ?n" by (metis Nat.add_diff_assoc add_diff_cancel_left' pos less_imp_le)
      moreover have "i + 1 < ?n" using Cons.prems(5) True away by simp
      ultimately show ?thesis using True by (simp add: distance_def slots' put_pos [OF law])
    next
      case False
      then have "(pos s + 1) mod ?n = pos s + 1" using pos by simp
      moreover have "(i + ?n - (pos s + 1)) mod ?n = (i + ?n - pos s) mod ?n - 1"
      proof (cases "i > pos s")
        case True
        then have "(i + ?n - pos s) mod ?n = i - pos s" "(i + ?n - (pos s + 1)) mod ?n = i - (pos s + 1)"
          using Cons.prems(5) by (simp_all add: mod_if)
        then show ?thesis by simp
      next
        case False
        with away have "i < pos s" by simp
        then show ?thesis using pos by simp
      qed
      ultimately show ?thesis by (simp add: distance_def slots' put_pos [OF law])
    qed
    then show ?thesis using Cons.prems(7) by simp
  qed
  have "look (puts kvs ?s) k = Some v"
  proof (rule Cons.IH)
    show "ok ?s" by (rule put_ok [OF law])
    show "fresh_keys kvs ?s" using fresh_keys_put [OF Cons.prems(1)] Cons.prems(2) by (simp add: p)
    show "adm ?s k" by (rule put_adm [OF law Cons.prems(3)])
    show "look ?s k = Some v"
      using put_other [OF law Cons.prems(3)] ne Cons.prems(4) Cons.prems(6) [OF pos] away by simp
    show "i < length (slots ?s)" using Cons.prems(5) by (simp add: slots')
    show "slots ?s ! j = k \<longleftrightarrow> j = i" if "j < length (slots ?s)" for j
      using that Cons.prems(6) [of j] away ne by (cases "j = pos s") (auto simp: slots')
    show "length kvs \<le> distance ?s i" by (rule dist)
  qed
  then show ?case by (simp add: puts_def p)
qed

text \<open>The last \<open>capacity\<close> insertions are all retrievable.\<close>

lemma retained:
  assumes "ok s" "adm s k" "look s k = None" "fresh_keys ((k, v) # kvs) s"
    and "length kvs < length (slots s)"
  shows "look (puts kvs (put k v s)) k = Some v"
proof (rule kept)
  let ?n = "length (slots s)"
  note law = assms(1-3)
  have pos: "pos s < ?n" by (rule pos_bound [OF assms(1)])
  have slots': "slots (put k v s) = (slots s)[pos s := k]" by (rule put_slots [OF law])
  show "ok (put k v s)" by (rule put_ok [OF law])
  show "fresh_keys kvs (put k v s)" by (rule fresh_keys_put [OF assms(1,4)])
  show "adm (put k v s) k" by (rule put_adm [OF law assms(2)])
  show "look (put k v s) k = Some v" by (rule put_get [OF law])
  show "pos s < length (slots (put k v s))" using pos by (simp add: slots')
  show "slots (put k v s) ! j = k \<longleftrightarrow> j = pos s" if "j < length (slots (put k v s))" for j
    using that absent [OF law] by (cases "j = pos s") (auto simp: slots' in_set_conv_nth)
  have "distance (put k v s) (pos s) = ?n - 1"
  proof (cases "pos s + 1 = ?n")
    case True
    then show ?thesis by (simp add: distance_def slots' put_pos [OF law])
  next
    case False
    then have "(pos s + 1) mod ?n = pos s + 1" using pos by simp
    then show ?thesis using pos by (simp add: distance_def slots' put_pos [OF law])
  qed
  then show "length kvs \<le> distance (put k v s) (pos s)" using assms(5) by simp
qed

end

end
