(* ===== verification/Proof_Store.thy ===== *)
theory Proof_Store
  imports Proof_Status Actor Ring
begin

text \<open>
  The contemplant's proof store (\<^verbatim>\<open>contemplant/src/proof_store\<close>): the actor that keeps the statuses
  of the last \<open>max_proofs_stored\<close> requests in a ring. Replies are appended to \<open>ps_sent\<close>; a panic is
  the value \<open>None\<close>.
\<close>

record proof_store =
  ps_max :: nat
  ps_proofs :: "(b256 \<times> contemplant_proof_status) list"
  ps_index :: nat
  ps_sent :: "(nat \<times> contemplant_proof_status option) list"

datatype proof_store_command =
    GetProofStatus b256 nat
  | ProofProgressUpdate b256 progress_update
  | ProofStatusUpdate b256 i32 "bytes option"
  | InsertProof b256 contemplant_proof_status

fun proof_store_command_name :: "proof_store_command \<Rightarrow> string" where
  "proof_store_command_name (GetProofStatus _ _) = ''GetProofStatus''"
| "proof_store_command_name (ProofProgressUpdate _ _) = ''ProofProgressUpdate''"
| "proof_store_command_name (ProofStatusUpdate _ _ _) = ''ProofStatusUpdate''"
| "proof_store_command_name (InsertProof _ _) = ''InsertProof''"

text \<open>\<^verbatim>\<open>ProofStoreClient::new\<close>: a store of no slots is refused with a panic.\<close>

definition proof_store_new :: "nat \<Rightarrow> proof_store option" where
  "proof_store_new max_proofs =
     (if max_proofs < 1 then None
      else Some \<lparr>ps_max = max_proofs, ps_proofs = replicate max_proofs (0, cps_default),
                 ps_index = 0, ps_sent = []\<rparr>)"

text \<open>\<^verbatim>\<open>iter_mut().find(..)\<close> on the request id, with the update of the entry found.\<close>

fun mod_first :: "b256 \<Rightarrow> ('v \<Rightarrow> 'v) \<Rightarrow> (b256 \<times> 'v) list \<Rightarrow> (b256 \<times> 'v) list" where
  "mod_first k f [] = []"
| "mod_first k f ((a, v) # xs) = (if a = k then (a, f v) # xs else (a, v) # mod_first k f xs)"

definition ps_get :: "proof_store \<Rightarrow> b256 \<Rightarrow> contemplant_proof_status option" where
  "ps_get s rid = map_option snd (List.find (\<lambda>(a, _). a = rid) (ps_proofs s))"

definition ps_progress_update :: "b256 \<Rightarrow> progress_update \<Rightarrow> proof_store \<Rightarrow> proof_store" where
  "ps_progress_update rid u s =
     s\<lparr>ps_proofs := mod_first rid (cps_update_progress (Some u)) (ps_proofs s)\<rparr>"

definition set_status :: "i32 \<Rightarrow> bytes option \<Rightarrow> contemplant_proof_status \<Rightarrow> contemplant_proof_status" where
  "set_status ex pr st =
     (let st1 = (if pr \<noteq> None then st\<lparr>cps_progress := Some Done\<rparr> else st)
      in st1\<lparr>cps_execution_status := ex, cps_proof := pr\<rparr>)"

definition ps_status_update :: "b256 \<Rightarrow> i32 \<Rightarrow> bytes option \<Rightarrow> proof_store \<Rightarrow> proof_store" where
  "ps_status_update rid ex pr s = s\<lparr>ps_proofs := mod_first rid (set_status ex pr) (ps_proofs s)\<rparr>"

definition increment_current_proof_index :: "proof_store \<Rightarrow> proof_store option" where
  "increment_current_proof_index s =
     (if ps_max s = 0 then None else Some (s\<lparr>ps_index := (ps_index s + 1) mod ps_max s\<rparr>))"

definition ps_insert :: "b256 \<Rightarrow> contemplant_proof_status \<Rightarrow> proof_store \<Rightarrow> proof_store option" where
  "ps_insert rid st s =
     (if ps_get s rid \<noteq> None then Some (s\<lparr>ps_proofs := mod_first rid (\<lambda>_. st) (ps_proofs s)\<rparr>)
      else if ps_index s < length (ps_proofs s)
      then increment_current_proof_index (s\<lparr>ps_proofs := (ps_proofs s)[ps_index s := (rid, st)]\<rparr>)
      else None)"

fun proof_store_handle :: "proof_store_command \<Rightarrow> proof_store \<Rightarrow> proof_store option" where
  "proof_store_handle (GetProofStatus rid resp) s = Some (s\<lparr>ps_sent := ps_sent s @ [(resp, ps_get s rid)]\<rparr>)"
| "proof_store_handle (ProofProgressUpdate rid u) s = Some (ps_progress_update rid u s)"
| "proof_store_handle (ProofStatusUpdate rid ex pr) s = Some (ps_status_update rid ex pr s)"
| "proof_store_handle (InsertProof rid st) s = ps_insert rid st s"

definition proof_store_step :: "unit \<Rightarrow> proof_store_command \<Rightarrow> proof_store option \<Rightarrow> proof_store option" where
  "proof_store_step _ c s = Option.bind s (proof_store_handle c)"

section \<open>Entries\<close>

lemma mod_first_keys [simp]: "map fst (mod_first k f xs) = map fst xs"
  by (induction k f xs rule: mod_first.induct) auto

lemma length_mod_first [simp]: "length (mod_first k f xs) = length xs"
  by (metis length_map mod_first_keys)

lemma find_mod_first:
  "List.find (\<lambda>(a, _). a = j) (mod_first k f xs) =
     map_option (\<lambda>(a, v). (a, if a = k then f v else v)) (List.find (\<lambda>(a, _). a = j) xs)"
proof (induction k f xs rule: mod_first.induct)
  case (2 k f a v xs)
  then show ?case
    by (cases "List.find (\<lambda>(a, _). a = j) xs") (auto dest: find_SomeD)
qed simp

lemma ps_get_mod_first:
  "ps_get (s\<lparr>ps_proofs := mod_first k f (ps_proofs s)\<rparr>) j =
     (if j = k then map_option f (ps_get s j) else ps_get s j)"
  by (cases "List.find (\<lambda>(a, _). a = j) (ps_proofs s)")
    (auto simp: ps_get_def find_mod_first dest: find_SomeD)

lemma in_mod_first: "(a, v) \<in> set (mod_first k f xs) \<Longrightarrow> (a, v) \<in> set xs \<or> (\<exists>u. (a, u) \<in> set xs \<and> v = f u)"
  by (induction k f xs rule: mod_first.induct) (auto split: if_splits)

lemma ps_get_None: "ps_get s rid = None \<longleftrightarrow> rid \<notin> fst ` set (ps_proofs s)"
  by (force simp: ps_get_def find_None_iff_ball)

lemma find_list_update_other:
  assumes "i < length xs" "fst (xs ! i) \<noteq> j" "k \<noteq> j"
  shows "List.find (\<lambda>(a, _). a = j) (xs[i := (k, v)]) = List.find (\<lambda>(a, _). a = j) xs"
  using assms
proof (induction xs arbitrary: i)
  case (Cons x xs)
  then show ?case by (cases i; cases x) auto
qed simp

lemma find_list_update_same:
  assumes "i < length xs" "k \<notin> fst ` set xs"
  shows "List.find (\<lambda>(a, _). a = k) (xs[i := (k, v)]) = Some (k, v)"
  using assms
proof (induction xs arbitrary: i)
  case (Cons x xs)
  then show ?case by (cases i; cases x) auto
qed simp

section \<open>Invariant\<close>

definition ps_ok :: "proof_store \<Rightarrow> bool" where
  "ps_ok s \<longleftrightarrow> length (ps_proofs s) = ps_max s \<and> ps_index s < ps_max s"

text \<open>Insertion of a request the store does not hold, which cannot panic.\<close>

definition ps_put :: "b256 \<Rightarrow> contemplant_proof_status \<Rightarrow> proof_store \<Rightarrow> proof_store" where
  "ps_put rid st s = the (ps_insert rid st s)"

lemma ps_insert_new:
  assumes "ps_ok s" "ps_get s rid = None"
  shows "ps_insert rid st s = Some (s\<lparr>ps_proofs := (ps_proofs s)[ps_index s := (rid, st)],
           ps_index := (ps_index s + 1) mod ps_max s\<rparr>)"
  using assms by (simp add: ps_insert_def ps_ok_def increment_current_proof_index_def)

interpretation store_ring: ring_cache "\<lambda>s. map fst (ps_proofs s)" ps_index ps_get ps_put "\<lambda>_ _. True" ps_ok
proof
  fix s k v
  assume s: "ps_ok s" "ps_get s k = None"
  note ins = ps_insert_new [OF s]
  have b: "ps_index s < length (ps_proofs s)" "length (ps_proofs s) = ps_max s"
    using s(1) by (auto simp: ps_ok_def)
  have k: "k \<notin> fst ` set (ps_proofs s)" using s(2) by (simp add: ps_get_None)
  then show "k \<notin> set (map fst (ps_proofs s))" by simp
  show "ps_ok (ps_put k v s)" using s(1) by (simp add: ps_put_def ins ps_ok_def)
  show "map fst (ps_proofs (ps_put k v s)) = (map fst (ps_proofs s))[ps_index s := k]"
    by (simp add: ps_put_def ins map_update)
  show "ps_index (ps_put k v s) = (ps_index s + 1) mod length (map fst (ps_proofs s))"
    using b by (simp add: ps_put_def ins)
  show "ps_get (ps_put k v s) k = Some v"
    using find_list_update_same [OF b(1) k] by (simp add: ps_put_def ins ps_get_def)
  show "ps_get (ps_put k v s) j = ps_get s j"
    if "j \<noteq> k" "j \<noteq> map fst (ps_proofs s) ! ps_index s" for j
    using find_list_update_other [OF b(1), of j k] that b(1) by (simp add: ps_put_def ins ps_get_def)
  show "ps_get (ps_put k v s) j = None" if "j \<noteq> k" "ps_get s j = None" for j
  proof -
    have "map fst (ps_proofs s) ! ps_index s \<noteq> j"
      using that(2) b(1) by (auto simp: ps_get_None)
    then show ?thesis
      using find_list_update_other [OF b(1), of j k] that b(1) by (simp add: ps_put_def ins ps_get_def)
  qed
qed (simp_all add: ps_ok_def)

text \<open>Status updates that report execution carry the proof, as the executors send them.\<close>

fun proof_store_command_ok :: "proof_store_command \<Rightarrow> bool" where
  "proof_store_command_ok (ProofStatusUpdate _ ex pr) = (ex = execution_status_i32 Executed \<longrightarrow> pr \<noteq> None)"
| "proof_store_command_ok (InsertProof _ st) = cps_ok st"
| "proof_store_command_ok _ = True"

definition proof_store_next :: "unit \<Rightarrow> unit \<Rightarrow> proof_store_command \<Rightarrow> bool" where
  "proof_store_next e e' c \<longleftrightarrow> proof_store_command_ok c"

definition proof_store_start :: "nat \<Rightarrow> unit \<Rightarrow> proof_store option \<Rightarrow> bool" where
  "proof_store_start n e s \<longleftrightarrow> 0 < n \<and> s = proof_store_new n"

definition proof_store_inv :: "nat \<Rightarrow> unit \<Rightarrow> proof_store option \<Rightarrow> bool" where
  "proof_store_inv n e s \<longleftrightarrow> (\<exists>st. s = Some st \<and> ps_ok st \<and> ps_max st = n \<and>
     (\<forall>(rid, c) \<in> set (ps_proofs st). cps_ok c) \<and>
     (\<forall>(resp, r) \<in> set (ps_sent st). \<forall>c. r = Some c \<longrightarrow> cps_ok c))"

lemma ps_get_SomeD: "ps_get s rid = Some c \<Longrightarrow> (rid, c) \<in> set (ps_proofs s)"
  by (auto simp: ps_get_def dest: find_SomeD)

lemma mod_first_ok:
  assumes "\<forall>(rid, c) \<in> set xs. cps_ok c" "\<And>c. cps_ok c \<Longrightarrow> cps_ok (f c)"
  shows "\<forall>(rid, c) \<in> set (mod_first k f xs). cps_ok c"
  using assms in_mod_first by fast

lemma proof_store_inv_handle:
  assumes "proof_store_inv n e (Some s)" "proof_store_command_ok c"
  shows "proof_store_inv n e (proof_store_handle c s)"
proof -
  have s: "ps_ok s" "ps_max s = n" and p: "\<forall>(rid, c) \<in> set (ps_proofs s). cps_ok c"
    and r: "\<forall>(resp, r) \<in> set (ps_sent s). \<forall>c. r = Some c \<longrightarrow> cps_ok c"
    using assms(1) by (auto simp: proof_store_inv_def)
  show ?thesis
  proof (cases c)
    case (GetProofStatus rid resp)
    then show ?thesis using s p r by (auto simp: proof_store_inv_def ps_ok_def dest: ps_get_SomeD)
  next
    case (ProofProgressUpdate rid u)
    then show ?thesis
      using s r mod_first_ok [OF p, of "cps_update_progress (Some u)" rid]
      by (simp add: proof_store_inv_def ps_progress_update_def ps_ok_def)
  next
    case (ProofStatusUpdate rid ex pr)
    then have "cps_ok (set_status ex pr d)" for d using assms(2) by (auto simp: set_status_def cps_ok_def)
    then show ?thesis
      using ProofStatusUpdate s r mod_first_ok [OF p, of "set_status ex pr" rid]
      by (simp add: proof_store_inv_def ps_status_update_def ps_ok_def)
  next
    case (InsertProof rid st)
    have st: "cps_ok st" using assms(2) InsertProof by simp
    show ?thesis
    proof (cases "ps_get s rid = None")
      case True
      have "\<forall>(rid, c) \<in> set ((ps_proofs s)[ps_index s := (rid, st)]). cps_ok c"
        using p st set_update_subset_insert [of "ps_proofs s"] by fast
      then show ?thesis
        using s r InsertProof by (simp add: ps_insert_new [OF s(1) True] proof_store_inv_def ps_ok_def)
    next
      case False
      then show ?thesis
        using s r InsertProof mod_first_ok [OF p, of "\<lambda>_. st" rid] st
        by (simp add: ps_insert_def proof_store_inv_def ps_ok_def)
    qed
  qed
qed

interpretation proof_store: actor_invariant proof_store_step proof_store_next "proof_store_start n" "proof_store_inv n"
  for n
proof
  show "proof_store_inv n e s" if "proof_store_start n e s" for e s
    using that by (auto simp: proof_store_start_def proof_store_new_def proof_store_inv_def ps_ok_def)
  show "proof_store_inv n e' (proof_store_step e' c s)"
    if "proof_store_inv n e s" "proof_store_next e e' c" for e e' c s
  proof -
    from that(1) obtain st where st: "s = Some st" by (auto simp: proof_store_inv_def)
    then have "proof_store_inv n e' (Some st)" using that(1) by (simp add: proof_store_inv_def)
    then show ?thesis
      using proof_store_inv_handle that(2) by (simp add: st proof_store_step_def proof_store_next_def)
  qed
qed

section \<open>Properties\<close>

lemma replicate_2: "replicate 2 x = [x, x]"
  by (simp add: numeral_2_eq_2)

text \<open>The statuses of the last \<open>max_proofs_stored\<close> distinct requests inserted can be fetched: an
  inserted status is returned until that many further new requests have been inserted.\<close>

theorem inserted_status_retained:
  assumes "ps_ok s" "distinct (rid # map fst later)"
    and "\<forall>k \<in> set (rid # map fst later). ps_get s k = None"
    and "length later < ps_max s"
  shows "ps_get (fold (\<lambda>(k, st). ps_put k st) later (ps_put rid c s)) rid = Some c"
proof -
  have "store_ring.fresh_keys ((rid, c) # later) s"
    using assms(2,3) by (auto simp: store_ring.fresh_keys_def)
  from store_ring.retained [OF assms(1) _ _ this] assms(1,3,4) show ?thesis
    by (simp add: store_ring.puts_def ps_ok_def)
qed

theorem inserted_status_retained_witness:
  "ps_get (ps_put 8 cps_default (ps_put 7 cps_unexecuted (the (proof_store_new 2)))) 7 = Some cps_unexecuted"
  using inserted_status_retained [of "the (proof_store_new 2)" 7 "[(8, cps_default)]" cps_unexecuted]
  by (simp add: proof_store_new_def ps_ok_def ps_get_def replicate_2)

text \<open>Whatever commands the store handles, it does not panic, and every status it replies with
  converts to a client status without panicking: an executed status always carries its proof.\<close>

theorem replied_status_converts:
  assumes "reach proof_store_step proof_store_next (proof_store_start n) e s"
  shows "\<exists>st. s = Some st \<and> (\<forall>(resp, r) \<in> set (ps_sent st). \<forall>c. r = Some c \<longrightarrow> status_from c \<noteq> None)"
  using proof_store.reach_inv [OF assms]
  by (auto simp: proof_store_inv_def status_from_panics_iff cps_ok_def)

theorem replied_status_converts_witness:
  "\<exists>st. proof_store_step () (GetProofStatus 7 0)
     (proof_store_step () (ProofStatusUpdate 7 (execution_status_i32 Executed) (Some [1]))
       (proof_store_step () (InsertProof 7 cps_unexecuted) (proof_store_new 2))) = Some st"
proof -
  have "reach proof_store_step proof_store_next (proof_store_start 2) () (proof_store_new 2)"
    by (rule reach_start) (simp add: proof_store_start_def)
  note r1 = reach_step [OF this, of "()" "InsertProof 7 cps_unexecuted"]
  note r2 = reach_step [OF r1, of "()" "ProofStatusUpdate 7 (execution_status_i32 Executed) (Some [1])"]
  note r3 = reach_step [OF r2, of "()" "GetProofStatus 7 0"]
  from replied_status_converts [OF r3] show ?thesis by (auto simp: proof_store_next_def)
qed

text \<open>Neither a progress report nor a status update lowers the stored progress of any request,
  and completing a proof sets it to done.\<close>

theorem stored_progress_monotone:
  assumes "proof_store_handle c s = Some s'" "\<And>rid st. c \<noteq> InsertProof rid st" "ps_get s k = Some a"
  shows "\<exists>b. ps_get s' k = Some b \<and> cps_progress a \<le> cps_progress b \<and>
           (\<forall>ex p. c = ProofStatusUpdate k ex (Some p) \<longrightarrow>
              cps_progress b = Some Done \<and> cps_proof b = Some p \<and> cps_execution_status b = ex)"
proof (cases c)
  case (GetProofStatus rid resp)
  then show ?thesis using assms by (auto simp: ps_get_def)
next
  case (ProofProgressUpdate rid u)
  then show ?thesis
    using assms cps_update_progress_ub(1) by (auto simp: ps_progress_update_def ps_get_mod_first)
next
  case (ProofStatusUpdate rid ex pr)
  have "cps_progress d \<le> cps_progress (set_status ex pr d)" for d
    by (cases "cps_progress d") (auto simp: set_status_def Let_def progress_le_Done)
  moreover have "cps_progress (set_status ex (Some p) d) = Some Done" "cps_proof (set_status ex pr d) = pr"
    "cps_execution_status (set_status ex pr d) = ex" for p d
    by (simp_all add: set_status_def)
  ultimately show ?thesis
    using assms(1,3) ProofStatusUpdate by (auto simp: ps_status_update_def ps_get_mod_first)
next
  case (InsertProof rid st)
  then show ?thesis using assms(2) by blast
qed

theorem stored_progress_monotone_witness:
  "\<exists>b. ps_get (the (proof_store_handle (ProofStatusUpdate 7 (execution_status_i32 Executed) (Some [1]))
         (ps_put 7 cps_unexecuted (the (proof_store_new 2))))) 7 = Some b \<and> cps_progress b = Some Done"
proof -
  let ?s = "ps_put 7 cps_unexecuted (the (proof_store_new 2))"
  have g: "ps_get ?s 7 = Some cps_unexecuted"
    by (simp add: ps_put_def ps_insert_def ps_get_def proof_store_new_def
        increment_current_proof_index_def replicate_2)
  from stored_progress_monotone [of "ProofStatusUpdate 7 (execution_status_i32 Executed) (Some [1])" ?s _ 7, OF _ _ g]
  show ?thesis by auto
qed

section \<open>Refinement of a bounded queue\<close>

text \<open>
  What the store promises its clients: a queue of entries, oldest first. A new request enters at the end and the
  oldest entry leaves; other operations change the entry of one request in place.
\<close>

fun queue_step :: "proof_store_command \<Rightarrow> (b256, contemplant_proof_status) amap \<Rightarrow> (b256, contemplant_proof_status) amap" where
  "queue_step (GetProofStatus rid resp) q = q"
| "queue_step (ProofProgressUpdate rid u) q = amap_mod rid (cps_update_progress (Some u)) q"
| "queue_step (ProofStatusUpdate rid ex pr) q = amap_mod rid (set_status ex pr) q"
| "queue_step (InsertProof rid st) q =
     (if rid \<in> fst ` set q then amap_mod rid (\<lambda>_. st) q else tl q @ [(rid, st)])"

definition store_queue :: "proof_store \<Rightarrow> (b256, contemplant_proof_status) amap" where
  "store_queue s = rotate (ps_index s) (ps_proofs s)"

text \<open>Slots never used carry the id zero; all other ids are distinct.\<close>

definition slots_distinct :: "(b256, contemplant_proof_status) amap \<Rightarrow> bool" where
  "slots_distinct xs \<longleftrightarrow> distinct (filter (\<lambda>k. k \<noteq> 0) (map fst xs))"

fun command_id :: "proof_store_command \<Rightarrow> b256" where
  "command_id (GetProofStatus rid _) = rid"
| "command_id (ProofProgressUpdate rid _) = rid"
| "command_id (ProofStatusUpdate rid _ _) = rid"
| "command_id (InsertProof rid _) = rid"

lemma mod_first_amap_mod: "slots_distinct xs \<Longrightarrow> k \<noteq> 0 \<Longrightarrow> mod_first k f xs = amap_mod k f xs"
proof (induction k f xs rule: mod_first.induct)
  case (2 k f a v xs)
  have "amap_mod a f xs = xs" if "a \<noteq> 0"
  proof -
    have "a \<notin> fst ` set xs" using 2(2) that by (auto simp: slots_distinct_def)
    then show ?thesis by (induction xs) (auto simp: amap_mod_def)
  qed
  then show ?case using 2 by (cases "a = 0") (auto simp: slots_distinct_def amap_mod_def)
qed (simp add: amap_mod_def)

lemma slots_distinct_mod: "slots_distinct (amap_mod k f xs) = slots_distinct xs"
  by (simp add: slots_distinct_def)

lemma slots_distinct_update:
  "slots_distinct xs \<Longrightarrow> k \<notin> fst ` set xs \<Longrightarrow> slots_distinct (xs[i := (k, v)])"
proof (induction xs arbitrary: i)
  case (Cons x xs)
  have d: "distinct (filter (\<lambda>k. k \<noteq> 0) (map fst xs))" and x: "fst x \<noteq> 0 \<Longrightarrow> fst x \<notin> fst ` set xs" "fst x \<noteq> k"
    using Cons.prems by (auto simp: slots_distinct_def split: if_splits)
  have "fst x \<notin> fst ` set (xs[j := (k, v)])" if "fst x \<noteq> 0" for j
  proof
    assume "fst x \<in> fst ` set (xs[j := (k, v)])"
    then obtain y where "y \<in> set (xs[j := (k, v)])" "fst y = fst x" by auto
    then have "y = (k, v) \<or> y \<in> set xs" using set_update_subset_insert [of xs j "(k, v)"] by auto
    then show False using x that \<open>fst y = fst x\<close> by (metis fst_conv imageI)
  qed
  then show ?case
    using Cons d by (cases i) (auto simp: slots_distinct_def)
qed simp

lemma rotate_amap_mod: "rotate n (amap_mod k f xs) = amap_mod k f (rotate n xs)"
  by (simp add: amap_mod_def rotate_map)

lemma rotate_overwrite:
  assumes "i < length xs"
  shows "rotate (Suc i mod length xs) (xs[i := e]) = tl (rotate i xs) @ [e]"
proof -
  have xs: "xs = take i xs @ xs ! i # drop (Suc i) xs" using assms by (simp add: id_take_nth_drop)
  have old: "rotate i xs = xs ! i # drop (Suc i) xs @ take i xs"
    using assms by (simp add: rotate_drop_take Cons_nth_drop_Suc [symmetric])
  show ?thesis
  proof (cases "Suc i = length xs")
    case True
    then show ?thesis using old assms by (simp add: upd_conv_take_nth_drop)
  next
    case False
    then show ?thesis using old assms by (simp add: rotate_drop_take upd_conv_take_nth_drop)
  qed
qed

lemma find_map_of_slots: "map_option snd (List.find (\<lambda>(a, _). a = k) xs) = map_of xs k"
  by (induction xs) auto

lemma map_of_rotate_slots:
  assumes "slots_distinct xs" "k \<noteq> 0"
  shows "map_of (rotate n xs) k = map_of xs k"
proof -
  have nz: "map_of ys k = map_of (filter (\<lambda>e. fst e \<noteq> 0) ys) k" for ys :: "(b256, contemplant_proof_status) amap"
    using assms(2) by (induction ys) auto
  let ?nz = "filter (\<lambda>e. fst e \<noteq> 0)" and ?m = "n mod length xs"
  have d: "distinct (map fst (?nz xs))"
    using assms(1) by (simp add: slots_distinct_def filter_map comp_def)
  have "?nz xs = ?nz (take ?m xs) @ ?nz (drop ?m xs)" by (metis append_take_drop_id filter_append)
  then have "distinct (map fst (?nz (drop ?m xs) @ ?nz (take ?m xs)))" using d by auto
  then have "distinct (map fst (?nz (rotate n xs)))" by (simp add: rotate_drop_take)
  then have "map_of (?nz (rotate n xs)) = map_of (?nz xs)" using d by (subst map_of_inject_set) auto
  then show ?thesis using nz [of xs] nz [of "rotate n xs"] by simp
qed

text \<open>C30. The ring of the proof store implements the bounded queue: started with empty slots, every command on a
  request id other than zero changes the queue as the specification says, keeps the ring well formed, and a
  status request is answered with the queue's entry.\<close>

theorem proof_store_refines_queue:
  assumes "ps_ok s" "slots_distinct (ps_proofs s)" "command_id c \<noteq> 0"
  shows "\<exists>s'. proof_store_handle c s = Some s' \<and> ps_ok s' \<and> slots_distinct (ps_proofs s') \<and>
     store_queue s' = queue_step c (store_queue s) \<and>
     (\<forall>rid resp. c = GetProofStatus rid resp \<longrightarrow> ps_sent s' = ps_sent s @ [(resp, map_of (store_queue s) rid)])"
proof -
  note upd = mod_first_amap_mod [OF assms(2)] rotate_amap_mod slots_distinct_mod
  show ?thesis
  proof (cases c)
    case (GetProofStatus rid resp)
    then have "ps_get s rid = map_of (store_queue s) rid"
      using map_of_rotate_slots [OF assms(2), of rid "ps_index s"] assms(3)
      by (simp add: ps_get_def find_map_of_slots store_queue_def)
    then show ?thesis using GetProofStatus assms(1,2) by (simp add: ps_ok_def store_queue_def)
  next
    case (ProofProgressUpdate rid u)
    then show ?thesis
      using assms by (simp add: ps_ok_def store_queue_def ps_progress_update_def upd)
  next
    case (ProofStatusUpdate rid ex pr)
    then show ?thesis
      using assms by (simp add: ps_ok_def store_queue_def ps_status_update_def upd)
  next
    case (InsertProof rid st)
    have k: "rid \<in> fst ` set (store_queue s) \<longleftrightarrow> ps_get s rid \<noteq> None" by (simp add: store_queue_def ps_get_None)
    show ?thesis
    proof (cases "ps_get s rid = None")
      case True
      have i: "ps_index s < length (ps_proofs s)" "length (ps_proofs s) = ps_max s" using assms(1) by (auto simp: ps_ok_def)
      have "slots_distinct ((ps_proofs s)[ps_index s := (rid, st)])"
        using slots_distinct_update assms(2) True by (simp add: ps_get_None)
      then show ?thesis
        using InsertProof True k i assms(1) rotate_overwrite [OF i(1), of "(rid, st)"]
        by (simp add: ps_insert_new [OF assms(1) True] ps_ok_def store_queue_def)
    next
      case False
      then show ?thesis
        using InsertProof k assms by (simp add: ps_insert_def ps_ok_def store_queue_def upd)
    qed
  qed
qed

theorem proof_store_refines_queue_witness:
  "\<exists>s'. proof_store_handle (InsertProof 7 cps_unexecuted) (the (proof_store_new 2)) = Some s' \<and>
     store_queue s' = [(0, cps_default), (7, cps_unexecuted)]"
proof -
  have "ps_ok (the (proof_store_new 2))" "slots_distinct (ps_proofs (the (proof_store_new 2)))"
    by (simp_all add: proof_store_new_def ps_ok_def slots_distinct_def replicate_2)
  from proof_store_refines_queue [OF this, of "InsertProof 7 cps_unexecuted"]
  show ?thesis by (auto simp: store_queue_def proof_store_new_def replicate_2)
qed

end
