(* ===== verification/Rate_Model.thy ===== *)
theory Rate_Model
  imports Rust_Float Network_Lib
begin

text \<open>
  The contemplant's throughput model (\<^verbatim>\<open>contemplant/src/rate_model.rs\<close>): per machine and mode, the
  running sums of a least-squares fit of proving time against cycle count, in \<^verbatim>\<open>f64\<close> arithmetic.
\<close>

definition f64 :: "rat \<Rightarrow> rat" where
  "f64 = fround 53"

record fit =
  fit_n :: nat
  sum_x :: rat
  sum_y :: rat
  sum_xx :: rat
  sum_xy :: rat

definition fit_default :: fit where
  "fit_default = \<lparr>fit_n = 0, sum_x = 0, sum_y = 0, sum_xx = 0, sum_xy = 0\<rparr>"

definition fit_record :: "rat \<Rightarrow> rat \<Rightarrow> fit \<Rightarrow> fit" where
  "fit_record c t f =
     \<lparr>fit_n = fit_n f + 1,
      sum_x = f64 (sum_x f + c),
      sum_y = f64 (sum_y f + t),
      sum_xx = f64 (sum_xx f + f64 (c * c)),
      sum_xy = f64 (sum_xy f + f64 (c * t))\<rparr>"

definition fit_estimate :: "fit \<Rightarrow> rat \<Rightarrow> rat option" where
  "fit_estimate f c =
     (if fit_n f = 0 \<or> c < 0 then None
      else (let n = f64 (of_nat (fit_n f));
                denom = f64 (f64 (n * sum_xx f) - f64 (sum_x f * sum_x f))
            in if fit_n f \<ge> 2 \<and> \<bar>denom\<bar> > f64 (1 / 1000000)
               then (let slope = f64 (f64 (f64 (n * sum_xy f) - f64 (sum_x f * sum_y f)) / denom);
                         intercept = f64 (f64 (sum_y f - f64 (slope * sum_x f)) / n)
                     in Some (max (f64 (intercept + f64 (slope * c))) 0))
               else if sum_x f \<le> 0 then None
               else Some (max (f64 (f64 (sum_y f / sum_x f) * c)) 0)))"

type_synonym rate_model = "(vm_kind \<times> string) \<rightharpoonup> fit"

definition rate_model_new :: rate_model where
  "rate_model_new = Map.empty"

text \<open>\<^verbatim>\<open>cycles as f64\<close>.\<close>

definition as_f64 :: "u64 \<Rightarrow> rat" where
  "as_f64 c = f64 (of_int (uint c))"

definition rate_record :: "vm_kind \<Rightarrow> string \<Rightarrow> u64 \<Rightarrow> rat \<Rightarrow> rate_model \<Rightarrow> rate_model" where
  "rate_record vm mode c t m =
     m((vm, mode) \<mapsto> fit_record (as_f64 c) t
         (case m (vm, mode) of Some f \<Rightarrow> f | None \<Rightarrow> fit_default))"

text \<open>\<^verbatim>\<open>f64::round\<close> (half away from zero) followed by the saturating cast \<^verbatim>\<open>as u64\<close>.\<close>

definition round_u64 :: "rat \<Rightarrow> nat" where
  "round_u64 x = nat (min (2 ^ 64 - 1) \<lfloor>x + 1 / 2\<rfloor>)"

definition rate_estimate_secs :: "vm_kind \<Rightarrow> string \<Rightarrow> u64 \<Rightarrow> rate_model \<Rightarrow> nat option" where
  "rate_estimate_secs vm mode c m =
     (case m (vm, mode) of
        None \<Rightarrow> None
      | Some f \<Rightarrow> map_option round_u64 (fit_estimate f (as_f64 c)))"

definition has_history :: "vm_kind \<Rightarrow> string \<Rightarrow> rate_model \<Rightarrow> bool" where
  "has_history vm mode m = (case m (vm, mode) of Some f \<Rightarrow> fit_n f > 0 | None \<Rightarrow> False)"

section \<open>Facts\<close>

text \<open>A model built by recording proofs.\<close>

inductive recorded :: "rate_model \<Rightarrow> bool" where
  recorded_new: "recorded rate_model_new"
| recorded_step: "recorded m \<Longrightarrow> 0 \<le> t \<Longrightarrow> recorded (rate_record vm mode c t m)"

lemma f64_nonneg: "0 \<le> x \<Longrightarrow> 0 \<le> f64 x"
  by (simp add: f64_def fround_nonneg)

lemma f64_pos: "0 < x \<Longrightarrow> 0 < f64 x"
proof -
  assume "0 < x"
  then have "0 < (2 powi bexp x :: rat)" "2 powi bexp x \<le> fround 53 x"
    using fround_binade(1) [of x 53] by auto
  then have "0 < fround 53 x" by (rule less_le_trans)
  then show ?thesis by (simp add: f64_def)
qed

lemma as_f64_nonneg: "0 \<le> as_f64 c"
  unfolding as_f64_def by (rule f64_nonneg) (simp only: of_int_0_le_iff uint_nonnegative)

lemma as_f64_pos: "0 < c \<Longrightarrow> 0 < as_f64 c"
  unfolding as_f64_def by (rule f64_pos) (simp only: of_int_0_less_iff word_less_def, simp)

definition fit_ok :: "fit \<Rightarrow> bool" where
  "fit_ok f \<longleftrightarrow> 0 < fit_n f \<and> 0 \<le> sum_x f \<and> 0 \<le> sum_y f"

lemma fit_ok_record:
  "0 \<le> c \<Longrightarrow> 0 \<le> t \<Longrightarrow> f = fit_default \<or> fit_ok f \<Longrightarrow> fit_ok (fit_record c t f)"
  by (auto simp: fit_ok_def fit_record_def fit_default_def f64_nonneg)

lemma recorded_ok: "recorded m \<Longrightarrow> m key = Some f \<Longrightarrow> fit_ok f"
proof (induction arbitrary: key f rule: recorded.induct)
  case (recorded_step m t vm mode c)
  have "0 \<le> as_f64 c" by (rule as_f64_nonneg)
  with recorded_step show ?case
    by (auto simp: rate_record_def split: if_splits option.splits intro!: fit_ok_record)
qed (simp add: rate_model_new_def)

lemma fit_estimate_nonneg: "fit_estimate f c = Some x \<Longrightarrow> 0 \<le> x"
  by (auto simp: fit_estimate_def Let_def split: if_splits)

section \<open>Properties\<close>

text \<open>History and estimates are kept per machine and mode: recording a proof of one kind changes
  neither the history nor the estimate of any other kind, and gives its own kind a history.\<close>

theorem rate_model_keys_isolated:
  "has_history vm mode (rate_record vm mode c t m) \<and>
   ((vm', mode') \<noteq> (vm, mode) \<longrightarrow>
      has_history vm' mode' (rate_record vm mode c t m) = has_history vm' mode' m \<and>
      rate_estimate_secs vm' mode' c' (rate_record vm mode c t m) = rate_estimate_secs vm' mode' c' m)"
  by (auto simp: has_history_def rate_record_def rate_estimate_secs_def fit_record_def)

theorem rate_model_keys_isolated_witness:
  "rate_estimate_secs Vm_Sp1 ''CORE'' 5 (rate_record Vm_Sp1 ''PLONK'' 200 600 rate_model_new) = None"
  using rate_model_keys_isolated [of Vm_Sp1 "''PLONK''" 200 600 rate_model_new Vm_Sp1 "''CORE''" 5]
  by (simp add: rate_estimate_secs_def rate_model_new_def)

text \<open>Without history there is no estimate; after at least one recorded proof of the kind whose
  cycle count is positive there is one, so an estimate is available from the second proof on.\<close>

theorem estimate_available:
  assumes "recorded m" "0 < c" "0 \<le> t"
  shows "(\<not> has_history vm mode m \<longrightarrow> rate_estimate_secs vm mode c' m = None) \<and>
         rate_estimate_secs vm mode c' (rate_record vm mode c t m) \<noteq> None"
proof (intro conjI impI)
  assume "\<not> has_history vm mode m"
  then show "rate_estimate_secs vm mode c' m = None"
    using recorded_ok [OF assms(1), of "(vm, mode)"]
    by (cases "m (vm, mode)") (auto simp: has_history_def rate_estimate_secs_def fit_ok_def)
next
  let ?f = "case m (vm, mode) of Some f \<Rightarrow> f | None \<Rightarrow> fit_default"
  have f: "?f = fit_default \<or> fit_ok ?f"
    using recorded_ok [OF assms(1), of "(vm, mode)"] by (cases "m (vm, mode)") auto
  have "0 \<le> sum_x ?f" using f by (auto simp: fit_ok_def fit_default_def)
  moreover have "0 < as_f64 c" by (rule as_f64_pos [OF assms(2)])
  ultimately have "0 < f64 (sum_x ?f + as_f64 c)" by (intro f64_pos) simp
  moreover have "\<not> as_f64 c' < 0" by (simp add: as_f64_nonneg not_less)
  ultimately have "fit_estimate (fit_record (as_f64 c) t ?f) (as_f64 c') \<noteq> None"
    by (auto simp: fit_estimate_def fit_record_def Let_def)
  then show "rate_estimate_secs vm mode c' (rate_record vm mode c t m) \<noteq> None"
    by (simp add: rate_estimate_secs_def rate_record_def)
qed

theorem estimate_available_witness:
  "rate_estimate_secs Vm_Sp1 ''PLONK'' 250 (rate_record Vm_Sp1 ''PLONK'' 200 600 rate_model_new) \<noteq> None"
  using estimate_available [OF recorded_new, of 200 600 Vm_Sp1 "''PLONK''" 250] by simp

lemma fit_one_sample:
  "map_option round_u64 (fit_estimate (fit_record (as_f64 200000000) 600 fit_default) (as_f64 250000000)) =
     Some 750"
  by code_simp

lemma fit_two_samples:
  "fit_record (as_f64 400000000) 1000 (fit_record (as_f64 200000000) 600 fit_default) =
     \<lparr>fit_n = 2, sum_x = 600000000, sum_y = 1600, sum_xx = 200000000000000000, sum_xy = 520000000000\<rparr>"
  by code_simp

lemma f64_steps:
  "f64 2 = 2" "f64 400000000000000000 = 400000000000000000" "f64 360000000000000000 = 360000000000000000"
  "f64 40000000000000000 = 40000000000000000" "f64 1040000000000 = 1040000000000"
  "f64 960000000000 = 960000000000" "f64 80000000000 = 80000000000"
  "f64 (1 / 500000) = 4722366482869645 / 2361183241434822606848"
  "f64 (5534023222112865234375 / 4611686018427387904) = 1200"
  "f64 (5534023222112865234375 / 9223372036854775808) = 600"
  "f64 (1844674407370955078125 / 18446744073709551616) = 100"
  "f64 400 = 400" "f64 200 = 200" "f64 800 = 800" "f64 300 = 300"
  "as_f64 300000000 = 300000000" "as_f64 50000000 = 50000000" "f64 (1 / 1000000) < 40000000000000000"
  by code_simp+

lemma fit_two_estimates:
  "fit_estimate
     \<lparr>fit_n = 2, sum_x = 600000000, sum_y = 1600, sum_xx = 200000000000000000, sum_xy = 520000000000\<rparr>
     (as_f64 300000000) = Some 800"
  "fit_estimate
     \<lparr>fit_n = 2, sum_x = 600000000, sum_y = 1600, sum_xx = 200000000000000000, sum_xy = 520000000000\<rparr>
     (as_f64 50000000) = Some 300"
  by (simp_all add: fit_estimate_def Let_def f64_steps)

lemma round_samples: "round_u64 800 = 800" "round_u64 300 = 300"
  by code_simp+

lemma fit_same_x:
  "map_option round_u64 (fit_estimate
     (fit_record (as_f64 100000000) 600 (fit_record (as_f64 100000000) 400 fit_default))
     (as_f64 100000000)) = Some 500"
  by code_simp

text \<open>On the sample values of the module's own tests the rounded arithmetic gives the exact
  figures: one sample is scaled proportionally, two samples recover fixed cost and rate, and
  samples at one cycle count fall back to the proportional guess.\<close>

theorem rate_model_samples:
  "rate_estimate_secs Vm_Sp1 ''PLONK'' 250000000
     (rate_record Vm_Sp1 ''PLONK'' 200000000 600 rate_model_new) = Some 750 \<and>
   rate_estimate_secs Vm_Risc0 ''GROTH16'' 300000000
     (rate_record Vm_Risc0 ''GROTH16'' 400000000 1000
       (rate_record Vm_Risc0 ''GROTH16'' 200000000 600 rate_model_new)) = Some 800 \<and>
   rate_estimate_secs Vm_Risc0 ''GROTH16'' 50000000
     (rate_record Vm_Risc0 ''GROTH16'' 400000000 1000
       (rate_record Vm_Risc0 ''GROTH16'' 200000000 600 rate_model_new)) = Some 300 \<and>
   rate_estimate_secs Vm_OpenVm ''EVM'' 100000000
     (rate_record Vm_OpenVm ''EVM'' 100000000 600
       (rate_record Vm_OpenVm ''EVM'' 100000000 400 rate_model_new)) = Some 500"
  by (simp add: rate_estimate_secs_def rate_record_def rate_model_new_def fit_two_samples
      fit_one_sample [simplified] fit_two_estimates round_samples fit_same_x [simplified])

end
