(* ===== verification/Worker_Proto.thy ===== *)
theory Worker_Proto
  imports Prelude Rust_Float
begin

text \<open>
  The protocol between a parent process and its \<^verbatim>\<open>openvm-worker\<close> child
  (\<^verbatim>\<open>openvm-worker-proto/src/lib.rs\<close>): length-prefixed frames, the request/response loop, the client
  that owns the child process, and the verification retries of \<^verbatim>\<open>hierophant/src/openvm/verify.rs\<close>.
  The \<^verbatim>\<open>bincode\<close> encoder and decoder are parameters.
\<close>

unbundle bit_operations_syntax

section \<open>Frames\<close>

datatype io_error =
  InvalidData | UnexpectedEof | ConnectionRefused | NotFound | BrokenPipe | OtherIo

definition MAX_FRAME_BYTES :: u32 where
  "MAX_FRAME_BYTES = push_bit 30 1"

definition to_le_bytes :: "u32 \<Rightarrow> bytes" where
  "to_le_bytes w = [ucast w, ucast (drop_bit 8 w), ucast (drop_bit 16 w), ucast (drop_bit 24 w)]"

definition from_le_bytes :: "bytes \<Rightarrow> u32" where
  "from_le_bytes b =
     ucast (b ! 0) OR push_bit 8 (ucast (b ! 1)) OR push_bit 16 (ucast (b ! 2)) OR push_bit 24 (ucast (b ! 3))"

text \<open>What \<^verbatim>\<open>write_frame\<close> puts on the stream when the writes succeed.\<close>

definition write_frame :: "('m \<Rightarrow> bytes option) \<Rightarrow> 'm \<Rightarrow> io_error + bytes" where
  "write_frame ser m = (case ser m of
       None \<Rightarrow> Inl InvalidData
     | Some bs \<Rightarrow>
         (if length bs \<ge> 2 ^ 32 then Inl InvalidData
          else (let len = (of_nat (length bs) :: u32) in
                if len > MAX_FRAME_BYTES then Inl InvalidData
                else Inr (to_le_bytes len @ bs))))"

text \<open>\<^verbatim>\<open>Read::read_exact\<close> on the bytes that will arrive before the peer closes.\<close>

definition read_exact :: "nat \<Rightarrow> bytes \<Rightarrow> io_error + (bytes \<times> bytes)" where
  "read_exact n s = (if length s < n then Inl UnexpectedEof else Inr (take n s, drop n s))"

definition read_frame :: "(bytes \<Rightarrow> 'm option) \<Rightarrow> bytes \<Rightarrow> io_error + ('m \<times> bytes)" where
  "read_frame de s = (case read_exact 4 s of
       Inl e \<Rightarrow> Inl e
     | Inr (len_bytes, s1) \<Rightarrow>
         (let len = from_le_bytes len_bytes in
          if len > MAX_FRAME_BYTES then Inl InvalidData
          else (case read_exact (unat len) s1 of
                  Inl e \<Rightarrow> Inl e
                | Inr (buf, s2) \<Rightarrow> (case de buf of None \<Rightarrow> Inl InvalidData | Some m \<Rightarrow> Inr (m, s2)))))"

section \<open>Requests and responses\<close>

datatype worker_proof_mode = W_App | W_Stark | W_Evm

fun worker_mode_as_str :: "worker_proof_mode \<Rightarrow> string" where
  "worker_mode_as_str W_App = ''APP''"
| "worker_mode_as_str W_Stark = ''STARK''"
| "worker_mode_as_str W_Evm = ''EVM''"

datatype worker_request =
    Prove string worker_proof_mode bytes "string option" "bytes list" bool
  | Verify worker_proof_mode bytes "string option" bytes
  | Version_Request

datatype worker_response =
    ProofResponse bytes
  | VerifyOk
  | VersionResponse string
  | ErrResponse string
  | SizeResponse u64

fun is_terminal :: "worker_response \<Rightarrow> bool" where
  "is_terminal (SizeResponse _) = False"
| "is_terminal _ = True"

text \<open>
  The read loop of \<^verbatim>\<open>call\<close> on the bytes of the connection: the segment counts handed to \<^verbatim>\<open>on_size\<close>
  and the outcome. Each frame consumes at least its four length bytes, so the loop ends.
\<close>

lemma read_frame_shorter: "read_frame de s = Inr (m, s') \<Longrightarrow> length s' < length s"
  by (auto simp: read_frame_def read_exact_def Let_def split: sum.splits if_splits option.splits)
    linarith

function call_loop ::
    "(bytes \<Rightarrow> worker_response option) \<Rightarrow> bytes \<Rightarrow> u64 list \<times> (io_error + worker_response)" where
  "call_loop de s = (case read_frame de s of
       Inl e \<Rightarrow> ([], Inl e)
     | Inr (frame, s') \<Rightarrow> (case frame of
           SizeResponse segments \<Rightarrow> (let (sizes, out) = call_loop de s' in (segments # sizes, out))
         | _ \<Rightarrow> ([], Inr frame)))"
  by pat_completeness auto
termination by (relation "measure (\<lambda>(_, s). length s)") (auto dest: read_frame_shorter)

declare call_loop.simps [simp del]

text \<open>
  \<^verbatim>\<open>call\<close>: connect, write the request, read frames. \<open>connect\<close> is the outcome of the connection,
  \<open>incoming\<close> what the worker sends on it.
\<close>

definition worker_call ::
    "(worker_request \<Rightarrow> bytes option) \<Rightarrow> (bytes \<Rightarrow> worker_response option) \<Rightarrow> io_error option \<Rightarrow> bytes \<Rightarrow>
     worker_request \<Rightarrow> u64 list \<times> (io_error + worker_response)" where
  "worker_call ser de connect incoming req = (case connect of
       Some e \<Rightarrow> ([], Inl e)
     | None \<Rightarrow> (case write_frame ser req of
           Inl e \<Rightarrow> ([], Inl e)
         | Inr _ \<Rightarrow> call_loop de incoming))"

section \<open>The client of the child process\<close>

text \<open>
  The slot \<^verbatim>\<open>child: Mutex<Option<Child>>\<close>. What the operating system reports is a parameter: \<open>wait\<close> is
  the answer of \<^verbatim>\<open>try_wait\<close> (has the child exited?) and \<open>spawn_error\<close> the failure of \<^verbatim>\<open>spawn\<close>, if any.
\<close>

datatype child = NotSpawned | Spawned

definition ensure_running ::
    "io_error + bool \<Rightarrow> io_error option \<Rightarrow> child \<Rightarrow> (io_error + unit) \<times> child" where
  "ensure_running wait spawn_error c =
     (let spawn = (case spawn_error of Some e \<Rightarrow> (Inl e, c) | None \<Rightarrow> (Inr (), Spawned)) in
      case c of
        NotSpawned \<Rightarrow> spawn
      | Spawned \<Rightarrow> (case wait of
            Inl e \<Rightarrow> (Inl e, c)
          | Inr exited \<Rightarrow> (if exited then spawn else (Inr (), c))))"

definition mark_dead :: "child \<Rightarrow> child" where
  "mark_dead c = NotSpawned"

definition STARTUP_GRACE :: duration where
  "STARTUP_GRACE = from_secs 60"

definition RETRY_SLEEP :: duration where
  "RETRY_SLEEP = 250 * 1000000"

text \<open>
  One turn of the retry loop of \<^verbatim>\<open>call_blocking\<close>: the result of the call, the time at which it is
  examined, and the answer of \<^verbatim>\<open>try_wait\<close> after it.
\<close>

record attempt =
  at_result :: "io_error + worker_response"
  at_now :: nat
  at_wait :: "io_error + bool"

text \<open>\<open>None\<close>: the loop is still retrying when the attempts considered are used up.\<close>

fun call_retry :: "nat \<Rightarrow> attempt list \<Rightarrow> child \<Rightarrow> ((io_error + worker_response) \<times> child) option" where
  "call_retry deadline [] c = None"
| "call_retry deadline (a # as) c = (case at_result a of
       Inr resp \<Rightarrow> Some (Inr resp, c)
     | Inl e \<Rightarrow>
         (if (e = ConnectionRefused \<or> e = NotFound) \<and> at_now a < deadline
          then (case c of
                  NotSpawned \<Rightarrow> call_retry deadline as c
                | Spawned \<Rightarrow> (case at_wait a of
                      Inl e' \<Rightarrow> Some (Inl e', c)
                    | Inr exited \<Rightarrow> (if exited then Some (Inl BrokenPipe, NotSpawned)
                                    else call_retry deadline as c)))
          else Some (Inl e, mark_dead c)))"

definition call_blocking ::
    "io_error + bool \<Rightarrow> io_error option \<Rightarrow> nat \<Rightarrow> attempt list \<Rightarrow> child \<Rightarrow>
     ((io_error + worker_response) \<times> child) option" where
  "call_blocking wait spawn_error start attempts c = (case ensure_running wait spawn_error c of
       (Inl e, c') \<Rightarrow> Some (Inl e, c')
     | (Inr _, c') \<Rightarrow> call_retry (start + STARTUP_GRACE) attempts c')"

section \<open>Verification with retries\<close>

definition VERIFY_TRANSPORT_RETRIES :: nat where
  "VERIFY_TRANSPORT_RETRIES = 3"

text \<open>
  \<open>calls\<close> are the results of the successive calls to the local worker. The final message leaves out the text of
  the last transport error.
\<close>

fun verify_attempts :: "(io_error + worker_response) list \<Rightarrow> string + unit" where
  "verify_attempts [] = Inl ''openvm-worker unavailable after 3 attempts''"
| "verify_attempts (r # rs) = (case r of
       Inr VerifyOk \<Rightarrow> Inr ()
     | Inr (ErrResponse msg) \<Rightarrow> Inl msg
     | Inr _ \<Rightarrow> Inl ''openvm-worker returned an unexpected response kind''
     | Inl _ \<Rightarrow> verify_attempts rs)"

definition verify_openvm_proof :: "(nat \<Rightarrow> io_error + worker_response) \<Rightarrow> string + unit" where
  "verify_openvm_proof calls = verify_attempts (map calls [1..<VERIFY_TRANSPORT_RETRIES + 1])"

definition openvm_version :: "io_error + worker_response \<Rightarrow> string" where
  "openvm_version r = (case r of Inr (VersionResponse v) \<Rightarrow> v | _ \<Rightarrow> ''unknown'')"

section \<open>Facts\<close>


lemma le_bytes_roundtrip: "from_le_bytes (to_le_bytes w) = w"
proof (rule bit_word_eqI)
  fix n assume n: "n < LENGTH(32)"
  consider "n < 8" | "8 \<le> n" "n < 16" | "16 \<le> n" "n < 24" | "24 \<le> n" "n < 32"
    using n by fastforce
  then show "bit (from_le_bytes (to_le_bytes w)) n = bit w n"
    by cases (auto simp: from_le_bytes_def to_le_bytes_def bit_simps)
qed

lemma length_to_le_bytes [simp]: "length (to_le_bytes w) = 4"
  by (simp add: to_le_bytes_def)

lemma unat_MAX_FRAME_BYTES [simp]: "unat MAX_FRAME_BYTES = 2 ^ 30"
  by (simp add: MAX_FRAME_BYTES_def push_bit_eq_mult)

lemma write_frame_Inr:
  "write_frame ser m = Inr fr \<Longrightarrow>
   \<exists>bs. ser m = Some bs \<and> length bs \<le> 2 ^ 30 \<and> fr = to_le_bytes (of_nat (length bs)) @ bs"
  by (auto simp: write_frame_def Let_def word_less_nat_alt unat_of_nat take_bit_nat_eq_self not_less
      split: option.splits if_splits)

lemma write_frame_refused:
  "write_frame ser m = Inl e \<Longrightarrow> e = InvalidData \<and> (\<forall>bs. ser m = Some bs \<longrightarrow> 2 ^ 30 < length bs)"
  by (auto simp: write_frame_def Let_def word_less_nat_alt unat_of_nat take_bit_nat_eq_self not_less
      split: option.splits if_splits)

lemma frame_roundtrip_aux:
  assumes "\<And>x bs. ser x = Some bs \<Longrightarrow> de bs = Some x" "write_frame ser m = Inr fr"
  shows "read_frame de (fr @ rest) = Inr (m, rest)"
  using write_frame_Inr [OF assms(2)] assms(1)
  by (auto simp: read_frame_def read_exact_def Let_def le_bytes_roundtrip word_less_nat_alt unat_of_nat
      take_bit_nat_eq_self)

text \<open>A frame that was written is read back by the peer as the message that was sent, whatever follows
  on the stream, when the decoder inverts the encoder; it is at most \<open>MAX_FRAME_BYTES + 4\<close> bytes long.
  A message is refused exactly when it does not serialise or exceeds the limit.\<close>

theorem frame_roundtrip:
  fixes ser :: "'m \<Rightarrow> bytes option"
  assumes bincode: "\<And>x bs. ser x = Some bs \<Longrightarrow> de bs = Some x"
  shows "(case write_frame ser m of
            Inr fr \<Rightarrow> read_frame de (fr @ rest) = Inr (m, rest) \<and> length fr \<le> unat MAX_FRAME_BYTES + 4
          | Inl e \<Rightarrow> e = InvalidData \<and> (\<forall>bs. ser m = Some bs \<longrightarrow> length bs > unat MAX_FRAME_BYTES))"
  using frame_roundtrip_aux [of ser de m, OF bincode]
  by (auto dest: write_frame_Inr write_frame_refused split: sum.split)

theorem frame_roundtrip_witness:
  "write_frame (\<lambda>b::bool. Some [if b then 1 else 0]) True = Inr [1, 0, 0, 0, 1]
   \<and> read_frame (\<lambda>bs. Some (bs = [1])) ([1, 0, 0, 0, 1] @ [7]) = Inr (True, [7])"
proof -
  have w: "write_frame (\<lambda>b::bool. Some [if b then 1 else 0]) True = Inr [1, 0, 0, 0, 1]"
    by (simp add: write_frame_def to_le_bytes_def word_less_nat_alt)
  have "\<And>x bs. Some [if x then 1 else 0 :: u8] = Some bs \<Longrightarrow> Some (bs = [1]) = Some x"
    by auto
  from frame_roundtrip [where ser = "\<lambda>b::bool. Some [if b then 1 else 0]" and m = True
      and de = "\<lambda>bs. Some (bs = [1])" and rest = "[7]", OF this] w
  show ?thesis by simp
qed

text \<open>On a connection carrying a number of size frames followed by a terminal frame, the call hands every
  segment count to the callback in order and returns the terminal response; what follows is not read.\<close>

theorem call_returns_terminal:
  fixes ser :: "worker_response \<Rightarrow> bytes option"
  assumes bincode: "\<And>x bs. ser x = Some bs \<Longrightarrow> de bs = Some x"
    and sizes: "list_all2 (\<lambda>n fr. write_frame ser (SizeResponse n) = Inr fr) sizes frames"
    and terminal: "is_terminal t" "write_frame ser t = Inr last_frame"
    and request: "write_frame rser req = Inr sent"
  shows "worker_call rser de None (concat frames @ last_frame @ rest) req = (sizes, Inr t)"
proof -
  have step: "read_frame de (fr @ s) = Inr (m, s)" if "write_frame ser m = Inr fr" for m fr s
    using frame_roundtrip_aux [of ser de, OF bincode that] .
  have "call_loop de (concat frames @ last_frame @ rest) = (sizes, Inr t)"
    using sizes
  proof (induction sizes frames rule: list_all2_induct)
    case Nil
    then show ?case
      using terminal(1) by (cases t) (simp_all add: call_loop.simps step [OF terminal(2)])
  next
    case (Cons n ns fr frs)
    then show ?case by (simp add: call_loop.simps [of de "fr @ _"] step [OF Cons.hyps(1)])
  qed
  then show ?thesis using request by (simp add: worker_call_def)
qed

definition sample_ser :: "worker_response \<Rightarrow> bytes option" where
  "sample_ser r = (if r = VerifyOk then Some [0] else if r = SizeResponse 5 then Some [1] else None)"

definition sample_de :: "bytes \<Rightarrow> worker_response option" where
  "sample_de b = (if b = [0] then Some VerifyOk else if b = [1] then Some (SizeResponse 5) else None)"

theorem call_returns_terminal_witness:
  "worker_call (\<lambda>_. Some [9]) sample_de None (concat [[1, 0, 0, 0, 1]] @ [1, 0, 0, 0, 0] @ [3]) Version_Request
     = ([5], Inr VerifyOk)"
proof (rule call_returns_terminal [where ser = sample_ser])
  show "sample_de b = Some x" if "sample_ser x = Some b" for x b
    using that by (auto simp: sample_ser_def sample_de_def split: if_splits)
  show "write_frame (\<lambda>_. Some [9]) Version_Request = Inr [1, 0, 0, 0, 9]"
    by (simp add: write_frame_def to_le_bytes_def word_less_nat_alt)
qed (simp_all add: write_frame_def to_le_bytes_def word_less_nat_alt sample_ser_def)

section \<open>The retry loop ends\<close>

lemma call_retry_ends:
  "a \<in> set as \<Longrightarrow> deadline \<le> at_now a \<Longrightarrow> \<exists>r c'. call_retry deadline as c = Some (r, c')"
  by (induction as) (auto split: sum.splits child.splits)

lemma call_retry_result:
  "call_retry deadline as c = Some (r, c') \<Longrightarrow>
   (case r of
      Inr resp \<Rightarrow> c' = c \<and> (\<exists>a\<in>set as. at_result a = Inr resp)
    | Inl e \<Rightarrow> c' = NotSpawned \<or> (\<exists>a\<in>set as. at_wait a = Inl e))"
  by (induction as) (auto simp: mark_dead_def split: sum.splits child.splits if_splits)

lemma ensure_running_Inr: "ensure_running wait se c = (Inr (), c') \<Longrightarrow> c' = Spawned"
  by (auto simp: ensure_running_def Let_def split: child.splits sum.splits if_splits option.splits)

lemma ensure_running_Inl:
  "ensure_running wait se c = (Inl e, c') \<Longrightarrow> wait = Inl e \<or> se = Some e"
  by (auto simp: ensure_running_def Let_def split: child.splits sum.splits if_splits option.splits)

text \<open>\<^verbatim>\<open>call_blocking\<close> returns: with 250 ms between attempts the startup grace of 60 s admits at most 240
  retries, so 241 attempts are enough. A response is the worker's answer to one of the attempts; after a
  failed call the child is forgotten, so that the next call respawns it, unless the operating system
  refused to spawn or to poll it.\<close>

theorem call_blocking_ends:
  assumes spaced: "\<And>i. i < length as \<Longrightarrow> start + i * RETRY_SLEEP \<le> at_now (as ! i)"
    and enough: "240 < length as"
  shows "\<exists>r c'. call_blocking wait spawn_error start as c = Some (r, c') \<and>
     (case r of
        Inr resp \<Rightarrow> c' = Spawned \<and> (\<exists>a\<in>set as. at_result a = Inr resp)
      | Inl e \<Rightarrow> c' = NotSpawned \<or> wait = Inl e \<or> spawn_error = Some e \<or>
                 (\<exists>a\<in>set as. at_wait a = Inl e))"
proof (cases "ensure_running wait spawn_error c")
  case (Pair r0 c0)
  show ?thesis
  proof (cases r0)
    case (Inl e)
    then show ?thesis using Pair ensure_running_Inl [of wait spawn_error c e c0]
      by (auto simp: call_blocking_def)
  next
    case (Inr u)
    then have c0: "ensure_running wait spawn_error c = (Inr (), c0)" "c0 = Spawned"
      using Pair ensure_running_Inr by auto
    have "start + STARTUP_GRACE \<le> at_now (as ! 240)"
      using spaced [OF enough] by (simp add: STARTUP_GRACE_def RETRY_SLEEP_def from_secs_def nanos_per_sec_def)
    then obtain r c' where r: "call_retry (start + STARTUP_GRACE) as c0 = Some (r, c')"
      using call_retry_ends [OF nth_mem [OF enough]] by blast
    have "call_blocking wait spawn_error start as c = Some (r, c')"
      using r c0(1) by (simp add: call_blocking_def)
    then show ?thesis
      using call_retry_result [OF r] c0(2) by (cases r) (simp, blast, simp)
  qed
qed

definition sample_attempts :: "attempt list" where
  "sample_attempts =
     map (\<lambda>i. \<lparr>at_result = Inl ConnectionRefused, at_now = i * RETRY_SLEEP, at_wait = Inr False\<rparr>) [0..<241]"

theorem call_blocking_ends_witness:
  "\<exists>r c'. call_blocking (Inr False) None 0 sample_attempts NotSpawned = Some (r, c') \<and>
     (case r of
        Inr resp \<Rightarrow> c' = Spawned \<and> (\<exists>a\<in>set sample_attempts. at_result a = Inr resp)
      | Inl e \<Rightarrow> c' = NotSpawned \<or> Inr False = (Inl e :: io_error + bool) \<or> None = Some e \<or>
                 (\<exists>a\<in>set sample_attempts. at_wait a = Inl e))"
  by (rule call_blocking_ends) (simp_all add: sample_attempts_def del: upt_rec_numeral)

section \<open>Verification verdicts\<close>

lemma verify_verdict_accepts:
  "verify_openvm_proof calls = Inr () \<Longrightarrow> \<exists>k. calls k = Inr VerifyOk"
proof -
  have "verify_attempts rs = Inr () \<Longrightarrow> Inr VerifyOk \<in> set rs" for rs
    by (induction rs) (auto split: sum.splits worker_response.splits)
  then show "verify_openvm_proof calls = Inr () \<Longrightarrow> \<exists>k. calls k = Inr VerifyOk"
    unfolding verify_openvm_proof_def by fastforce
qed

text \<open>C12. A proof counts as verified only if, within the first three calls to the local worker and after
  transport failures only, the worker answered \<open>VerifyOk\<close>. A rejection by the worker is final, whatever
  later calls would answer, and a verdict is reached without looking beyond the third call.\<close>

theorem verify_verdict:
  "(verify_openvm_proof calls = Inr () \<longleftrightarrow>
      (\<exists>k<3. calls (Suc k) = Inr VerifyOk \<and> (\<forall>j<k. \<exists>e. calls (Suc j) = Inl e))) \<and>
   ((\<exists>k<3. calls (Suc k) = Inr (ErrResponse msg) \<and> (\<forall>j<k. \<exists>e. calls (Suc j) = Inl e)) \<longrightarrow>
      verify_openvm_proof calls = Inl msg) \<and>
   (\<forall>calls'. (\<forall>k<3. calls' (Suc k) = calls (Suc k)) \<longrightarrow> verify_openvm_proof calls' = verify_openvm_proof calls)"
proof -
  have expand: "verify_openvm_proof c = verify_attempts [c 1, c 2, c 3]" for c
    by (simp add: verify_openvm_proof_def VERIFY_TRANSPORT_RETRIES_def upt_rec numeral_eq_Suc)
  have lt3: "(\<exists>k<3. P k) \<longleftrightarrow> P 0 \<or> P 1 \<or> P 2" for P :: "nat \<Rightarrow> bool"
    by (auto simp: numeral_eq_Suc less_Suc_eq)
  have all3: "(\<forall>k<3. P k) \<longleftrightarrow> P 0 \<and> P 1 \<and> P 2" for P :: "nat \<Rightarrow> bool"
    by (auto simp: numeral_eq_Suc less_Suc_eq)
  have none: "(\<forall>j<0. P j)" and one: "(\<forall>j<1. P j) \<longleftrightarrow> P 0" and two: "(\<forall>j<2. P j) \<longleftrightarrow> P 0 \<and> P 1"
    for P :: "nat \<Rightarrow> bool"
    by (auto simp: numeral_eq_Suc less_Suc_eq)
  have "verify_openvm_proof calls = Inr () \<longleftrightarrow>
      (\<exists>k<3. calls (Suc k) = Inr VerifyOk \<and> (\<forall>j<k. \<exists>e. calls (Suc j) = Inl e))"
    unfolding expand lt3 one two
    by (cases "calls 1"; cases "calls 2"; cases "calls 3")
      (simp_all add: eval_nat_numeral split: worker_response.splits)
  moreover have "verify_openvm_proof calls = Inl msg"
    if "\<exists>k<3. calls (Suc k) = Inr (ErrResponse msg) \<and> (\<forall>j<k. \<exists>e. calls (Suc j) = Inl e)"
    using that unfolding expand lt3 one two by (auto simp: eval_nat_numeral)
  moreover have "verify_openvm_proof calls' = verify_openvm_proof calls"
    if "\<forall>k<3. calls' (Suc k) = calls (Suc k)" for calls'
    using that unfolding expand all3 by (simp add: eval_nat_numeral)
  ultimately show ?thesis by blast
qed

theorem verify_verdict_witness:
  "verify_openvm_proof (\<lambda>k. if k = 1 then Inl BrokenPipe else Inr (ErrResponse ''bad'')) = Inl ''bad''"
  using verify_verdict [of "\<lambda>k. if k = 1 then Inl BrokenPipe else Inr (ErrResponse ''bad'')" "''bad''",
    THEN conjunct2, THEN conjunct1, rule_format, OF exI [of _ 1]]
  by simp

end
