(* ===== verification/Registry.thy ===== *)
theory Registry
  imports Worker_State Actor "HOL-Library.Sublist"
begin

text \<open>
  The worker registry (\<^verbatim>\<open>worker_registry/registry.rs\<close>, \<^verbatim>\<open>command.rs\<close>): the actor that owns the
  connected workers, assigns proof requests to them, queues the requests no worker can take, and
  relays status polls. What a handler does outside its own state (messages to a worker's websocket
  channel, one-shot replies, deletions requested from a Magister) is appended to \<open>rg_sent\<close>.
\<close>

section \<open>State\<close>

type_synonym resp = nat

datatype 's effect =
    SendWorker chan "'s from_hierophant_message"
  | ReplyStatus resp "contemplant_proof_status option"
  | ReplyPending resp nat "nat option"
  | ReplyWorkers resp "(string \<times> worker_state) list"
  | ReplyHistory resp "completed_proof_info list"
  | ReplyHeartbeat resp bool
  | MagisterDelete string

record 's registry =
  rg_config :: worker_registry_config
  rg_workers :: "(string, worker_state) amap"
  rg_dead_workers :: "(string \<times> worker_state) list"
  rg_awaiting :: "b256 \<rightharpoonup> resp list"
  rg_proof_history :: "completed_proof_info list"
  rg_pending :: "('s contemplant_proof_request \<times> instant) list"
  rg_sent :: "'s effect list"

definition PENDING_QUEUE_CAP :: nat where
  "PENDING_QUEUE_CAP = 64"

definition PENDING_TTL :: duration where
  "PENDING_TTL = from_secs (2 * 60 * 60)"

definition emit :: "'s effect \<Rightarrow> 's registry \<Rightarrow> 's registry" where
  "emit x s = s\<lparr>rg_sent := rg_sent s @ [x]\<rparr>"

definition mod_worker :: "string \<Rightarrow> (worker_state \<Rightarrow> worker_state) \<Rightarrow> 's registry \<Rightarrow> 's registry" where
  "mod_worker a f s = s\<lparr>rg_workers := amap_mod a f (rg_workers s)\<rparr>"

text \<open>\<^verbatim>\<open>self.workers.iter().find(..)\<close> for the worker busy with a request.\<close>

definition find_worker :: "env \<Rightarrow> b256 \<Rightarrow> 's registry \<Rightarrow> (string \<times> worker_state) option" where
  "find_worker e rid s = List.find (\<lambda>(_, w). works_on rid w) (entries e (rg_workers s))"

section \<open>Eviction\<close>

definition remove_dead :: "string \<Rightarrow> 's registry \<Rightarrow> 's registry" where
  "remove_dead addr s = (case map_of (rg_workers s) addr of
       None \<Rightarrow> s
     | Some w \<Rightarrow>
         (let s1 = s\<lparr>rg_workers := amap_remove addr (rg_workers s)\<rparr>;
              s2 = (case ws_magister_drop_endpoint w of
                      Some drop_endpoint \<Rightarrow> emit (MagisterDelete drop_endpoint) s1
                    | None \<Rightarrow> s1)
          in s2\<lparr>rg_dead_workers := rg_dead_workers s2 @ [(addr, w)]\<rparr>))"

definition trim_workers :: "env \<Rightarrow> 's registry \<Rightarrow> 's registry" where
  "trim_workers e s =
     fold remove_dead
       (map fst (filter (\<lambda>(_, w). should_drop e (rg_config s) w) (entries e (rg_workers s)))) s"

section \<open>Assignment\<close>

text \<open>The loop over candidate addresses: the first whose channel accepts the message is assigned.\<close>

fun try_candidates ::
    "env \<Rightarrow> 's contemplant_proof_request \<Rightarrow> string list \<Rightarrow> 's registry \<Rightarrow> bool \<times> 's registry" where
  "try_candidates e r [] s = (False, s)"
| "try_candidates e r (addr # rest) s = (case map_of (rg_workers s) addr of
       None \<Rightarrow> try_candidates e r rest s
     | Some w \<Rightarrow>
         (if chan_open e (ws_sender w)
          then (True, mod_worker addr (assigned_proof e (request_id r) (request_vm r) (mode_name r))
                        (emit (SendWorker (ws_sender w) (ProofRequest r)) s))
          else try_candidates e r rest (mod_worker addr add_strike s)))"

text \<open>Capable idle workers, those hot for the request's machine first.\<close>

definition candidates ::
    "env \<Rightarrow> 's contemplant_proof_request \<Rightarrow> 's registry \<Rightarrow> string list" where
  "candidates e r s =
     (let able = filter (\<lambda>(_, w). can_serve r w \<and> ws_status w = Idle) (entries e (rg_workers s));
          hot = filter (\<lambda>(_, w). ws_last_vm w = Some (request_vm r)) able;
          cold = filter (\<lambda>(_, w). ws_last_vm w \<noteq> Some (request_vm r)) able
      in map fst hot @ map fst cold)"

definition try_assign ::
    "env \<Rightarrow> 's contemplant_proof_request \<Rightarrow> 's registry \<Rightarrow> bool \<times> 's registry" where
  "try_assign e r s =
     (if \<exists>(_, w) \<in> set (entries e (rg_workers s)). works_on (request_id r) w then (True, s)
      else try_candidates e r (candidates e r s) s)"

fun drain_loop ::
    "env \<Rightarrow> ('s contemplant_proof_request \<times> instant) list \<Rightarrow>
     ('s contemplant_proof_request \<times> instant) list \<Rightarrow> 's registry \<Rightarrow> 's registry" where
  "drain_loop e [] still_pending s = s\<lparr>rg_pending := still_pending\<rparr>"
| "drain_loop e ((r, queued_at) # rest) still_pending s =
     (let (assigned, s') = try_assign e r (s\<lparr>rg_pending := rest\<rparr>)
      in if assigned then drain_loop e rest still_pending s'
         else drain_loop e rest (still_pending @ [(r, queued_at)]) s')"

definition drain_pending :: "env \<Rightarrow> 's registry \<Rightarrow> 's registry" where
  "drain_pending e s =
     drain_loop e (filter (\<lambda>(_, queued_at). \<not> elapsed e queued_at > PENDING_TTL) (rg_pending s)) [] s"

definition queued :: "b256 \<Rightarrow> 's registry \<Rightarrow> bool" where
  "queued rid s \<longleftrightarrow> (\<exists>(r, _) \<in> set (rg_pending s). request_id r = rid)"

definition handle_assign_proof ::
    "env \<Rightarrow> 's contemplant_proof_request \<Rightarrow> 's registry \<Rightarrow> 's registry" where
  "handle_assign_proof e r s =
     (let (assigned, s') = try_assign e r (trim_workers e s)
      in if assigned then s'
         else if queued (request_id r) s' then s'
         else if length (rg_pending s') \<ge> PENDING_QUEUE_CAP then s'
         else s'\<lparr>rg_pending := rg_pending s' @ [(r, now_i e)]\<rparr>)"

section \<open>Worker messages\<close>

definition handle_heartbeat :: "env \<Rightarrow> string \<Rightarrow> resp \<Rightarrow> 's registry \<Rightarrow> 's registry" where
  "handle_heartbeat e addr rs s = (case map_of (rg_workers s) addr of
       Some _ \<Rightarrow> emit (ReplyHeartbeat rs False) (mod_worker addr (worker_heartbeat e) s)
     | None \<Rightarrow> emit (ReplyHeartbeat rs True) s)"

text \<open>The previous registration of a reconnecting instance, under another peer address.\<close>

definition same_instance :: "string \<Rightarrow> string option \<Rightarrow> worker_state \<Rightarrow> bool" where
  "same_instance nm magister w = (case (magister, ws_magister_drop_endpoint w) of
       (Some new_ep, Some old_ep) \<Rightarrow> new_ep = old_ep
     | _ \<Rightarrow> ws_name w = nm)"

definition stale_key ::
    "env \<Rightarrow> string \<Rightarrow> string \<Rightarrow> string option \<Rightarrow> 's registry \<Rightarrow> string option" where
  "stale_key e addr nm magister s =
     map_option fst (List.find (\<lambda>(a, w). a \<noteq> addr \<and> same_instance nm magister w)
       (entries e (rg_workers s)))"

definition register_worker ::
    "env \<Rightarrow> string \<Rightarrow> string \<Rightarrow> vm_kind list \<Rightarrow> bool \<Rightarrow> bool \<Rightarrow> string option \<Rightarrow> u64 \<Rightarrow> chan \<Rightarrow>
     's registry \<Rightarrow> 's registry" where
  "register_worker e addr nm vms groth16 openvm_evm magister nonce sender s =
     (let (carried_status, s1) = (case stale_key e addr nm magister s of
            None \<Rightarrow> (None, s)
          | Some key \<Rightarrow> (case map_of (rg_workers s) key of
                None \<Rightarrow> (None, s)
              | Some old \<Rightarrow>
                  (if ws_instance_nonce old = nonce \<and> is_busy old then Some (ws_status old) else None,
                   s\<lparr>rg_workers := amap_remove key (rg_workers s)\<rparr>)));
          default_state = worker_new e nm vms groth16 openvm_evm magister nonce sender;
          new_state = (case carried_status of
                         Some st \<Rightarrow> default_state\<lparr>ws_status := st\<rparr>
                       | None \<Rightarrow> default_state)
      in s1\<lparr>rg_workers := amap_insert addr new_state (rg_workers s1)\<rparr>)"

definition handle_worker_ready ::
    "env \<Rightarrow> string \<Rightarrow> string \<Rightarrow> vm_kind list \<Rightarrow> bool \<Rightarrow> bool \<Rightarrow> string option \<Rightarrow> u64 \<Rightarrow> chan \<Rightarrow>
     's registry \<Rightarrow> 's registry" where
  "handle_worker_ready e addr nm vms groth16 openvm_evm magister nonce sender s =
     drain_pending e (register_worker e addr nm vms groth16 openvm_evm magister nonce sender s)"

definition update_progress ::
    "env \<Rightarrow> progress_update option \<Rightarrow> worker_state \<Rightarrow> worker_state" where
  "update_progress e pu w = (case ws_status w of
       Idle \<Rightarrow> w
     | Busy rid vm m start prog upd \<Rightarrow>
         (case pu of
            Some _ \<Rightarrow> (if prog < pu then w\<lparr>ws_status := Busy rid vm m start pu (now_s e)\<rparr> else w)
          | None \<Rightarrow> w\<lparr>ws_status := Busy rid vm m start prog (now_s e)\<rparr>))"

definition handle_proof_progress_update ::
    "env \<Rightarrow> b256 \<Rightarrow> progress_update option \<Rightarrow> 's registry \<Rightarrow> 's registry" where
  "handle_proof_progress_update e rid pu s = (case find_worker e rid s of
       Some (addr, _) \<Rightarrow> mod_worker addr (update_progress e pu) s
     | None \<Rightarrow> s)"

definition handle_proof_complete :: "env \<Rightarrow> b256 \<Rightarrow> 's registry \<Rightarrow> 's registry" where
  "handle_proof_complete e rid s = (case find_worker e rid s of
       None \<Rightarrow> s
     | Some (addr, w) \<Rightarrow>
         drain_pending e (case ws_status w of
             Idle \<Rightarrow> s
           | Busy busy_rid vm m start _ _ \<Rightarrow>
               (if busy_rid = rid then
                  (let info = completed_proof_info_new rid vm m (minutes_f 24 (elapsed e start))
                                addr (ws_name w);
                       s1 = mod_worker addr completed_proof s
                   in s1\<lparr>rg_proof_history := rg_proof_history s1 @ [info]\<rparr>)
                else s)))"

section \<open>Status polls\<close>

definition bridge_startup_race ::
    "env \<Rightarrow> b256 \<Rightarrow> contemplant_proof_status option \<Rightarrow> 's registry \<Rightarrow>
     contemplant_proof_status option" where
  "bridge_startup_race e rid st s =
     (if st \<noteq> None then st
      else (case find_worker e rid s of
          None \<Rightarrow> None
        | Some (_, w) \<Rightarrow> (case ws_status w of
              Idle \<Rightarrow> None
            | Busy _ _ _ start _ _ \<Rightarrow>
                (if elapsed e start < from_secs (assignment_startup_grace_secs (rg_config s))
                 then Some cps_unexecuted else None))))"

definition reported_unexecutable :: "contemplant_proof_status option \<Rightarrow> bool" where
  "reported_unexecutable st = (case st of
       None \<Rightarrow> False
     | Some c \<Rightarrow> cps_execution_status c = execution_status_i32 Unexecutable)"

definition free_worker_of_failed_proof ::
    "env \<Rightarrow> b256 \<Rightarrow> contemplant_proof_status option \<Rightarrow> 's registry \<Rightarrow> 's registry" where
  "free_worker_of_failed_proof e rid st s =
     (if \<not> reported_unexecutable st then s
      else (case find_worker e rid s of
          None \<Rightarrow> s
        | Some (addr, _) \<Rightarrow> drain_pending e (mod_worker addr failed_proof s)))"

definition handle_proof_status_response ::
    "env \<Rightarrow> b256 \<Rightarrow> contemplant_proof_status option \<Rightarrow> 's registry \<Rightarrow> 's registry" where
  "handle_proof_status_response e rid maybe_status s =
     (let st = bridge_startup_race e rid maybe_status s;
          s1 = free_worker_of_failed_proof e rid st s
      in (case rg_awaiting s1 rid of
            None \<Rightarrow> s1
          | Some senders \<Rightarrow>
              fold (\<lambda>rs. emit (ReplyStatus rs st)) senders
                (s1\<lparr>rg_awaiting := (rg_awaiting s1)(rid := None)\<rparr>)))"

definition handle_drop_worker_of_request :: "env \<Rightarrow> b256 \<Rightarrow> 's registry \<Rightarrow> 's registry" where
  "handle_drop_worker_of_request e rid s = (case find_worker e rid s of
       None \<Rightarrow> s
     | Some (addr, _) \<Rightarrow>
         trim_workers e
           (mod_worker addr (\<lambda>w. w\<lparr>ws_strikes := max_worker_strikes (rg_config s)\<rparr>) s))"

definition handle_strike_worker_of_request :: "env \<Rightarrow> b256 \<Rightarrow> 's registry \<Rightarrow> 's registry" where
  "handle_strike_worker_of_request e rid s = (case find_worker e rid s of
       None \<Rightarrow> s
     | Some (addr, _) \<Rightarrow> trim_workers e (mod_worker addr add_strike s))"

definition handle_proof_status_request :: "env \<Rightarrow> b256 \<Rightarrow> resp \<Rightarrow> 's registry \<Rightarrow> 's registry" where
  "handle_proof_status_request e rid rs s0 =
     (let s = trim_workers e s0 in
      case find_worker e rid s of
        None \<Rightarrow>
          (if queued rid s then emit (ReplyStatus rs (Some cps_unexecuted)) s
           else emit (ReplyStatus rs None) s)
      | Some (addr, w) \<Rightarrow>
          (if \<not> chan_open e (ws_sender w)
           then emit (ReplyStatus rs None)
                  (mod_worker addr (\<lambda>w. w\<lparr>ws_strikes := max_worker_strikes (rg_config s)\<rparr>) s)
           else (let s1 = emit (SendWorker (ws_sender w) (ProofStatusRequest rid)) s in
                 s1\<lparr>rg_awaiting := (rg_awaiting s1)(rid \<mapsto>
                       (case rg_awaiting s1 rid of Some xs \<Rightarrow> xs | None \<Rightarrow> []) @ [rs])\<rparr>)))"

section \<open>Observability\<close>

definition handle_pending_info :: "env \<Rightarrow> resp \<Rightarrow> 's registry \<Rightarrow> 's registry" where
  "handle_pending_info e rs s =
     (let oldest_secs = (case rg_pending s of
            [] \<Rightarrow> None | (_, queued_at) # _ \<Rightarrow> Some (as_secs (elapsed e queued_at)))
      in emit (ReplyPending rs (length (rg_pending s)) oldest_secs) s)"

definition handle_workers :: "env \<Rightarrow> resp \<Rightarrow> 's registry \<Rightarrow> 's registry" where
  "handle_workers e rs s = emit (ReplyWorkers rs (entries e (rg_workers s))) s"

definition handle_dead_workers :: "resp \<Rightarrow> 's registry \<Rightarrow> 's registry" where
  "handle_dead_workers rs s = emit (ReplyWorkers rs (rg_dead_workers s)) s"

definition handle_proof_history :: "resp \<Rightarrow> 's registry \<Rightarrow> 's registry" where
  "handle_proof_history rs s = emit (ReplyHistory rs (rg_proof_history s)) s"

section \<open>The event loop\<close>

datatype 's worker_registry_command =
    Cmd_AssignProofRequest "'s contemplant_proof_request"
  | Cmd_WorkerReady string string "vm_kind list" bool bool "string option" u64 chan
  | Cmd_ProofStatusRequest b256 resp
  | Cmd_ProofStatusResponse b256 "contemplant_proof_status option"
  | Cmd_ProofComplete b256
  | Cmd_ProofProgressUpdate b256 "progress_update option"
  | Cmd_PendingInfo resp
  | Cmd_Workers resp
  | Cmd_DeadWorkers resp
  | Cmd_ProofHistory resp
  | Cmd_Heartbeat string resp
  | Cmd_StrikeWorkerOfRequest b256
  | Cmd_DropWorkerOfRequest b256

fun command_name :: "'s worker_registry_command \<Rightarrow> string" where
  "command_name (Cmd_AssignProofRequest _) = ''AssignProofRequest''"
| "command_name (Cmd_WorkerReady _ _ _ _ _ _ _ _) = ''WorkerReady''"
| "command_name (Cmd_ProofComplete _) = ''ProofComplete''"
| "command_name (Cmd_ProofProgressUpdate _ _) = ''ProofProgressUpdate''"
| "command_name (Cmd_ProofStatusRequest _ _) = ''ProofStatusRequest''"
| "command_name (Cmd_ProofStatusResponse _ _) = ''ProofStatusResponse''"
| "command_name (Cmd_PendingInfo _) = ''PendingInfo''"
| "command_name (Cmd_Workers _) = ''Workers''"
| "command_name (Cmd_DeadWorkers _) = ''DeadWorkers''"
| "command_name (Cmd_ProofHistory _) = ''ProofHistory''"
| "command_name (Cmd_Heartbeat _ _) = ''Heartbeat''"
| "command_name (Cmd_StrikeWorkerOfRequest _) = ''StrikeWorkerOfRequest''"
| "command_name (Cmd_DropWorkerOfRequest _) = ''DropWorkerOfRequest''"

fun handle :: "env \<Rightarrow> 's worker_registry_command \<Rightarrow> 's registry \<Rightarrow> 's registry" where
  "handle e (Cmd_AssignProofRequest r) s = handle_assign_proof e r s"
| "handle e (Cmd_WorkerReady addr nm vms g o' magister nonce c) s =
     handle_worker_ready e addr nm vms g o' magister nonce c s"
| "handle e (Cmd_ProofComplete rid) s = handle_proof_complete e rid s"
| "handle e (Cmd_ProofProgressUpdate rid pu) s = handle_proof_progress_update e rid pu s"
| "handle e (Cmd_ProofStatusResponse rid st) s = handle_proof_status_response e rid st s"
| "handle e (Cmd_ProofStatusRequest rid rs) s = handle_proof_status_request e rid rs s"
| "handle e (Cmd_PendingInfo rs) s = handle_pending_info e rs s"
| "handle e (Cmd_Workers rs) s = handle_workers e rs s"
| "handle e (Cmd_DeadWorkers rs) s = handle_dead_workers rs s"
| "handle e (Cmd_ProofHistory rs) s = handle_proof_history rs s"
| "handle e (Cmd_Heartbeat addr rs) s = handle_heartbeat e addr rs s"
| "handle e (Cmd_StrikeWorkerOfRequest rid) s = handle_strike_worker_of_request e rid s"
| "handle e (Cmd_DropWorkerOfRequest rid) s = handle_drop_worker_of_request e rid s"

text \<open>\<^verbatim>\<open>WorkerRegistryClient::new\<close> starts the loop in this state.\<close>

definition registry_init :: "worker_registry_config \<Rightarrow> 's registry" where
  "registry_init cfg =
     \<lparr>rg_config = cfg, rg_workers = [], rg_dead_workers = [], rg_awaiting = Map.empty,
      rg_proof_history = [], rg_pending = [], rg_sent = []\<rparr>"

definition background_event_loop ::
    "(env \<times> 's worker_registry_command) list \<Rightarrow> 's registry \<Rightarrow> 's registry" where
  "background_event_loop = event_loop handle"

end
