(* ===== verification/Registry_Ops.thy ===== *)
theory Registry_Ops
  imports Registry
begin

text \<open>
  The operations of the worker registry in closed form: eviction, the outcome of an assignment
  attempt, the drained queue and the registration of a worker.
\<close>

section \<open>Frames\<close>

lemma emit_frame [simp, frame_simps]:
  "rg_config (emit x s) = rg_config s"
  "rg_workers (emit x s) = rg_workers s"
  "rg_dead_workers (emit x s) = rg_dead_workers s"
  "rg_awaiting (emit x s) = rg_awaiting s"
  "rg_proof_history (emit x s) = rg_proof_history s"
  "rg_pending (emit x s) = rg_pending s"
  "rg_sent (emit x s) = rg_sent s @ [x]"
  by (simp_all add: emit_def)

lemma mod_worker_frame [simp, frame_simps]:
  "rg_config (mod_worker a f s) = rg_config s"
  "rg_workers (mod_worker a f s) = amap_mod a f (rg_workers s)"
  "rg_dead_workers (mod_worker a f s) = rg_dead_workers s"
  "rg_awaiting (mod_worker a f s) = rg_awaiting s"
  "rg_proof_history (mod_worker a f s) = rg_proof_history s"
  "rg_pending (mod_worker a f s) = rg_pending s"
  "rg_sent (mod_worker a f s) = rg_sent s"
  by (simp_all add: mod_worker_def)

lemma fold_emit:
  "fold (\<lambda>x. emit (f x)) xs s = s\<lparr>rg_sent := rg_sent s @ map f xs\<rparr>"
  by (induction xs arbitrary: s) (simp_all add: emit_def)

section \<open>The worker of a request\<close>

definition single_owner :: "(string, worker_state) amap \<Rightarrow> bool" where
  "single_owner ws \<longleftrightarrow>
     (\<forall>(a, w) \<in> set ws. \<forall>(b, v) \<in> set ws. \<forall>rid. works_on rid w \<and> works_on rid v \<longrightarrow> a = b)"

definition wf_workers :: "(string, worker_state) amap \<Rightarrow> bool" where
  "wf_workers ws \<longleftrightarrow> amap_ok ws \<and> single_owner ws"

lemma wf_workersD [dest]: "wf_workers ws \<Longrightarrow> amap_ok ws"
  by (simp add: wf_workers_def)

lemma single_ownerD:
  "single_owner ws \<Longrightarrow> (a, w) \<in> set ws \<Longrightarrow> (b, v) \<in> set ws \<Longrightarrow> works_on rid w \<Longrightarrow> works_on rid v
   \<Longrightarrow> a = b"
  unfolding single_owner_def by blast

lemma single_ownerI:
  "(\<And>a w b v rid. (a, w) \<in> set ws \<Longrightarrow> (b, v) \<in> set ws \<Longrightarrow> works_on rid w \<Longrightarrow> works_on rid v
     \<Longrightarrow> a = b) \<Longrightarrow> single_owner ws"
  by (auto simp: single_owner_def)

lemma find_worker_SomeD:
  assumes "env_ok e" "amap_ok (rg_workers s)" "find_worker e rid s = Some (a, w)"
  shows "(a, w) \<in> set (rg_workers s)" "works_on rid w"
  using find_SomeD [OF assms(3) [unfolded find_worker_def]] set_entries [OF assms(1,2)] by auto

lemma find_worker_None_iff:
  assumes "env_ok e" "amap_ok (rg_workers s)"
  shows "find_worker e rid s = None \<longleftrightarrow> (\<forall>(a, w) \<in> set (rg_workers s). \<not> works_on rid w)"
  using set_entries [OF assms] by (auto simp: find_worker_def find_None_iff_ball)

lemma find_worker_unique:
  assumes "env_ok e" "wf_workers (rg_workers s)" "(a, w) \<in> set (rg_workers s)" "works_on rid w"
  shows "find_worker e rid s = Some (a, w)"
  unfolding find_worker_def
proof (rule find_unique)
  have ok: "amap_ok (rg_workers s)" using assms(2) by auto
  note E = set_entries [OF assms(1) ok]
  show "(a, w) \<in> set (entries e (rg_workers s))" using E assms(3) by simp
  show "case (a, w) of (_, w) \<Rightarrow> works_on rid w" using assms(4) by simp
  fix y assume "y \<in> set (entries e (rg_workers s))" "case y of (_, w) \<Rightarrow> works_on rid w"
  then obtain b v where y: "y = (b, v)" "(b, v) \<in> set (rg_workers s)" "works_on rid v"
    using E by (cases y) auto
  have "b = a"
    using assms(2) y(2,3) assms(3,4) by (auto simp: wf_workers_def dest: single_ownerD)
  then show "y = (a, w)" using amap_ok_unique [OF ok assms(3)] y by auto
qed

text \<open>Changes of one worker that take no new request keep the single owner.\<close>

lemma single_owner_sub:
  assumes "single_owner ws"
    and "\<And>a w rid. (a, w) \<in> set ws' \<Longrightarrow> works_on rid w \<Longrightarrow> \<exists>v. (a, v) \<in> set ws \<and> works_on rid v"
  shows "single_owner ws'"
  using assms by (intro single_ownerI) (meson single_ownerD)

lemma wf_workers_mod:
  assumes "wf_workers ws" "\<And>w rid. (a, w) \<in> set ws \<Longrightarrow> works_on rid (f w) \<Longrightarrow> works_on rid w"
  shows "wf_workers (amap_mod a f ws)"
proof -
  have "single_owner (amap_mod a f ws)"
  proof (rule single_owner_sub [of ws])
    fix b w rid assume "(b, w) \<in> set (amap_mod a f ws)" "works_on rid w"
    then show "\<exists>v. (b, v) \<in> set ws \<and> works_on rid v"
      using assms(2) by (auto simp: in_amap_mod)
  qed (use assms(1) in \<open>simp add: wf_workers_def\<close>)
  then show ?thesis using assms(1) by (simp add: wf_workers_def)
qed

lemma wf_workers_filter: "wf_workers ws \<Longrightarrow> wf_workers (filter P ws)"
  unfolding wf_workers_def by (auto intro!: single_owner_sub [of ws])

lemma wf_workers_remove: "wf_workers ws \<Longrightarrow> wf_workers (amap_remove k ws)"
  by (simp add: amap_remove_def wf_workers_filter)

section \<open>Eviction in closed form\<close>

definition magister_deletes :: "(string \<times> worker_state) list \<Rightarrow> 's effect list" where
  "magister_deletes L = concat (map (\<lambda>(_, w). case ws_magister_drop_endpoint w of
     Some ep \<Rightarrow> [MagisterDelete ep] | None \<Rightarrow> []) L)"

lemma remove_dead_eq:
  assumes "map_of (rg_workers s) a = Some w"
  shows "remove_dead a s =
     s\<lparr>rg_workers := amap_remove a (rg_workers s),
       rg_dead_workers := rg_dead_workers s @ [(a, w)],
       rg_sent := rg_sent s @ magister_deletes [(a, w)]\<rparr>"
  using assms by (simp add: remove_dead_def magister_deletes_def emit_def split: option.split)

lemma fold_remove_dead:
  assumes "distinct (map fst L)" "amap_ok (rg_workers s)" "set L \<subseteq> set (rg_workers s)"
  shows "fold remove_dead (map fst L) s =
     s\<lparr>rg_workers := filter (\<lambda>p. fst p \<notin> fst ` set L) (rg_workers s),
       rg_dead_workers := rg_dead_workers s @ L,
       rg_sent := rg_sent s @ magister_deletes L\<rparr>"
  using assms
proof (induction L arbitrary: s)
  case Nil
  show ?case by (simp add: magister_deletes_def)
next
  case (Cons p L)
  obtain a w where p: "p = (a, w)" by (cases p)
  have m: "map_of (rg_workers s) a = Some w" using Cons.prems p by (simp add: amap_get_iff)
  define s1 where "s1 = remove_dead a s"
  note s1 = s1_def [unfolded remove_dead_eq [OF m]]
  have "set L \<subseteq> set (rg_workers s1)" using Cons.prems p by (force simp: s1)
  moreover have "amap_ok (rg_workers s1)" using Cons.prems by (simp add: s1)
  ultimately have "fold remove_dead (map fst L) s1 =
     s1\<lparr>rg_workers := filter (\<lambda>p. fst p \<notin> fst ` set L) (rg_workers s1),
       rg_dead_workers := rg_dead_workers s1 @ L,
       rg_sent := rg_sent s1 @ magister_deletes L\<rparr>"
    using Cons.IH [of s1] Cons.prems(1) by simp
  then show ?case
    by (simp add: p s1_def [symmetric]) (simp add: s1 amap_remove_def magister_deletes_def conj_commute)
qed

lemma trim_workers_eq:
  assumes "env_ok e" "amap_ok (rg_workers s)"
  defines "L \<equiv> filter (\<lambda>(_, w). should_drop e (rg_config s) w) (entries e (rg_workers s))"
  shows "trim_workers e s =
     s\<lparr>rg_workers := filter (\<lambda>(_, w). \<not> should_drop e (rg_config s) w) (rg_workers s),
       rg_dead_workers := rg_dead_workers s @ L,
       rg_sent := rg_sent s @ magister_deletes L\<rparr>"
proof -
  note E = set_entries [OF assms(1,2)]
  have d: "distinct (map fst L)"
    using assms(1,2) unfolding L_def
    by (intro distinct_map_filter) (simp add: keys_entries env_ok_def amap_ok_def)
  have sub: "set L \<subseteq> set (rg_workers s)" using E by (auto simp: L_def)
  have "fst p \<notin> fst ` set L \<longleftrightarrow> (\<lambda>(_, w). \<not> should_drop e (rg_config s) w) p"
    if "p \<in> set (rg_workers s)" for p
  proof (cases p)
    case (Pair a w)
    have "a \<in> fst ` set L \<longleftrightarrow> (\<exists>v. (a, v) \<in> set (rg_workers s) \<and> should_drop e (rg_config s) v)"
      using E by (force simp: L_def)
    also have "\<dots> \<longleftrightarrow> should_drop e (rg_config s) w"
      using that amap_ok_unique [OF assms(2)] Pair by blast
    finally show ?thesis using Pair by simp
  qed
  then have "filter (\<lambda>p. fst p \<notin> fst ` set L) (rg_workers s) =
      filter (\<lambda>(_, w). \<not> should_drop e (rg_config s) w) (rg_workers s)"
    by (intro filter_cong) auto
  with fold_remove_dead [OF d assms(2) sub] show ?thesis
    by (simp add: trim_workers_def L_def)
qed

lemma trim_frame [simp, frame_simps]:
  "rg_config (trim_workers e s) = rg_config s"
  "rg_awaiting (trim_workers e s) = rg_awaiting s"
  "rg_proof_history (trim_workers e s) = rg_proof_history s"
  "rg_pending (trim_workers e s) = rg_pending s"
proof -
  have *: "rg_config (remove_dead a s) = rg_config s \<and> rg_awaiting (remove_dead a s) = rg_awaiting s \<and>
    rg_proof_history (remove_dead a s) = rg_proof_history s \<and> rg_pending (remove_dead a s) = rg_pending s"
    for a and s :: "'a registry"
    by (auto simp: remove_dead_def Let_def split: option.split)
  have "rg_config (fold remove_dead as s) = rg_config s \<and>
    rg_awaiting (fold remove_dead as s) = rg_awaiting s \<and>
    rg_proof_history (fold remove_dead as s) = rg_proof_history s \<and>
    rg_pending (fold remove_dead as s) = rg_pending s" for as
    by (induction as arbitrary: s) (simp_all add: *)
  then show "rg_config (trim_workers e s) = rg_config s"
    "rg_awaiting (trim_workers e s) = rg_awaiting s"
    "rg_proof_history (trim_workers e s) = rg_proof_history s"
    "rg_pending (trim_workers e s) = rg_pending s"
    by (simp_all add: trim_workers_def)
qed

lemma trim_workers_set:
  assumes "env_ok e" "amap_ok (rg_workers s)"
  shows "set (rg_workers (trim_workers e s)) =
    {(a, w). (a, w) \<in> set (rg_workers s) \<and> \<not> should_drop e (rg_config s) w}"
  using assms by (auto simp: trim_workers_eq)

lemma trim_wf:
  "env_ok e \<Longrightarrow> wf_workers (rg_workers s) \<Longrightarrow> wf_workers (rg_workers (trim_workers e s))"
  by (simp add: trim_workers_eq wf_workersD wf_workers_filter)

section \<open>Assignment in closed form\<close>

text \<open>
  An assignment attempt only strikes idle workers and makes idle workers busy: identity,
  capabilities and the work of busy workers stay.
\<close>

definition wmono :: "worker_state \<Rightarrow> worker_state \<Rightarrow> bool" where
  "wmono w v \<longleftrightarrow> ws_capabilities v = ws_capabilities w \<and> ws_sender v = ws_sender w \<and>
     ws_name v = ws_name w \<and> ws_magister_drop_endpoint v = ws_magister_drop_endpoint w \<and>
     ws_instance_nonce v = ws_instance_nonce w \<and> ws_last_heartbeat v = ws_last_heartbeat w \<and>
     (is_busy w \<longrightarrow> ws_status v = ws_status w)"

definition wsmono :: "(string, worker_state) amap \<Rightarrow> (string, worker_state) amap \<Rightarrow> bool" where
  "wsmono ws vs \<longleftrightarrow> list_all2 (\<lambda>(a, w) (b, v). a = b \<and> wmono w v) ws vs"

lemma wmono_refl [simp]: "wmono w w"
  by (simp add: wmono_def)

lemma wmono_trans: "wmono u v \<Longrightarrow> wmono v w \<Longrightarrow> wmono u w"
  by (auto simp: wmono_def is_busy_def)

lemma wmono_strike [simp]: "wmono w (add_strike w)"
  by (simp add: wmono_def add_strike_def)

lemma wmono_assigned: "\<not> is_busy w \<Longrightarrow> wmono w (assigned_proof e rid vm m w)"
  by (simp add: wmono_def assigned_proof_def)

lemma wmono_works_on: "wmono w v \<Longrightarrow> works_on rid w \<Longrightarrow> works_on rid v"
  by (auto simp: wmono_def works_on_def is_busy_def split: worker_status.splits)

lemma wmono_can_serve: "wmono w v \<Longrightarrow> can_serve r v = can_serve r w"
  by (simp add: wmono_def can_serve_def supports_def)

lemma wsmono_refl [simp]: "wsmono ws ws"
  by (auto simp: wsmono_def intro: list.rel_refl)

lemma wsmono_trans: "wsmono us vs \<Longrightarrow> wsmono vs ws \<Longrightarrow> wsmono us ws"
  unfolding wsmono_def
  by (rule list_all2_trans [of "\<lambda>(a, w) (b, v). a = b \<and> wmono w v"
        "\<lambda>(a, w) (b, v). a = b \<and> wmono w v"]) (auto intro: wmono_trans)

lemma wsmono_keys: "wsmono ws vs \<Longrightarrow> map fst vs = map fst ws"
  unfolding wsmono_def by (induction rule: list_all2_induct) auto

lemma wsmono_amap_ok: "wsmono ws vs \<Longrightarrow> amap_ok vs = amap_ok ws"
  by (simp add: amap_ok_def wsmono_keys)

lemma wsmono_bwd: "wsmono ws vs \<Longrightarrow> (a, v) \<in> set vs \<Longrightarrow> \<exists>w. (a, w) \<in> set ws \<and> wmono w v"
  unfolding wsmono_def by (induction rule: list_all2_induct) auto

lemma wsmono_fwd: "wsmono ws vs \<Longrightarrow> (a, w) \<in> set ws \<Longrightarrow> \<exists>v. (a, v) \<in> set vs \<and> wmono w v"
  unfolding wsmono_def by (induction rule: list_all2_induct) auto

lemma wsmono_mod:
  "(\<And>w. (a, w) \<in> set ws \<Longrightarrow> wmono w (f w)) \<Longrightarrow> wsmono ws (amap_mod a f ws)"
  by (induction ws) (auto simp: wsmono_def amap_mod_def split: if_splits)

definition strike_all :: "string list \<Rightarrow> (string, worker_state) amap \<Rightarrow> (string, worker_state) amap" where
  "strike_all as ws = fold (\<lambda>a. amap_mod a add_strike) as ws"

lemma strike_all_simps [simp]:
  "strike_all [] ws = ws"
  "strike_all (a # as) ws = strike_all as (amap_mod a add_strike ws)"
  by (simp_all add: strike_all_def)

lemma wsmono_strike_all: "wsmono ws (strike_all as ws)"
proof (induction as arbitrary: ws)
  case (Cons a as)
  have "wsmono ws (amap_mod a add_strike ws)" by (rule wsmono_mod) simp
  with Cons.IH show ?case by (auto intro: wsmono_trans)
qed simp

lemma wf_strike_all: "wf_workers ws \<Longrightarrow> wf_workers (strike_all as ws)"
proof (induction as arbitrary: ws)
  case (Cons a as)
  have "wf_workers (amap_mod a add_strike ws)" by (rule wf_workers_mod [OF Cons.prems]) simp
  with Cons.IH show ?case by simp
qed simp

lemma strike_all_status:
  "(a, u) \<in> set (strike_all as ws) \<Longrightarrow> \<exists>w. (a, w) \<in> set ws \<and> ws_status u = ws_status w"
proof (induction as arbitrary: ws)
  case (Cons b as)
  then obtain v where "(a, v) \<in> set (amap_mod b add_strike ws)" "ws_status u = ws_status v"
    by (metis strike_all_simps(2))
  then show ?case by (auto simp: in_amap_mod)
qed auto

lemma keys_strike_all [simp]: "fst ` set (strike_all as ws) = fst ` set ws"
  by (induction as arbitrary: ws) auto

lemma in_strike_all_other:
  "a \<notin> set as \<Longrightarrow> (a, w) \<in> set (strike_all as ws) \<longleftrightarrow> (a, w) \<in> set ws"
  by (induction as arbitrary: ws) (auto simp: in_amap_mod)

text \<open>
  The outcome of offering a request to candidate addresses. Either every candidate refused the
  message and was struck, or the first candidate with an open channel got it, after those before
  it were struck.
\<close>

inductive offer ::
    "env \<Rightarrow> 's contemplant_proof_request \<Rightarrow> string list \<Rightarrow> 's registry \<Rightarrow> bool \<times> 's registry \<Rightarrow> bool"
  for e r cs s where
  refused: "(\<And>a w. (a, w) \<in> set (rg_workers s) \<Longrightarrow> a \<in> set cs \<Longrightarrow> \<not> chan_open e (ws_sender w)) \<Longrightarrow>
    offer e r cs s (False, s\<lparr>rg_workers := strike_all cs (rg_workers s)\<rparr>)"
| placed: "cs = pre @ a # post \<Longrightarrow> (a, w) \<in> set (rg_workers s) \<Longrightarrow> chan_open e (ws_sender w) \<Longrightarrow>
    (\<And>b v. (b, v) \<in> set (rg_workers s) \<Longrightarrow> b \<in> set pre \<Longrightarrow> \<not> chan_open e (ws_sender v)) \<Longrightarrow>
    offer e r cs s (True,
      s\<lparr>rg_sent := rg_sent s @ [SendWorker (ws_sender w) (ProofRequest r)],
        rg_workers := amap_mod a (assigned_proof e (request_id r) (request_vm r) (mode_name r))
                       (strike_all pre (rg_workers s))\<rparr>)"

inductive_cases offer_refusedE: "offer e r cs s (False, s')"
inductive_cases offer_placedE: "offer e r cs s (True, s')"

lemma offer_struck:
  assumes "offer e r cs (mod_worker c add_strike s) res" "c \<notin> set cs"
    and "\<And>v. (c, v) \<in> set (rg_workers s) \<Longrightarrow> \<not> chan_open e (ws_sender v)"
  shows "offer e r (c # cs) s res"
  using assms(1)
proof cases
  case refused
  have "\<not> chan_open e (ws_sender w)" if "(a, w) \<in> set (rg_workers s)" "a \<in> set (c # cs)" for a w
    using that refused(2) [of a w] assms(3) by (cases "a = c") (auto simp: in_amap_mod)
  from offer.refused [of s "c # cs" e r, OF this] show ?thesis
    by (simp add: refused(1) mod_worker_def)
next
  case (placed pre a post w)
  have "c \<noteq> a" using placed(2) assms(2) by auto
  then have a: "(a, w) \<in> set (rg_workers s)" using placed(3) by (auto simp: in_amap_mod)
  have p: "\<not> chan_open e (ws_sender v)" if "(b, v) \<in> set (rg_workers s)" "b \<in> set (c # pre)" for b v
    using that placed(5) [of b v] assms(3) by (cases "b = c") (auto simp: in_amap_mod)
  have "c # cs = (c # pre) @ a # post" using placed(2) by simp
  from offer.placed [of "c # cs" "c # pre" a post w s e r, OF this a placed(4) p] show ?thesis
    by (simp add: placed(1) mod_worker_def)
qed

lemma try_candidates_offer:
  assumes "amap_ok (rg_workers s)" "distinct cs" "set cs \<subseteq> fst ` set (rg_workers s)"
  shows "offer e r cs s (try_candidates e r cs s)"
  using assms
proof (induction cs arbitrary: s)
  case Nil
  have "offer e r [] s (False, s\<lparr>rg_workers := strike_all [] (rg_workers s)\<rparr>)"
    by (rule offer.refused) simp
  then show ?case by simp
next
  case (Cons c cs)
  then obtain w where w: "(c, w) \<in> set (rg_workers s)" by auto
  then have m: "map_of (rg_workers s) c = Some w" using Cons.prems by (simp add: amap_get_iff)
  have uniq: "\<And>v. (c, v) \<in> set (rg_workers s) \<Longrightarrow> v = w"
    using amap_ok_unique [OF Cons.prems(1)] w by blast
  show ?case
  proof (cases "chan_open e (ws_sender w)")
    case True
    from offer.placed [of "c # cs" "[]" c cs w s e r, OF _ w True] show ?thesis
      using True by (simp add: m mod_worker_def emit_def)
  next
    case False
    have "offer e r cs (mod_worker c add_strike s) (try_candidates e r cs (mod_worker c add_strike s))"
      using Cons.prems by (intro Cons.IH) auto
    then have "offer e r (c # cs) s (try_candidates e r cs (mod_worker c add_strike s))"
      using Cons.prems False uniq by (intro offer_struck) auto
    then show ?thesis using False m by simp
  qed
qed

lemma set_candidates:
  assumes "env_ok e" "amap_ok (rg_workers s)"
  shows "a \<in> set (candidates e r s) \<longleftrightarrow>
           (\<exists>w. (a, w) \<in> set (rg_workers s) \<and> can_serve r w \<and> \<not> is_busy w)"
  using set_entries [OF assms] by (auto simp: candidates_def is_busy_def image_iff Let_def)

lemma distinct_candidates:
  assumes "env_ok e" "amap_ok (rg_workers s)"
  shows "distinct (candidates e r s)"
proof -
  have d: "distinct (map fst (entries e (rg_workers s)))"
    using assms by (simp add: keys_entries env_ok_def amap_ok_def)
  then show ?thesis
    by (auto simp: candidates_def Let_def distinct_map_filter dest: distinct_map_unique)
qed

text \<open>In the candidate list, a worker hot for the machine never follows a cold one.\<close>

lemma candidates_hot_first:
  assumes "env_ok e" "amap_ok (rg_workers s)" "candidates e r s = pre @ a # post"
    and "(a, w) \<in> set (rg_workers s)" "ws_last_vm w \<noteq> Some (request_vm r)"
    and "(b, v) \<in> set (rg_workers s)" "b \<in> set post"
  shows "ws_last_vm v \<noteq> Some (request_vm r)"
proof
  assume hot: "ws_last_vm v = Some (request_vm r)"
  let ?able = "filter (\<lambda>(_, w). can_serve r w \<and> ws_status w = Idle) (entries e (rg_workers s))"
  let ?h = "map fst (filter (\<lambda>(_, w). ws_last_vm w = Some (request_vm r)) ?able)"
  let ?c = "map fst (filter (\<lambda>(_, w). ws_last_vm w \<noteq> Some (request_vm r)) ?able)"
  note E = set_entries [OF assms(1,2)]
  have "a \<notin> set ?h" "b \<notin> set ?c"
    using E assms(4-6) hot by (auto dest: amap_ok_unique [OF assms(2)])
  moreover have "?h @ ?c = pre @ a # post" using assms(3) by (simp add: candidates_def Let_def)
  ultimately show False
    using append_split_suffix [of ?h ?c pre a post b] assms(7) by blast
qed

lemma try_assign_cases:
  assumes "env_ok e" "amap_ok (rg_workers s)"
  obtains
    (already) a w where "(a, w) \<in> set (rg_workers s)" "works_on (request_id r) w"
      "try_assign e r s = (True, s)"
  | (placed) a w pre where "\<And>b v. (b, v) \<in> set (rg_workers s) \<Longrightarrow> \<not> works_on (request_id r) v"
      "(a, w) \<in> set (rg_workers s)" "\<not> is_busy w" "can_serve r w" "chan_open e (ws_sender w)"
      "a \<notin> set pre"
      "ws_last_vm w = Some (request_vm r) \<or>
        (\<forall>(b, v) \<in> set (rg_workers s). can_serve r v \<and> \<not> is_busy v \<and> chan_open e (ws_sender v) \<longrightarrow>
          ws_last_vm v \<noteq> Some (request_vm r))"
      "try_assign e r s = (True,
        s\<lparr>rg_sent := rg_sent s @ [SendWorker (ws_sender w) (ProofRequest r)],
          rg_workers := amap_mod a (assigned_proof e (request_id r) (request_vm r) (mode_name r))
                       (strike_all pre (rg_workers s))\<rparr>)"
      "\<And>b v. (b, v) \<in> set (rg_workers s) \<Longrightarrow> b \<in> set pre \<Longrightarrow>
         \<not> is_busy v \<and> \<not> chan_open e (ws_sender v)"
  | (refused) "\<And>b v. (b, v) \<in> set (rg_workers s) \<Longrightarrow> \<not> works_on (request_id r) v"
      "\<And>b v. (b, v) \<in> set (rg_workers s) \<Longrightarrow> can_serve r v \<Longrightarrow> \<not> is_busy v \<Longrightarrow>
         \<not> chan_open e (ws_sender v)"
      "try_assign e r s =
         (False, s\<lparr>rg_workers := strike_all (candidates e r s) (rg_workers s)\<rparr>)"
proof (cases "\<exists>(_, w) \<in> set (entries e (rg_workers s)). works_on (request_id r) w")
  case True
  then obtain a w where aw: "(a, w) \<in> set (rg_workers s)" "works_on (request_id r) w"
    using set_entries [OF assms] by auto
  have "try_assign e r s = (True, s)" using True by (simp add: try_assign_def)
  with aw show ?thesis by (rule already)
next
  case False
  then have none: "\<not> works_on (request_id r) v" if "(b, v) \<in> set (rg_workers s)" for b v
    using that set_entries [OF assms] by auto
  have eq: "try_assign e r s = try_candidates e r (candidates e r s) s"
    using False by (simp add: try_assign_def)
  note uniq = amap_ok_unique [OF assms(2)]
  have "set (candidates e r s) \<subseteq> fst ` set (rg_workers s)"
    using set_candidates [OF assms] by force
  from try_candidates_offer [OF assms(2) distinct_candidates [OF assms] this, of e r]
  show ?thesis
  proof cases
    case rf: refused
    show ?thesis
    proof (rule refused [OF none])
      show "\<not> chan_open e (ws_sender v)"
        if "(b, v) \<in> set (rg_workers s)" "can_serve r v" "\<not> is_busy v" for b v
        using rf(2) [of b v] set_candidates [OF assms, of b r] that by auto
      show "try_assign e r s =
          (False, s\<lparr>rg_workers := strike_all (candidates e r s) (rg_workers s)\<rparr>)"
        unfolding eq by (rule rf(1))
    qed
  next
    case pl: (placed pre a post w)
    have a: "can_serve r w" "\<not> is_busy w"
      using set_candidates [OF assms, of a r] pl(2,3) uniq by auto
    have pre: "a \<notin> set pre" using distinct_candidates [OF assms, of r] pl(2) by auto
    have hot: "ws_last_vm v \<noteq> Some (request_vm r)"
      if "ws_last_vm w \<noteq> Some (request_vm r)" "(b, v) \<in> set (rg_workers s)" "can_serve r v"
        "\<not> is_busy v" "chan_open e (ws_sender v)" for b v
    proof -
      have "b \<in> set (pre @ a # post)" using set_candidates [OF assms, of b r] that pl(2) by auto
      then consider "b \<in> set pre" | "b = a" | "b \<in> set post" by auto
      then show ?thesis
      proof cases
        case 1 then show ?thesis using pl(5) that by auto
      next
        case 2 then show ?thesis using that pl(3) uniq by auto
      next
        case 3 then show ?thesis using candidates_hot_first [OF assms pl(2,3)] that by auto
      qed
    qed
    have idle: "\<not> is_busy v \<and> \<not> chan_open e (ws_sender v)"
      if bv: "(b, v) \<in> set (rg_workers s)" "b \<in> set pre" for b v
    proof -
      obtain x where "(b, x) \<in> set (rg_workers s)" "\<not> is_busy x"
        using bv(2) pl(2) set_candidates [OF assms, of b r] by auto
      then show ?thesis using uniq [OF bv(1)] pl(5) [OF bv] by auto
    qed
    show ?thesis
      by (rule placed [OF none pl(3) a(2) a(1) pl(4) pre _ _ idle]) (use hot pl(1) eq in auto)
  qed
qed

lemma try_assign_frame:
  assumes "env_ok e" "amap_ok (rg_workers s)" "try_assign e r s = (ok, s')"
  shows "rg_config s' = rg_config s" "rg_dead_workers s' = rg_dead_workers s"
    "rg_awaiting s' = rg_awaiting s" "rg_proof_history s' = rg_proof_history s"
    "rg_pending s' = rg_pending s"
  by (cases rule: try_assign_cases [OF assms(1,2), of r]; use assms(3) in auto)+

lemma wmono_assigned_at:
  assumes "amap_ok ws" "(a, w) \<in> set ws" "\<not> is_busy w"
  shows "wsmono ws (amap_mod a (assigned_proof e rid vm m) (strike_all pre ws))"
proof -
  have "wmono u (assigned_proof e rid vm m u)" if "(a, u) \<in> set (strike_all pre ws)" for u
  proof -
    from strike_all_status [OF that] obtain x where "(a, x) \<in> set ws" "ws_status u = ws_status x" by blast
    with assms have "\<not> is_busy u" by (auto simp: is_busy_def dest: amap_ok_unique)
    then show ?thesis by (rule wmono_assigned)
  qed
  then show ?thesis by (blast intro: wsmono_trans [OF wsmono_strike_all wsmono_mod])
qed

lemma try_assign_wsmono:
  assumes "env_ok e" "amap_ok (rg_workers s)" "try_assign e r s = (ok, s')"
  shows "wsmono (rg_workers s) (rg_workers s')"
using assms(1,2)
proof (cases rule: try_assign_cases [where r = r])
  case (placed a w pre)
  then show ?thesis using assms(2,3) wmono_assigned_at [OF assms(2), of a w] by auto
qed (use assms(3) wsmono_strike_all in auto)

lemma try_assign_works_on:
  assumes "env_ok e" "amap_ok (rg_workers s)" "try_assign e r s = (ok, s')"
    and "(a, w) \<in> set (rg_workers s')" "works_on rid w"
  shows "(\<exists>v. (a, v) \<in> set (rg_workers s) \<and> works_on rid v) \<or> rid = request_id r"
proof -
  have st: "\<exists>v. (a, v) \<in> set (rg_workers s) \<and> works_on rid v"
    if "(a, u) \<in> set (strike_all as (rg_workers s))" "works_on rid u" for as u
    using strike_all_status [OF that(1)] that(2) by (auto simp: works_on_def)
  show ?thesis
    by (cases rule: try_assign_cases [OF assms(1,2), of r]; use assms(3-5) st in \<open>auto simp: in_amap_mod\<close>)
qed

lemma try_assign_wf:
  assumes "env_ok e" "wf_workers (rg_workers s)" "try_assign e r s = (ok, s')"
  shows "wf_workers (rg_workers s')"
proof -
  have ok: "amap_ok (rg_workers s)" using assms(2) by auto
  from assms(1) ok show ?thesis
  proof (cases rule: try_assign_cases [where r = r])
    case (placed a w pre)
    let ?ws = "strike_all pre (rg_workers s)"
    have none: "\<not> works_on (request_id r) v" if "(b, v) \<in> set ?ws" for b v
      using strike_all_status [OF that] placed(1) by (auto simp: works_on_def)
    have wf: "wf_workers ?ws" by (rule wf_strike_all [OF assms(2)])
    have "single_owner (rg_workers s')"
    proof (rule single_ownerI)
      fix b v c u rid
      assume "(b, v) \<in> set (rg_workers s')" "(c, u) \<in> set (rg_workers s')"
        "works_on rid v" "works_on rid u"
      then show "b = c"
        using assms(3) placed(8) none wf unfolding wf_workers_def
        by (auto simp: in_amap_mod dest: single_ownerD)
    qed
    moreover have "amap_ok (rg_workers s')"
      using assms(3) placed(8) wf by (auto simp: wf_workers_def)
    ultimately show ?thesis by (simp add: wf_workers_def)
  qed (use assms(2,3) wf_strike_all in auto)
qed

lemma try_assign_True:
  assumes "env_ok e" "amap_ok (rg_workers s)" "try_assign e r s = (True, s')"
  shows "\<exists>(a, w) \<in> set (rg_workers s'). works_on (request_id r) w"
using assms(1,2)
proof (cases rule: try_assign_cases [where r = r])
  case (placed a w pre)
  have "(a, w) \<in> set (strike_all pre (rg_workers s))"
    using in_strike_all_other [OF placed(6)] placed(2) by blast
  then have "(a, assigned_proof e (request_id r) (request_vm r) (mode_name r) w) \<in> set (rg_workers s')"
    using assms(3) placed(8) by (auto simp: in_amap_mod)
  then show ?thesis by (rule bexI [rotated]) simp
qed (use assms(3) in auto)

definition no_capacity :: "env \<Rightarrow> 's contemplant_proof_request \<Rightarrow> (string, worker_state) amap \<Rightarrow> bool" where
  "no_capacity e r ws \<longleftrightarrow>
     (\<forall>(a, w) \<in> set ws. can_serve r w \<and> chan_open e (ws_sender w) \<longrightarrow> is_busy w)"

lemma no_capacity_mono: "no_capacity e r ws \<Longrightarrow> wsmono ws vs \<Longrightarrow> no_capacity e r vs"
  unfolding no_capacity_def
  by (clarsimp, drule (1) wsmono_bwd) (auto simp: wmono_can_serve, auto simp: wmono_def is_busy_def)

lemma try_assign_False:
  assumes "env_ok e" "amap_ok (rg_workers s)" "try_assign e r s = (False, s')"
  shows "no_capacity e r (rg_workers s)" "rg_sent s' = rg_sent s"
    "\<And>a w. (a, w) \<in> set (rg_workers s) \<Longrightarrow> \<not> works_on (request_id r) w"
  by (cases rule: try_assign_cases [OF assms(1,2), of r];
      use assms(3) in \<open>auto simp: no_capacity_def\<close>)+

lemma no_capacity_not_placed:
  assumes "env_ok e" "amap_ok (rg_workers s)" "try_assign e r s = (True, s')"
    "no_capacity e r (rg_workers s)"
  shows "s' = s \<and> (\<exists>(a, w) \<in> set (rg_workers s). works_on (request_id r) w)"
  by (cases rule: try_assign_cases [OF assms(1,2), of r];
      use assms(3,4) in \<open>auto simp: no_capacity_def\<close>)

section \<open>Draining the queue\<close>

definition rids :: "('s contemplant_proof_request \<times> instant) list \<Rightarrow> b256 list" where
  "rids q = map (\<lambda>(r, _). request_id r) q"

lemma rids_simps [simp]:
  "rids [] = []"
  "rids ((r, t) # q) = request_id r # rids q"
  "rids (p @ q) = rids p @ rids q"
  by (simp_all add: rids_def)

lemma in_rids: "rid \<in> set (rids q) \<longleftrightarrow> (\<exists>(r, t) \<in> set q. request_id r = rid)"
  by (force simp: rids_def)

text \<open>What draining \<open>q\<close> into \<open>s'\<close> leaves behind: the entries \<open>ps\<close>, in their old order.\<close>

definition drained ::
    "env \<Rightarrow> ('s contemplant_proof_request \<times> instant) list \<Rightarrow> 's registry \<Rightarrow>
     ('s contemplant_proof_request \<times> instant) list \<Rightarrow> 's registry \<Rightarrow> bool" where
  "drained e q s ps s' \<longleftrightarrow>
     subseq ps q \<and> wsmono (rg_workers s) (rg_workers s') \<and> wf_workers (rg_workers s') \<and>
     rg_config s' = rg_config s \<and> rg_dead_workers s' = rg_dead_workers s \<and>
     rg_awaiting s' = rg_awaiting s \<and> rg_proof_history s' = rg_proof_history s \<and>
     (\<forall>(r, t) \<in> set q. (r, t) \<in> set ps \<or> (\<exists>(a, w) \<in> set (rg_workers s'). works_on (request_id r) w)) \<and>
     (\<forall>(r, t) \<in> set ps. no_capacity e r (rg_workers s')) \<and>
     (distinct (rids q) \<longrightarrow>
       (\<forall>(a, w) \<in> set (rg_workers s'). \<forall>rid. works_on rid w \<longrightarrow>
         (\<exists>v. (a, v) \<in> set (rg_workers s) \<and> works_on rid v) \<or> rid \<in> set (rids q) - set (rids ps)))"

lemma drainedD:
  assumes "drained e q s ps s'"
  shows "subseq ps q" "wsmono (rg_workers s) (rg_workers s')" "wf_workers (rg_workers s')"
    "rg_config s' = rg_config s" "rg_dead_workers s' = rg_dead_workers s"
    "rg_awaiting s' = rg_awaiting s" "rg_proof_history s' = rg_proof_history s"
    "\<And>r t. (r, t) \<in> set q \<Longrightarrow>
       (r, t) \<in> set ps \<or> (\<exists>(a, w) \<in> set (rg_workers s'). works_on (request_id r) w)"
    "\<And>r t. (r, t) \<in> set ps \<Longrightarrow> no_capacity e r (rg_workers s')"
    "\<And>a w rid. distinct (rids q) \<Longrightarrow> (a, w) \<in> set (rg_workers s') \<Longrightarrow> works_on rid w \<Longrightarrow>
       (\<exists>v. (a, v) \<in> set (rg_workers s) \<and> works_on rid v) \<or> rid \<in> set (rids q) - set (rids ps)"
  using assms unfolding drained_def by (blast+)

lemma drainedI:
  assumes "subseq ps q" "wsmono (rg_workers s) (rg_workers s')" "wf_workers (rg_workers s')"
    "rg_config s' = rg_config s" "rg_dead_workers s' = rg_dead_workers s"
    "rg_awaiting s' = rg_awaiting s" "rg_proof_history s' = rg_proof_history s"
    "\<And>r t. (r, t) \<in> set q \<Longrightarrow>
       (r, t) \<in> set ps \<or> (\<exists>(a, w) \<in> set (rg_workers s'). works_on (request_id r) w)"
    "\<And>r t. (r, t) \<in> set ps \<Longrightarrow> no_capacity e r (rg_workers s')"
    "\<And>a w rid. distinct (rids q) \<Longrightarrow> (a, w) \<in> set (rg_workers s') \<Longrightarrow> works_on rid w \<Longrightarrow>
       (\<exists>v. (a, v) \<in> set (rg_workers s) \<and> works_on rid v) \<or> rid \<in> set (rids q) - set (rids ps)"
  shows "drained e q s ps s'"
  using assms unfolding drained_def by blast

lemma rids_subseq: "subseq ps q \<Longrightarrow> set (rids ps) \<subseteq> set (rids q)"
  by (induction rule: list_emb.induct) auto

lemma works_on_wsmono:
  "wsmono ws vs \<Longrightarrow> (\<exists>(a, w) \<in> set ws. works_on rid w) \<Longrightarrow> (\<exists>(a, w) \<in> set vs. works_on rid w)"
  using wsmono_fwd wmono_works_on by blast

lemma drained_assigned:
  assumes e: "env_ok e" "wf_workers (rg_workers s)" and t: "try_assign e r s = (True, s1)"
    and d: "drained e q s1 ps s'"
  shows "drained e ((r, t') # q) s ps s'"
proof -
  have ok: "amap_ok (rg_workers s)" using e by auto
  note f = try_assign_frame [OF e(1) ok t] and w = try_assign_wsmono [OF e(1) ok t]
  note D = drainedD [OF d]
  have r: "\<exists>(a, w) \<in> set (rg_workers s'). works_on (request_id r) w"
    using works_on_wsmono [OF D(2) try_assign_True [OF e(1) ok t]] .
  have new: "(\<exists>v. (a, v) \<in> set (rg_workers s) \<and> works_on rid v) \<or>
      rid \<in> set (rids ((r, t') # q)) - set (rids ps)"
    if "distinct (rids ((r, t') # q))" "(a, w) \<in> set (rg_workers s')" "works_on rid w" for a w rid
    using D(10) [of a w rid] that try_assign_works_on [OF e(1) ok t, of a _ rid] rids_subseq [OF D(1)]
    by auto
  show ?thesis
  proof (rule drainedI)
    show "subseq ps ((r, t') # q)" using D(1) by (rule list_emb_Cons)
    show "wsmono (rg_workers s) (rg_workers s')" by (rule wsmono_trans [OF w D(2)])
    show "(r', t) \<in> set ps \<or> (\<exists>(a, w) \<in> set (rg_workers s'). works_on (request_id r') w)"
      if "(r', t) \<in> set ((r, t') # q)" for r' t
      using that D(8) r by auto
  qed (use D(3,4,5,6,7,9) f new in \<open>simp_all\<close>)
qed

lemma drained_kept:
  assumes e: "env_ok e" "wf_workers (rg_workers s)" and t: "try_assign e r s = (False, s1)"
    and d: "drained e q s1 ps s'"
  shows "drained e ((r, t') # q) s ((r, t') # ps) s'"
proof -
  have ok: "amap_ok (rg_workers s)" using e by auto
  note f = try_assign_frame [OF e(1) ok t] and w = try_assign_wsmono [OF e(1) ok t]
  note D = drainedD [OF d]
  have mono: "wsmono (rg_workers s) (rg_workers s')" by (rule wsmono_trans [OF w D(2)])
  have r: "no_capacity e r (rg_workers s')"
    by (rule no_capacity_mono [OF try_assign_False(1) [OF e(1) ok t] mono])
  have new: "(\<exists>v. (a, v) \<in> set (rg_workers s) \<and> works_on rid v) \<or>
      rid \<in> set (rids ((r, t') # q)) - set (rids ((r, t') # ps))"
    if "distinct (rids ((r, t') # q))" "(a, w) \<in> set (rg_workers s')" "works_on rid w" for a w rid
  proof -
    have "\<not> works_on (request_id r) v" if "(b, v) \<in> set (rg_workers s1)" for b v
      using t that e ok by (cases rule: try_assign_cases [OF e(1) ok, of r])
        (auto simp: works_on_def dest!: strike_all_status)
    then show ?thesis
      using D(10) [of a w rid] that try_assign_works_on [OF e(1) ok t, of a _ rid] by auto
  qed
  show ?thesis
  proof (rule drainedI)
    show "subseq ((r, t') # ps) ((r, t') # q)" using D(1) by simp
    show "(r', t) \<in> set ((r, t') # ps) \<or> (\<exists>(a, w) \<in> set (rg_workers s'). works_on (request_id r') w)"
      if "(r', t) \<in> set ((r, t') # q)" for r' t
      using that D(8) by auto
    show "no_capacity e r' (rg_workers s')" if "(r', t) \<in> set ((r, t') # ps)" for r' t
      using that D(9) r by auto
  qed (use D(3,4,5,6,7) f mono new in \<open>simp_all\<close>)
qed

lemma drain_loop_drained:
  assumes "env_ok e" "wf_workers (rg_workers s)"
  shows "\<exists>ps. rg_pending (drain_loop e q still s) = still @ ps \<and>
           drained e q s ps (drain_loop e q still s)"
  using assms
proof (induction q arbitrary: still s)
  case Nil
  then show ?case by (intro exI [of _ "[]"]) (auto simp: drained_def)
next
  case (Cons p q)
  obtain r t' where p: "p = (r, t')" by (cases p)
  let ?s = "s\<lparr>rg_pending := q\<rparr>"
  obtain b s1 where t: "try_assign e r ?s = (b, s1)" by (cases "try_assign e r ?s")
  have wf: "wf_workers (rg_workers ?s)" using Cons.prems by simp
  have wf1: "wf_workers (rg_workers s1)" by (rule try_assign_wf [OF Cons.prems(1) wf t])
  have lift: "drained e q' ?s ps s' \<Longrightarrow> drained e q' s ps s'" for q' ps s'
    by (simp add: drained_def)
  show ?case
  proof (cases b)
    case True
    from Cons.IH [OF Cons.prems(1) wf1, of still] obtain ps where
      ps: "rg_pending (drain_loop e q still s1) = still @ ps" "drained e q s1 ps (drain_loop e q still s1)"
      by blast
    have "b = True" using True by simp
    from drained_assigned [OF Cons.prems(1) wf t [unfolded this] ps(2), of t'] ps(1)
    show ?thesis by (auto simp: p t True intro: lift)
  next
    case False
    from Cons.IH [OF Cons.prems(1) wf1, of "still @ [(r, t')]"] obtain ps where
      ps: "rg_pending (drain_loop e q (still @ [(r, t')]) s1) = (still @ [(r, t')]) @ ps"
        "drained e q s1 ps (drain_loop e q (still @ [(r, t')]) s1)"
      by blast
    have "b = False" using False by simp
    from drained_kept [OF Cons.prems(1) wf t [unfolded this] ps(2), of t'] ps(1)
    show ?thesis by (auto simp: p t False intro!: exI [of _ "(r, t') # ps"] lift)
  qed
qed

definition fresh :: "env \<Rightarrow> ('s contemplant_proof_request \<times> instant) list \<Rightarrow>
    ('s contemplant_proof_request \<times> instant) list" where
  "fresh e q = filter (\<lambda>(_, t). elapsed e t \<le> PENDING_TTL) q"

lemma drain_pending_drained:
  assumes "env_ok e" "wf_workers (rg_workers s)"
  shows "drained e (fresh e (rg_pending s)) s (rg_pending (drain_pending e s)) (drain_pending e s)"
  using drain_loop_drained [OF assms, of "fresh e (rg_pending s)" "[]"]
  by (auto simp: drain_pending_def fresh_def not_less)

section \<open>Registration in closed form\<close>

text \<open>
  A registration either starts idle, or carries the assignment of the stale entry it replaces,
  which was busy under the same process nonce.
\<close>

lemma stale_key_SomeD:
  assumes "env_ok e" "amap_ok (rg_workers s)" "stale_key e addr nm mg s = Some key"
  shows "\<exists>w. (key, w) \<in> set (rg_workers s) \<and> key \<noteq> addr \<and> same_instance nm mg w"
  using assms(3) set_entries [OF assms(1,2)] unfolding stale_key_def by (auto dest: find_SomeD)

lemma register_worker_cases:
  assumes "env_ok e" "amap_ok (rg_workers s)"
  obtains
    (plain) "stale_key e addr nm mg s = None"
      "register_worker e addr nm vms g ov mg nonce c s =
         s\<lparr>rg_workers := amap_insert addr (worker_new e nm vms g ov mg nonce c) (rg_workers s)\<rparr>"
  | (superseded) key old where "stale_key e addr nm mg s = Some key" "key \<noteq> addr"
      "(key, old) \<in> set (rg_workers s)" "same_instance nm mg old"
      "ws_instance_nonce old \<noteq> nonce \<or> \<not> is_busy old"
      "register_worker e addr nm vms g ov mg nonce c s =
         s\<lparr>rg_workers := amap_insert addr (worker_new e nm vms g ov mg nonce c)
                          (amap_remove key (rg_workers s))\<rparr>"
  | (carried) key old where "stale_key e addr nm mg s = Some key" "key \<noteq> addr"
      "(key, old) \<in> set (rg_workers s)" "same_instance nm mg old"
      "ws_instance_nonce old = nonce" "is_busy old"
      "register_worker e addr nm vms g ov mg nonce c s =
         s\<lparr>rg_workers := amap_insert addr
              ((worker_new e nm vms g ov mg nonce c)\<lparr>ws_status := ws_status old\<rparr>)
              (amap_remove key (rg_workers s))\<rparr>"
proof (cases "stale_key e addr nm mg s")
  case None
  then have "register_worker e addr nm vms g ov mg nonce c s =
         s\<lparr>rg_workers := amap_insert addr (worker_new e nm vms g ov mg nonce c) (rg_workers s)\<rparr>"
    by (simp add: register_worker_def)
  with None show ?thesis by (rule plain)
next
  case (Some key)
  with stale_key_SomeD [OF assms] obtain old where
    o: "(key, old) \<in> set (rg_workers s)" "key \<noteq> addr" "same_instance nm mg old" by blast
  then have m: "map_of (rg_workers s) key = Some old" using assms by (simp add: amap_get_iff)
  show ?thesis
  proof (cases "ws_instance_nonce old = nonce \<and> is_busy old")
    case True
    with Some m o show ?thesis by (intro carried) (auto simp: register_worker_def)
  next
    case False
    with Some m o show ?thesis by (intro superseded) (auto simp: register_worker_def)
  qed
qed

lemma register_worker_frame [simp, frame_simps]:
  "rg_config (register_worker e addr nm vms g ov mg nonce c s) = rg_config s"
  "rg_dead_workers (register_worker e addr nm vms g ov mg nonce c s) = rg_dead_workers s"
  "rg_awaiting (register_worker e addr nm vms g ov mg nonce c s) = rg_awaiting s"
  "rg_proof_history (register_worker e addr nm vms g ov mg nonce c s) = rg_proof_history s"
  "rg_pending (register_worker e addr nm vms g ov mg nonce c s) = rg_pending s"
  "rg_sent (register_worker e addr nm vms g ov mg nonce c s) = rg_sent s"
  by (simp_all add: register_worker_def Let_def split: option.split)

text \<open>No request gains a worker by a registration; the carried one only changes its address.\<close>

lemma wf_workers_insert:
  assumes "wf_workers ws" "\<And>rid b v. works_on rid w \<Longrightarrow> (b, v) \<in> set ws \<Longrightarrow> \<not> works_on rid v"
  shows "wf_workers (amap_insert addr w ws)"
proof -
  have ok: "amap_ok ws" using assms(1) by auto
  have "single_owner (amap_insert addr w ws)"
  proof (rule single_ownerI)
    fix a u b v rid
    assume "(a, u) \<in> set (amap_insert addr w ws)" "(b, v) \<in> set (amap_insert addr w ws)"
      "works_on rid u" "works_on rid v"
    then show "a = b"
      using assms unfolding wf_workers_def by (auto simp: in_amap_insert [OF ok] dest: single_ownerD)
  qed
  with ok show ?thesis by (simp add: wf_workers_def)
qed

lemma register_worker_wf:
  assumes "env_ok e" "wf_workers (rg_workers s)"
  shows "wf_workers (rg_workers (register_worker e addr nm vms g ov mg nonce c s))"
proof -
  have ok: "amap_ok (rg_workers s)" using assms(2) by auto
  from assms(1) ok show ?thesis
  proof (cases rule: register_worker_cases
      [where addr = addr and nm = nm and vms = vms and g = g and ov = ov and mg = mg and nonce = nonce and c = c])
    case (carried key old)
    have "wf_workers (amap_insert addr ((worker_new e nm vms g ov mg nonce c)\<lparr>ws_status := ws_status old\<rparr>)
        (amap_remove key (rg_workers s)))"
    proof (intro wf_workers_insert wf_workers_remove assms(2))
      fix rid b v
      assume "works_on rid ((worker_new e nm vms g ov mg nonce c)\<lparr>ws_status := ws_status old\<rparr>)"
        "(b, v) \<in> set (amap_remove key (rg_workers s))"
      then have "works_on rid old" "(b, v) \<in> set (rg_workers s)" "b \<noteq> key"
        by (simp_all add: works_on_def)
      then show "\<not> works_on rid v"
        using assms(2) carried(3) unfolding wf_workers_def by (blast dest: single_ownerD)
    qed
    with carried show ?thesis by simp
  qed (use assms(2) in \<open>auto intro!: wf_workers_insert wf_workers_remove\<close>)
qed

lemma register_worker_works_on:
  assumes "env_ok e" "amap_ok (rg_workers s)"
    and "(a, w) \<in> set (rg_workers (register_worker e addr nm vms g ov mg nonce c s))" "works_on rid w"
  shows "\<exists>(b, v) \<in> set (rg_workers s). works_on rid v"
  using assms(1,2)
proof (cases rule: register_worker_cases
    [where addr = addr and nm = nm and vms = vms and g = g and ov = ov and mg = mg and nonce = nonce and c = c])
  case (carried key old)
  have "(a, w) \<in> set (rg_workers s) \<or> works_on rid old"
    using assms(2,3,4) carried(7) by (auto simp: in_amap_insert works_on_def)
  then show ?thesis using carried(3) assms(4) by blast
qed (use assms in \<open>auto simp: in_amap_insert\<close>)

section \<open>What draining sends, and its first entry\<close>

lemma try_assign_sent:
  assumes "env_ok e" "amap_ok (rg_workers s)" "try_assign e r s = (ok, s')"
  shows "\<exists>xs. rg_sent s' = rg_sent s @ xs \<and> (\<forall>x \<in> set xs. \<exists>c. x = SendWorker c (ProofRequest r))"
  by (cases rule: try_assign_cases [OF assms(1,2), of r]; use assms(3) in auto)

lemma drain_loop_sent:
  assumes "env_ok e" "wf_workers (rg_workers s)"
  shows "\<exists>xs. rg_sent (drain_loop e q still s) = rg_sent s @ xs \<and>
           (\<forall>x \<in> set xs. \<exists>c r t. (r, t) \<in> set q \<and> x = SendWorker c (ProofRequest r))"
  using assms
proof (induction q arbitrary: still s)
  case (Cons p q)
  obtain r t' where p: "p = (r, t')" by (cases p)
  let ?s = "s\<lparr>rg_pending := q\<rparr>"
  obtain b s1 where t: "try_assign e r ?s = (b, s1)" by (cases "try_assign e r ?s")
  have wf: "wf_workers (rg_workers ?s)" using Cons.prems by simp
  note wf1 = try_assign_wf [OF Cons.prems(1) wf t]
  obtain ys where ys: "rg_sent s1 = rg_sent s @ ys"
    "\<forall>x \<in> set ys. \<exists>c. x = SendWorker c (ProofRequest r)"
    using try_assign_sent [OF Cons.prems(1) _ t] wf by auto
  have "\<exists>xs. rg_sent (drain_loop e q st s1) = rg_sent s @ xs \<and>
      (\<forall>x \<in> set xs. \<exists>c r' t. (r', t) \<in> set (p # q) \<and> x = SendWorker c (ProofRequest r'))" for st
  proof -
    obtain xs where xs: "rg_sent (drain_loop e q st s1) = rg_sent s1 @ xs"
      "\<forall>x \<in> set xs. \<exists>c r t. (r, t) \<in> set q \<and> x = SendWorker c (ProofRequest r)"
      using Cons.IH [OF Cons.prems(1) wf1, of st] by blast
    have "\<exists>c r' t. (r', t) \<in> set (p # q) \<and> x = SendWorker c (ProofRequest r')"
      if "x \<in> set (ys @ xs)" for x
      using that xs(2) ys(2) p by (metis Un_iff list.set_intros set_append)
    then show ?thesis using xs(1) ys(1) by (intro exI [of _ "ys @ xs"]) auto
  qed
  then show ?case by (auto simp: p t)
qed simp

lemma drain_pending_sent:
  assumes "env_ok e" "wf_workers (rg_workers s)"
  shows "\<exists>xs. rg_sent (drain_pending e s) = rg_sent s @ xs \<and>
           (\<forall>x \<in> set xs. \<exists>c r t. (r, t) \<in> set (rg_pending s) \<and> x = SendWorker c (ProofRequest r))"
proof -
  have "drain_pending e s = drain_loop e (fresh e (rg_pending s)) [] s"
    by (simp add: drain_pending_def fresh_def not_less)
  moreover have "set (fresh e (rg_pending s)) \<subseteq> set (rg_pending s)" by (auto simp: fresh_def)
  ultimately show ?thesis
    using drain_loop_sent [OF assms, of "fresh e (rg_pending s)" "[]"] by (metis subsetD)
qed

text \<open>
  What draining does to one worker. A busy one is left alone; an idle one with a closed channel
  stays idle; and an idle one with an open channel, when no other worker has capacity, takes the
  first entry that it can serve and nobody else works on.
\<close>

definition next_request ::
    "(string, worker_state) amap \<Rightarrow> string \<Rightarrow> worker_state \<Rightarrow>
     ('s contemplant_proof_request \<times> instant) list \<Rightarrow> 's contemplant_proof_request option" where
  "next_request ws a w q = map_option fst (List.find (\<lambda>(r, _).
     can_serve r w \<and> (\<forall>(b, v) \<in> set ws. b \<noteq> a \<longrightarrow> \<not> works_on (request_id r) v)) q)"

lemma next_request_cong:
  assumes "\<And>rid. (\<exists>(b, v) \<in> set ws. b \<noteq> a \<and> works_on rid v) \<longleftrightarrow>
    (\<exists>(b, v) \<in> set vs. b \<noteq> a \<and> works_on rid v)"
  shows "next_request ws a w q = next_request vs a w q"
proof -
  have "(\<forall>(b, v) \<in> set ws. b \<noteq> a \<longrightarrow> \<not> works_on rid v) \<longleftrightarrow>
      (\<forall>(b, v) \<in> set vs. b \<noteq> a \<longrightarrow> \<not> works_on rid v)" for rid
    using assms [of rid] by auto
  then show ?thesis by (simp add: next_request_def)
qed

text \<open>No worker other than the one at \<open>a\<close> could take the request.\<close>

definition others_full ::
    "env \<Rightarrow> string \<Rightarrow> 's contemplant_proof_request \<Rightarrow> (string, worker_state) amap \<Rightarrow> bool" where
  "others_full e a r ws \<longleftrightarrow>
     (\<forall>(b, v) \<in> set ws. b \<noteq> a \<and> can_serve r v \<and> chan_open e (ws_sender v) \<longrightarrow> is_busy v)"

lemma others_full_mono: "others_full e a r ws \<Longrightarrow> wsmono ws vs \<Longrightarrow> others_full e a r vs"
  unfolding others_full_def
  by (clarsimp, drule (1) wsmono_bwd) (auto simp: wmono_can_serve, auto simp: wmono_def is_busy_def)

abbreviation handed :: "env \<Rightarrow> 's contemplant_proof_request \<Rightarrow> worker_state \<Rightarrow> worker_state" where
  "handed e r w \<equiv> assigned_proof e (request_id r) (request_vm r) (mode_name r) w"

lemma try_assign_busy:
  assumes "env_ok e" "amap_ok (rg_workers s)" "try_assign e r s = (k, s')"
    and "(a, u) \<in> set (rg_workers s)" "is_busy u"
  shows "(a, u) \<in> set (rg_workers s')"
  using assms(1,2)
proof (cases rule: try_assign_cases [where r = r])
  case (placed b w pre)
  have "a \<notin> set pre" using placed(9) assms(4,5) by blast
  moreover have "a \<noteq> b" using placed(2,3) assms(4,5) amap_ok_unique [OF assms(2)] by blast
  ultimately show ?thesis
    using placed(8) assms(3,4) by (auto simp: in_amap_mod in_strike_all_other)
next
  case refused
  have "a \<notin> set (candidates e r s)"
    using set_candidates [OF assms(1,2)] amap_ok_unique [OF assms(2) assms(4)] assms(5) by blast
  then show ?thesis using refused(3) assms(3,4) by (auto simp: in_strike_all_other)
qed (use assms(3,4) in auto)

lemma drain_loop_busy:
  assumes "env_ok e" "wf_workers (rg_workers s)" "(a, u) \<in> set (rg_workers s)" "is_busy u"
  shows "(a, u) \<in> set (rg_workers (drain_loop e q still s))"
  using assms
proof (induction q arbitrary: still s)
  case (Cons p q)
  obtain r t' where p: "p = (r, t')" by (cases p)
  let ?s = "s\<lparr>rg_pending := q\<rparr>"
  obtain k s1 where t: "try_assign e r ?s = (k, s1)" by (cases "try_assign e r ?s")
  have wf: "wf_workers (rg_workers ?s)" using Cons.prems by simp
  have "(a, u) \<in> set (rg_workers s1)"
    using try_assign_busy [OF Cons.prems(1) _ t] wf Cons.prems(3,4) by auto
  from Cons.IH [OF Cons.prems(1) try_assign_wf [OF Cons.prems(1) wf t] this Cons.prems(4)]
  show ?case by (simp add: p t)
qed simp

lemma drain_loop_closed:
  assumes "env_ok e" "wf_workers (rg_workers s)" "(a, u) \<in> set (rg_workers s)"
    and "\<not> is_busy u" "\<not> chan_open e (ws_sender u)"
  shows "\<exists>v. (a, v) \<in> set (rg_workers (drain_loop e q still s)) \<and> \<not> is_busy v"
  using assms
proof (induction q arbitrary: still s u)
  case (Cons p q)
  obtain r t' where p: "p = (r, t')" by (cases p)
  let ?s = "s\<lparr>rg_pending := q\<rparr>"
  obtain k s1 where t: "try_assign e r ?s = (k, s1)" by (cases "try_assign e r ?s")
  have wf: "wf_workers (rg_workers ?s)" using Cons.prems by simp
  then have ok: "amap_ok (rg_workers ?s)" by auto
  have uniq: "\<And>v. (a, v) \<in> set (rg_workers s) \<Longrightarrow> v = u"
    using amap_ok_unique [OF ok] Cons.prems(3) by simp
  obtain v where v: "(a, v) \<in> set (rg_workers s1)" "wmono u v"
    using wsmono_fwd [OF try_assign_wsmono [OF Cons.prems(1) ok t]] Cons.prems(3) by auto
  have "\<not> is_busy v"
    using Cons.prems(1) ok
  proof (cases rule: try_assign_cases [where r = r])
    case already
    then show ?thesis using t v(1) uniq Cons.prems(4) by auto
  next
    case (placed b w pre)
    have "a \<noteq> b" using placed(2,5) uniq Cons.prems(5) by auto
    then have "(a, v) \<in> set (strike_all pre (rg_workers s))"
      using placed(8) t v(1) by (auto simp: in_amap_mod)
    from strike_all_status [OF this] show ?thesis using uniq Cons.prems(4) by (auto simp: is_busy_def)
  next
    case refused
    then have "(a, v) \<in> set (strike_all (candidates e r ?s) (rg_workers s))" using t v(1) by auto
    from strike_all_status [OF this] show ?thesis using uniq Cons.prems(4) by (auto simp: is_busy_def)
  qed
  moreover have "\<not> chan_open e (ws_sender v)" using v(2) Cons.prems(5) by (simp add: wmono_def)
  ultimately show ?case
    using Cons.IH [OF Cons.prems(1) try_assign_wf [OF Cons.prems(1) wf t] v(1)] by (simp add: p t)
qed auto

text \<open>An attempt that is not for the worker at \<open>a\<close> leaves it, and the work of the others, alone.\<close>

lemma try_assign_passes:
  assumes "env_ok e" "amap_ok (rg_workers s)" "try_assign e r s = (k, s')"
    and "(a, u) \<in> set (rg_workers s)" "chan_open e (ws_sender u)" "others_full e a r (rg_workers s)"
    and "\<not> can_serve r u \<or> (\<exists>(b, v) \<in> set (rg_workers s). b \<noteq> a \<and> works_on (request_id r) v)"
  shows "(a, u) \<in> set (rg_workers s') \<and>
    ((\<exists>(b, v) \<in> set (rg_workers s'). b \<noteq> a \<and> works_on rid v) \<longleftrightarrow>
     (\<exists>(b, v) \<in> set (rg_workers s). b \<noteq> a \<and> works_on rid v))"
  using assms(1,2)
proof (cases rule: try_assign_cases [where r = r])
  case (placed b w pre)
  have "b = a" using placed(2-5) assms(6) by (auto simp: others_full_def)
  then have "w = u" using placed(2) amap_ok_unique [OF assms(2,4), of w] by simp
  then show ?thesis using placed(1,4) assms(7) by blast
next
  case refused
  let ?ws = "strike_all (candidates e r s) (rg_workers s)"
  have "a \<notin> set (candidates e r s)"
    using set_candidates [OF assms(1,2)] refused(2) amap_ok_unique [OF assms(2,4)] assms(5) by blast
  then have "(a, u) \<in> set ?ws" using assms(4) by (simp add: in_strike_all_other)
  moreover have "(\<exists>(b, v) \<in> set ?ws. b \<noteq> a \<and> works_on rid v) \<longleftrightarrow>
     (\<exists>(b, v) \<in> set (rg_workers s). b \<noteq> a \<and> works_on rid v)"
  proof
    assume "\<exists>(b, v) \<in> set ?ws. b \<noteq> a \<and> works_on rid v"
    then show "\<exists>(b, v) \<in> set (rg_workers s). b \<noteq> a \<and> works_on rid v"
      using strike_all_status by (fastforce simp: works_on_def)
  next
    assume "\<exists>(b, v) \<in> set (rg_workers s). b \<noteq> a \<and> works_on rid v"
    then show "\<exists>(b, v) \<in> set ?ws. b \<noteq> a \<and> works_on rid v"
      using wsmono_fwd [OF wsmono_strike_all] wmono_works_on by blast
  qed
  ultimately show ?thesis using refused(3) assms(3) by simp
qed (use assms(3,4) in auto)

lemma try_assign_takes:
  assumes "env_ok e" "amap_ok (rg_workers s)" "try_assign e r s = (k, s')"
    and "(a, u) \<in> set (rg_workers s)" "\<not> is_busy u" "chan_open e (ws_sender u)"
    and "others_full e a r (rg_workers s)" "can_serve r u"
    and "\<forall>(b, v) \<in> set (rg_workers s). b \<noteq> a \<longrightarrow> \<not> works_on (request_id r) v"
  shows "(a, handed e r u) \<in> set (rg_workers s') \<and>
         SendWorker (ws_sender u) (ProofRequest r) \<in> set (rg_sent s')"
  using assms(1,2)
proof (cases rule: try_assign_cases [where r = r])
  case (already b w)
  then have "b = a" using assms(9) by auto
  then have "w = u" using already(1) amap_ok_unique [OF assms(2,4), of w] by simp
  then show ?thesis using already(2) assms(5) works_on_busy by blast
next
  case (placed b w pre)
  have "b = a" using placed(2-5) assms(7) by (auto simp: others_full_def)
  moreover then have "w = u" using placed(2) amap_ok_unique [OF assms(2,4), of w] by simp
  ultimately show ?thesis
    using placed(6,8) assms(3,4) by (auto simp: in_amap_mod in_strike_all_other)
next
  case refused
  show ?thesis using refused(2) [OF assms(4,8,5)] assms(6) by simp
qed

lemma drain_loop_takes:
  assumes "env_ok e" "wf_workers (rg_workers s)" "(a, u) \<in> set (rg_workers s)"
    and "\<not> is_busy u" "chan_open e (ws_sender u)"
    and "\<And>r t. (r, t) \<in> set q \<Longrightarrow> others_full e a r (rg_workers s)"
  shows "case next_request (rg_workers s) a u q of
      None \<Rightarrow> (a, u) \<in> set (rg_workers (drain_loop e q still s))
    | Some r \<Rightarrow> (a, handed e r u) \<in> set (rg_workers (drain_loop e q still s)) \<and>
        SendWorker (ws_sender u) (ProofRequest r) \<in> set (rg_sent (drain_loop e q still s))"
  using assms
proof (induction q arbitrary: still s)
  case Nil
  then show ?case by (simp add: next_request_def)
next
  case (Cons p q)
  obtain r t' where p: "p = (r, t')" by (cases p)
  let ?s = "s\<lparr>rg_pending := q\<rparr>"
  obtain k s1 where t: "try_assign e r ?s = (k, s1)" by (cases "try_assign e r ?s")
  have wf: "wf_workers (rg_workers ?s)" using Cons.prems by simp
  then have ok: "amap_ok (rg_workers ?s)" by auto
  have wf1: "wf_workers (rg_workers s1)" by (rule try_assign_wf [OF Cons.prems(1) wf t])
  have full: "others_full e a r (rg_workers ?s)" using Cons.prems(6) [of r t'] p by simp
  obtain still' where step: "drain_loop e (p # q) still s = drain_loop e q still' s1"
    by (cases k) (auto simp: p t)
  show ?case
  proof (cases "can_serve r u \<and> (\<forall>(b, v) \<in> set (rg_workers s). b \<noteq> a \<longrightarrow> \<not> works_on (request_id r) v)")
    case True
    then have n: "next_request (rg_workers s) a u (p # q) = Some r" by (simp add: next_request_def p)
    have tk: "(a, handed e r u) \<in> set (rg_workers s1)" "SendWorker (ws_sender u) (ProofRequest r) \<in> set (rg_sent s1)"
      using try_assign_takes [OF Cons.prems(1) ok t _ Cons.prems(4,5) full] Cons.prems(3) True by auto
    have "is_busy (handed e r u)" by (simp add: is_busy_def assigned_proof_def)
    moreover obtain xs where "rg_sent (drain_loop e q still' s1) = rg_sent s1 @ xs"
      using drain_loop_sent [OF Cons.prems(1) wf1] by blast
    ultimately show ?thesis
      using drain_loop_busy [OF Cons.prems(1) wf1 tk(1)] tk(2) by (simp add: n step)
  next
    case False
    then have n: "next_request (rg_workers s) a u (p # q) = next_request (rg_workers s) a u q"
      unfolding next_request_def p by (simp only: find.simps prod.case if_False)
    have f: "\<not> can_serve r u \<or> (\<exists>(b, v) \<in> set (rg_workers ?s). b \<noteq> a \<and> works_on (request_id r) v)"
      using False by auto
    have u: "(a, u) \<in> set (rg_workers ?s)" using Cons.prems(3) by simp
    note T = try_assign_passes [OF Cons.prems(1) ok t u Cons.prems(5) full f]
    have "next_request (rg_workers s1) a u q = next_request (rg_workers s) a u q"
      by (rule next_request_cong) (use T in simp)
    moreover have "others_full e a r' (rg_workers s1)" if "(r', x) \<in> set q" for r' x
      by (rule others_full_mono [OF _ try_assign_wsmono [OF Cons.prems(1) ok t]])
        (use Cons.prems(6) [of r' x] that in simp)
    ultimately show ?thesis
      unfolding step n using Cons.IH [OF Cons.prems(1) wf1 conjunct1 [OF T] Cons.prems(4,5), of still'] by simp
  qed
qed

lemma in_magister_deletes:
  "x \<in> set (magister_deletes L) \<longleftrightarrow>
     (\<exists>(a, w) \<in> set L. \<exists>ep. ws_magister_drop_endpoint w = Some ep \<and> x = MagisterDelete ep)"
proof (induction L)
  case (Cons p L)
  then show ?case by (cases p) (auto simp: magister_deletes_def split: option.splits)
qed (simp add: magister_deletes_def)

end
