(* ===== verification/Registry_Inv.thy ===== *)
theory Registry_Inv
  imports Registry_Ops
begin

text \<open>
  The invariants of the worker registry over every sequence of commands, as interpretations of
  the contract \<open>actor_invariant\<close>.
\<close>

section \<open>Time and channels between two commands\<close>

text \<open>
  The monotonic clock does not go back, and a websocket channel that has been closed stays closed.
  The system clock is unconstrained.
\<close>

definition env_next :: "env \<Rightarrow> env \<Rightarrow> bool" where
  "env_next e e' \<longleftrightarrow> env_ok e' \<and> now_i e \<le> now_i e' \<and> (\<forall>c. chan_open e' c \<longrightarrow> chan_open e c)"

definition registry_next :: "env \<Rightarrow> env \<Rightarrow> 's worker_registry_command \<Rightarrow> bool" where
  "registry_next e e' c \<longleftrightarrow> env_next e e'"

definition registry_start :: "worker_registry_config \<Rightarrow> env \<Rightarrow> 's registry \<Rightarrow> bool" where
  "registry_start cfg e s \<longleftrightarrow> env_ok e \<and> s = registry_init cfg"

lemma no_capacity_env: "no_capacity e r ws \<Longrightarrow> env_next e e' \<Longrightarrow> no_capacity e' r ws"
  by (auto simp: no_capacity_def env_next_def)

lemma no_capacity_mod:
  assumes "no_capacity e r ws"
    and "\<And>w. (a, w) \<in> set ws \<Longrightarrow> can_serve r (f w) = can_serve r w \<and> ws_sender (f w) = ws_sender w \<and>
           (is_busy w \<longrightarrow> is_busy (f w))"
  shows "no_capacity e r (amap_mod a f ws)"
  using assms unfolding no_capacity_def by (fastforce simp: in_amap_mod)

lemma no_capacity_subset: "no_capacity e r ws \<Longrightarrow> set vs \<subseteq> set ws \<Longrightarrow> no_capacity e r vs"
  by (auto simp: no_capacity_def)

section \<open>The invariant\<close>

text \<open>
  \<open>registry_inv\<close>: the configuration is constant, every request is worked on by at most one
  worker, queued requests have distinct ids and respect the cap, and no queued request has an
  idle, capable, connected worker (capacity is never left unused).
\<close>

definition registry_inv :: "worker_registry_config \<Rightarrow> env \<Rightarrow> 's registry \<Rightarrow> bool" where
  "registry_inv cfg e s \<longleftrightarrow>
     env_ok e \<and> rg_config s = cfg \<and> wf_workers (rg_workers s) \<and> distinct (rids (rg_pending s)) \<and>
     length (rg_pending s) \<le> PENDING_QUEUE_CAP \<and>
     (\<forall>(r, t) \<in> set (rg_pending s). no_capacity e r (rg_workers s))"

lemma registry_invD:
  assumes "registry_inv cfg e s"
  shows "env_ok e" "rg_config s = cfg" "wf_workers (rg_workers s)" "amap_ok (rg_workers s)"
    "distinct (rids (rg_pending s))" "length (rg_pending s) \<le> PENDING_QUEUE_CAP"
    "\<And>r t. (r, t) \<in> set (rg_pending s) \<Longrightarrow> no_capacity e r (rg_workers s)"
  using assms by (auto simp: registry_inv_def)

lemma registry_inv_env: "registry_inv cfg e s \<Longrightarrow> env_next e e' \<Longrightarrow> registry_inv cfg e' s"
  by (auto simp: registry_inv_def no_capacity_env) (simp add: env_next_def)

text \<open>Commands that keep the queue and, worker by worker, what assignment depends on.\<close>

lemma registry_inv_same:
  assumes "registry_inv cfg e s" "rg_config s' = rg_config s" "rg_workers s' = rg_workers s"
    "rg_pending s' = rg_pending s"
  shows "registry_inv cfg e s'"
  using assms by (simp add: registry_inv_def)

lemma registry_inv_emit [simp]: "registry_inv cfg e (emit x s) = registry_inv cfg e s"
  by (simp add: registry_inv_def)

lemma registry_inv_awaiting [simp]: "registry_inv cfg e (s\<lparr>rg_awaiting := m\<rparr>) = registry_inv cfg e s"
  by (simp add: registry_inv_def)

lemma registry_inv_mod:
  fixes s :: "'s registry"
  assumes "registry_inv cfg e s"
    and "\<And>w (r :: 's contemplant_proof_request). can_serve r (f w) = can_serve r w" "\<And>w. ws_sender (f w) = ws_sender w"
    and "\<And>w rid. works_on rid (f w) = works_on rid w"
  shows "registry_inv cfg e (mod_worker a f s)"
proof -
  have busy: "is_busy (f w)" if "is_busy w" for w
  proof (cases "ws_status w")
    case Idle
    with that show ?thesis by (simp add: is_busy_def)
  next
    case (Busy rid vm m st pr upd)
    then have "works_on rid w" by (simp add: works_on_def)
    then show ?thesis using assms(4) works_on_busy by blast
  qed
  show ?thesis
    using assms(1) unfolding registry_inv_def
    by (auto intro!: wf_workers_mod no_capacity_mod simp: assms busy)
qed

lemma registry_inv_trim: "registry_inv cfg e s \<Longrightarrow> registry_inv cfg e (trim_workers e s)"
proof -
  assume inv: "registry_inv cfg e s"
  note I = registry_invD [OF inv]
  have "set (rg_workers (trim_workers e s)) \<subseteq> set (rg_workers s)"
    using trim_workers_set [OF I(1,4)] by auto
  then show ?thesis
    unfolding registry_inv_def trim_frame
    using I trim_wf [OF I(1,3)] no_capacity_subset by blast
qed

lemma rids_distinct_subseq: "subseq ps q \<Longrightarrow> distinct (rids q) \<Longrightarrow> distinct (rids ps)"
  by (induction rule: list_emb.induct) (auto dest: rids_subseq [THEN subsetD])

lemma fresh_subseq: "subseq (fresh e q) q"
  by (simp add: fresh_def subseq_filter_left)

text \<open>Draining establishes the use of capacity whatever the queue held before.\<close>

lemma registry_inv_drain:
  assumes "env_ok e" "rg_config s = cfg" "wf_workers (rg_workers s)" "distinct (rids (rg_pending s))"
    "length (rg_pending s) \<le> PENDING_QUEUE_CAP"
  shows "registry_inv cfg e (drain_pending e s)"
proof -
  note d = drain_pending_drained [OF assms(1,3)]
  note D = drainedD [OF d]
  have sub: "subseq (rg_pending (drain_pending e s)) (rg_pending s)"
    using D(1) fresh_subseq by (rule subseq_order.order_trans)
  show ?thesis
    unfolding registry_inv_def
    using assms D(3,4,9) rids_distinct_subseq [OF sub] list_emb_length [OF sub] by auto
qed

lemma registry_inv_assign:
  assumes "registry_inv cfg e s"
  shows "registry_inv cfg e (handle_assign_proof e r s)"
proof -
  let ?t = "trim_workers e s"
  note T = registry_invD [OF registry_inv_trim [OF assms]]
  obtain b s' where t: "try_assign e r ?t = (b, s')" by (cases "try_assign e r ?t")
  note f = try_assign_frame [OF T(1) T(4) t] and m = try_assign_wsmono [OF T(1) T(4) t]
  have inv: "registry_inv cfg e s'"
    unfolding registry_inv_def f(1,5)
    using T try_assign_wf [OF T(1) T(3) t] no_capacity_mono [OF _ m] by auto
  show ?thesis
  proof (cases "b \<or> queued (request_id r) s' \<or> length (rg_pending s') \<ge> PENDING_QUEUE_CAP")
    case True
    with inv show ?thesis by (auto simp: handle_assign_proof_def t)
  next
    case False
    have "no_capacity e r (rg_workers s')"
      using t False no_capacity_mono [OF _ m] try_assign_False(1) [OF T(1) T(4)] by auto
    moreover have "request_id r \<notin> set (rids (rg_pending s'))"
      using False by (auto simp: queued_def in_rids)
    ultimately have "registry_inv cfg e (s'\<lparr>rg_pending := rg_pending s' @ [(r, now_i e)]\<rparr>)"
      using inv False by (auto simp: registry_inv_def)
    with False show ?thesis by (simp add: handle_assign_proof_def t)
  qed
qed

lemma update_progress_frame [simp, frame_simps]:
  "can_serve r (update_progress e pu w) = can_serve r w"
  "ws_sender (update_progress e pu w) = ws_sender w"
  "works_on rid (update_progress e pu w) = works_on rid w"
  by (auto simp: update_progress_def works_on_def split: worker_status.split option.split)

lemma registry_inv_freed:
  assumes "registry_inv cfg e s" "rg_config s' = rg_config s" "rg_pending s' = rg_pending s"
    "rg_workers s' = amap_mod a f (rg_workers s)" "\<And>w rid. \<not> works_on rid (f w)"
  shows "registry_inv cfg e (drain_pending e s')"
  using registry_invD [OF assms(1)] assms(2-5)
  by (intro registry_inv_drain) (auto intro!: wf_workers_mod)

lemma registry_inv_handle:
  assumes "registry_inv cfg e s"
  shows "registry_inv cfg e (handle e c s)"
proof (cases c)
  case (Cmd_AssignProofRequest r)
  with assms show ?thesis by (simp add: registry_inv_assign)
next
  case (Cmd_WorkerReady a n v g ov mg nc ch)
  with registry_invD [OF assms] show ?thesis
    by (auto simp: handle_worker_ready_def intro!: registry_inv_drain register_worker_wf)
next
  case (Cmd_ProofStatusRequest rid rs)
  have t: "registry_inv cfg e (trim_workers e s)" by (rule registry_inv_trim [OF assms])
  then have "registry_inv cfg e
      (mod_worker a (\<lambda>w. w\<lparr>ws_strikes := k\<rparr>) (trim_workers e s))" for a k
    by (intro registry_inv_mod) auto
  with t Cmd_ProofStatusRequest show ?thesis
    by (auto simp: handle_proof_status_request_def Let_def split: option.split
        intro: registry_inv_same)
next
  case (Cmd_ProofStatusResponse rid st)
  let ?st = "bridge_startup_race e rid st s"
  have "registry_inv cfg e (free_worker_of_failed_proof e rid ?st s)"
    using assms by (auto simp: free_worker_of_failed_proof_def split: option.split
        intro!: registry_inv_freed [OF assms])
  with Cmd_ProofStatusResponse show ?thesis
    by (auto simp: handle_proof_status_response_def Let_def fold_emit split: option.split
        intro: registry_inv_same)
next
  case (Cmd_ProofComplete rid)
  have "registry_inv cfg e (drain_pending e s)"
    using registry_invD [OF assms] by (intro registry_inv_drain)
  with Cmd_ProofComplete assms show ?thesis
    by (auto simp: handle_proof_complete_def Let_def split: option.split worker_status.split
        intro!: registry_inv_freed [OF assms])
next
  case (Cmd_ProofProgressUpdate rid pu)
  with assms show ?thesis
    by (auto simp: handle_proof_progress_update_def split: option.split intro!: registry_inv_mod)
next
  case (Cmd_Heartbeat a rs)
  have "registry_inv cfg e (mod_worker a (worker_heartbeat e) s)"
    by (rule registry_inv_mod [OF assms]) simp_all
  with Cmd_Heartbeat assms show ?thesis
    by (auto simp: handle_heartbeat_def split: option.split intro: registry_inv_same)
next
  case (Cmd_StrikeWorkerOfRequest rid)
  with assms show ?thesis
    by (auto simp: handle_strike_worker_of_request_def split: option.split
        intro!: registry_inv_trim registry_inv_mod)
next
  case (Cmd_DropWorkerOfRequest rid)
  with assms show ?thesis
    by (auto simp: handle_drop_worker_of_request_def split: option.split
        intro!: registry_inv_trim registry_inv_mod)
qed (use assms in \<open>auto simp: handle_pending_info_def handle_workers_def handle_dead_workers_def
      handle_proof_history_def Let_def intro: registry_inv_same\<close>)

interpretation reg: actor_invariant handle registry_next "registry_start cfg" "registry_inv cfg" for cfg
proof
  show "registry_inv cfg e s" if "registry_start cfg e s" for e s
    using that by (auto simp: registry_start_def registry_inv_def registry_init_def wf_workers_def
        amap_ok_def single_owner_def)
  show "registry_inv cfg e' (handle e' c s)" if "registry_inv cfg e s" "registry_next e e' c" for e e' c s
    using that by (auto simp: registry_next_def intro: registry_inv_handle registry_inv_env)
qed

section \<open>A queued request is not being proven\<close>

text \<open>
  Request ids identify requests: the callers draw a fresh id for every request, so the id
  determines the request, through \<open>body\<close>. Then no request is both queued and worked on.
\<close>

fun names_request :: "(b256 \<Rightarrow> 's contemplant_proof_request) \<Rightarrow> 's worker_registry_command \<Rightarrow> bool" where
  "names_request body (Cmd_AssignProofRequest r) = (body (request_id r) = r)"
| "names_request body _ = True"

definition identified_next ::
    "(b256 \<Rightarrow> 's contemplant_proof_request) \<Rightarrow> env \<Rightarrow> env \<Rightarrow> 's worker_registry_command \<Rightarrow> bool" where
  "identified_next body e e' c \<longleftrightarrow> env_next e e' \<and> names_request body c"

definition exclusive :: "(b256 \<Rightarrow> 's contemplant_proof_request) \<Rightarrow> 's registry \<Rightarrow> bool" where
  "exclusive body s \<longleftrightarrow>
     (\<forall>(r, t) \<in> set (rg_pending s). body (request_id r) = r \<and>
       (\<forall>(a, w) \<in> set (rg_workers s). \<not> works_on (request_id r) w))"

lemma exclusiveD:
  assumes "exclusive body s" "(r, t) \<in> set (rg_pending s)"
  shows "body (request_id r) = r" "\<And>a w. (a, w) \<in> set (rg_workers s) \<Longrightarrow> \<not> works_on (request_id r) w"
  using assms unfolding exclusive_def by blast+

lemma exclusiveI:
  assumes "\<And>r t. (r, t) \<in> set (rg_pending s) \<Longrightarrow> body (request_id r) = r"
    "\<And>r t a w. (r, t) \<in> set (rg_pending s) \<Longrightarrow> (a, w) \<in> set (rg_workers s) \<Longrightarrow>
       \<not> works_on (request_id r) w"
  shows "exclusive body s"
  using assms unfolding exclusive_def by blast

lemma exclusive_sub:
  assumes "exclusive body s" "set (rg_pending s') \<subseteq> set (rg_pending s)"
    and "\<And>a w rid. (a, w) \<in> set (rg_workers s') \<Longrightarrow> works_on rid w \<Longrightarrow>
           \<exists>(b, v) \<in> set (rg_workers s). works_on rid v"
  shows "exclusive body s'"
  using assms exclusiveD [OF assms(1)] by (intro exclusiveI) blast+

lemma exclusive_mod:
  assumes "exclusive body s" "rg_pending s' = rg_pending s"
    "rg_workers s' = amap_mod a f (rg_workers s)" "\<And>w rid. works_on rid (f w) \<Longrightarrow> works_on rid w"
  shows "exclusive body s'"
proof (rule exclusive_sub [OF assms(1)])
  fix b w rid assume "(b, w) \<in> set (rg_workers s')" "works_on rid w"
  then show "\<exists>(b, v) \<in> set (rg_workers s). works_on rid v"
    using assms(3,4) by (cases "b = a") (auto simp: in_amap_mod)
qed (simp add: assms(2))

lemma exclusive_emit [simp]: "exclusive body (emit x s) = exclusive body s"
  by (simp add: exclusive_def)

lemma exclusive_awaiting [simp]: "exclusive body (s\<lparr>rg_awaiting := m\<rparr>) = exclusive body s"
  by (simp add: exclusive_def)

lemma exclusive_drain:
  assumes "env_ok e" "wf_workers (rg_workers s)" "distinct (rids (rg_pending s))" "exclusive body s"
  shows "exclusive body (drain_pending e s)"
proof -
  note D = drainedD [OF drain_pending_drained [OF assms(1,2)]]
  let ?d = "drain_pending e s"
  have sub: "set (rg_pending ?d) \<subseteq> set (rg_pending s)"
    using subseq_order.order_trans [OF D(1) fresh_subseq] by (auto dest: list_emb_set)
  have dist: "distinct (rids (fresh e (rg_pending s)))"
    by (rule rids_distinct_subseq [OF fresh_subseq assms(3)])
  show ?thesis
  proof (rule exclusiveI)
    fix r t a w
    assume rt: "(r, t) \<in> set (rg_pending ?d)" and aw: "(a, w) \<in> set (rg_workers ?d)"
    have "request_id r \<in> set (rids (rg_pending ?d))" using rt by (auto simp: in_rids)
    then show "\<not> works_on (request_id r) w"
      using D(10) [OF dist aw] exclusiveD(2) [OF assms(4)] rt sub by blast
  qed (use sub exclusiveD(1) [OF assms(4)] in blast)
qed

lemma exclusive_trim:
  "env_ok e \<Longrightarrow> amap_ok (rg_workers s) \<Longrightarrow> exclusive body s \<Longrightarrow> exclusive body (trim_workers e s)"
  by (erule exclusive_sub) (auto simp: trim_workers_set)

lemma exclusive_assign:
  assumes inv: "registry_inv cfg e s" and x: "exclusive body s" and b: "body (request_id r) = r"
  shows "exclusive body (handle_assign_proof e r s)"
proof -
  let ?t = "trim_workers e s"
  note T = registry_invD [OF registry_inv_trim [OF inv]]
  have xt: "exclusive body ?t" using x registry_invD [OF inv] by (intro exclusive_trim)
  obtain k s' where t: "try_assign e r ?t = (k, s')" by (cases "try_assign e r ?t")
  note f = try_assign_frame [OF T(1) T(4) t]
  note wo = try_assign_works_on [OF T(1) T(4) t]
  have placed: "s' = ?t" if "k" "request_id r \<in> set (rids (rg_pending ?t))"
  proof -
    from that(2) obtain r' u where "(r', u) \<in> set (rg_pending ?t)" "request_id r' = request_id r"
      by (auto simp: in_rids)
    moreover from this have "r' = r" using exclusiveD(1) [OF xt] b by metis
    ultimately have "no_capacity e r (rg_workers ?t)" using T(7) by blast
    with no_capacity_not_placed [OF T(1,4)] t that(1) show ?thesis by simp
  qed
  have refused: "\<not> works_on (request_id r) v" if "\<not> k" "(c, v) \<in> set (rg_workers s')" for c v
    using t that by (cases rule: try_assign_cases [OF T(1,4), of r])
      (auto simp: works_on_def dest!: strike_all_status)
  have xs: "exclusive body s'"
  proof (rule exclusiveI)
    fix q u a w
    assume q: "(q, u) \<in> set (rg_pending s')" and aw: "(a, w) \<in> set (rg_workers s')"
    show "\<not> works_on (request_id q) w"
    proof
      assume "works_on (request_id q) w"
      with wo [OF aw] have "(\<exists>v. (a, v) \<in> set (rg_workers ?t) \<and> works_on (request_id q) v) \<or>
        request_id q = request_id r" by simp
      then have "request_id q = request_id r" using exclusiveD(2) [OF xt] q f(5) by auto
      then have "s' = ?t \<or> \<not> k" using placed q f(5) by (auto simp: in_rids)
      then show False
        using \<open>works_on (request_id q) w\<close> aw exclusiveD(2) [OF xt, of q u a w] q f(5) refused [of a w]
          \<open>request_id q = request_id r\<close> by auto
    qed
  qed (use exclusiveD(1) [OF xt] f(5) in auto)
  show ?thesis
  proof (cases "k \<or> queued (request_id r) s' \<or> length (rg_pending s') \<ge> PENDING_QUEUE_CAP")
    case True
    with xs show ?thesis by (auto simp: handle_assign_proof_def t)
  next
    case False
    have "exclusive body (s'\<lparr>rg_pending := rg_pending s' @ [(r, now_i e)]\<rparr>)"
      using exclusiveD [OF xs] refused False b by (intro exclusiveI) auto
    with False show ?thesis by (simp add: handle_assign_proof_def t)
  qed
qed

lemma exclusive_freed:
  assumes "registry_inv cfg e s" "exclusive body s" "rg_pending s' = rg_pending s"
    "rg_workers s' = amap_mod a f (rg_workers s)" "\<And>w rid. \<not> works_on rid (f w)"
  shows "exclusive body (drain_pending e s')"
proof (rule exclusive_drain)
  show "exclusive body s'" using assms(5) by (intro exclusive_mod [OF assms(2-4)]) auto
qed (use registry_invD [OF assms(1)] assms(3-5) in \<open>auto intro!: wf_workers_mod\<close>)

lemma exclusive_handle:
  assumes inv: "registry_inv cfg e s" and x: "exclusive body s" and n: "names_request body c"
  shows "exclusive body (handle e c s)"
proof (cases c)
  case (Cmd_AssignProofRequest r)
  with assms show ?thesis by (simp add: exclusive_assign)
next
  case (Cmd_WorkerReady a nm v g ov mg nc ch)
  let ?s = "register_worker e a nm v g ov mg nc ch s"
  note I = registry_invD [OF inv]
  have "exclusive body ?s"
    by (rule exclusive_sub [OF x]) (use register_worker_works_on [OF I(1,4)] in auto)
  then show ?thesis
    using I Cmd_WorkerReady by (auto simp: handle_worker_ready_def intro!: exclusive_drain register_worker_wf)
next
  case (Cmd_ProofStatusRequest rid rs)
  have t: "exclusive body (trim_workers e s)" using registry_invD [OF inv] x by (intro exclusive_trim)
  have "exclusive body (mod_worker a (\<lambda>w. w\<lparr>ws_strikes := k\<rparr>) (trim_workers e s))" for a k
    by (rule exclusive_mod [OF t mod_worker_frame(6) mod_worker_frame(2)]) simp
  with t Cmd_ProofStatusRequest show ?thesis
    by (auto simp: handle_proof_status_request_def Let_def split: option.split)
next
  case (Cmd_ProofStatusResponse rid st)
  have "exclusive body (free_worker_of_failed_proof e rid st' s)" for st'
    using x by (auto simp: free_worker_of_failed_proof_def split: option.split
        intro!: exclusive_freed [OF inv x])
  moreover have "exclusive body (u\<lparr>rg_awaiting := m, rg_sent := y\<rparr>) = exclusive body u" for u m y
    by (simp add: exclusive_def)
  ultimately show ?thesis
    using Cmd_ProofStatusResponse
    by (auto simp: handle_proof_status_response_def Let_def fold_emit split: option.split)
next
  case (Cmd_ProofComplete rid)
  have "exclusive body (drain_pending e s)"
    using registry_invD [OF inv] x by (intro exclusive_drain)
  with Cmd_ProofComplete x show ?thesis
    by (auto simp: handle_proof_complete_def Let_def split: option.split worker_status.split
        intro!: exclusive_freed [OF inv x])
next
  case (Cmd_ProofProgressUpdate rid pu)
  with x show ?thesis
    by (auto simp: handle_proof_progress_update_def split: option.split intro!: exclusive_mod [OF x])
next
  case (Cmd_Heartbeat a rs)
  with x show ?thesis
    by (auto simp: handle_heartbeat_def split: option.split intro!: exclusive_mod [OF x])
next
  case (Cmd_StrikeWorkerOfRequest rid)
  note I = registry_invD [OF inv]
  have "exclusive body (mod_worker a add_strike s)" for a
    by (rule exclusive_mod [OF x mod_worker_frame(6) mod_worker_frame(2)]) simp
  with Cmd_StrikeWorkerOfRequest x I show ?thesis
    by (auto simp: handle_strike_worker_of_request_def split: option.split intro!: exclusive_trim)
next
  case (Cmd_DropWorkerOfRequest rid)
  note I = registry_invD [OF inv]
  have "exclusive body (mod_worker a (\<lambda>w. w\<lparr>ws_strikes := k\<rparr>) s)" for a k
    by (rule exclusive_mod [OF x mod_worker_frame(6) mod_worker_frame(2)]) simp
  with Cmd_DropWorkerOfRequest x I show ?thesis
    by (auto simp: handle_drop_worker_of_request_def split: option.split intro!: exclusive_trim)
qed (use x in \<open>auto simp: handle_pending_info_def handle_workers_def handle_dead_workers_def
      handle_proof_history_def Let_def\<close>)

interpretation excl: actor_invariant handle "identified_next body" "registry_start cfg"
    "\<lambda>e s. registry_inv cfg e s \<and> exclusive body s" for body cfg
proof
  show "registry_inv cfg e s \<and> exclusive body s" if "registry_start cfg e s" for e s
    using reg.inv_start [OF that] that by (simp add: registry_start_def registry_init_def exclusive_def)
  show "registry_inv cfg e' (handle e' c s) \<and> exclusive body (handle e' c s)"
    if "registry_inv cfg e s \<and> exclusive body s" "identified_next body e e' c" for e e' c s
    using that registry_inv_env [of cfg e s e'] registry_inv_handle exclusive_handle
    by (auto simp: identified_next_def)
qed

end
