(* ===== verification/Registry_Progress.thy ===== *)
theory Registry_Progress
  imports Registry_Inv
begin

text \<open>
  How the status of an assignment evolves: no command but a progress report changes it while it
  lasts, and a report only raises its progress.
\<close>

text \<open>The statuses under which a request is worked on (at most one, by the single owner).\<close>

definition statuses :: "b256 \<Rightarrow> (string, worker_state) amap \<Rightarrow> worker_status set" where
  "statuses rid ws = {ws_status w |a w. (a, w) \<in> set ws \<and> works_on rid w}"

lemma statusesI: "(a, w) \<in> set ws \<Longrightarrow> works_on rid w \<Longrightarrow> ws_status w \<in> statuses rid ws"
  by (auto simp: statuses_def)

lemma statuses_mod:
  assumes "\<And>w. works_on rid (f w) \<Longrightarrow> ws_status (f w) = ws_status w"
  shows "statuses rid (amap_mod a f ws) \<subseteq> statuses rid ws"
proof
  fix st assume "st \<in> statuses rid (amap_mod a f ws)"
  then obtain b v where v: "(b, v) \<in> set (amap_mod a f ws)" "works_on rid v" "st = ws_status v"
    by (auto simp: statuses_def)
  show "st \<in> statuses rid ws"
  proof (cases "b = a")
    case True
    with v(1) obtain u where "(a, u) \<in> set ws" "v = f u" by (auto simp: in_amap_mod)
    with v assms have "works_on rid u" "st = ws_status u" by (auto simp: works_on_def)
    with \<open>(a, u) \<in> set ws\<close> show ?thesis by (auto intro: statusesI)
  next
    case False
    with v show ?thesis by (auto simp: in_amap_mod intro: statusesI)
  qed
qed

lemma statuses_mono: "set vs \<subseteq> set ws \<Longrightarrow> statuses rid vs \<subseteq> statuses rid ws"
  unfolding statuses_def by blast

lemma statuses_strike_all: "statuses rid (strike_all as ws) \<subseteq> statuses rid ws"
proof
  fix st assume "st \<in> statuses rid (strike_all as ws)"
  then obtain a w where w: "(a, w) \<in> set (strike_all as ws)" "works_on rid w" "st = ws_status w"
    by (auto simp: statuses_def)
  from strike_all_status [OF w(1)] obtain v where "(a, v) \<in> set ws" "ws_status w = ws_status v" by blast
  with w show "st \<in> statuses rid ws" by (metis statusesI works_on_def)
qed

lemma statuses_try_assign:
  assumes "env_ok e" "amap_ok (rg_workers s)" "try_assign e r s = (ok, s')" "request_id r \<noteq> rid"
  shows "statuses rid (rg_workers s') \<subseteq> statuses rid (rg_workers s)"
proof -
  have "statuses rid (amap_mod a (assigned_proof e (request_id r) vm m) ws) \<subseteq> statuses rid ws" for a vm m ws
    by (rule statuses_mod) (use assms(4) in simp)
  then have "statuses rid (amap_mod a (assigned_proof e (request_id r) vm m) (strike_all pre ws)) \<subseteq>
      statuses rid ws" for a vm m pre ws
    using statuses_strike_all by blast
  then show ?thesis
    by (cases rule: try_assign_cases [OF assms(1,2), of r]; use assms(3) statuses_strike_all in auto)
qed

text \<open>Assigning a request again to a registry where a worker is busy with it changes no worker.\<close>

lemma try_assign_again:
  assumes "env_ok e" "amap_ok (rg_workers s)" "(a, w) \<in> set (rg_workers s)" "works_on (request_id r) w"
  shows "try_assign e r s = (True, s)"
  using assms(1,2) by (cases rule: try_assign_cases [where r = r]) (use assms(3,4) in auto)

lemma statuses_drain:
  assumes "env_ok e" "wf_workers (rg_workers s)" "rid \<notin> set (rids (rg_pending s))"
  shows "statuses rid (rg_workers (drain_pending e s)) \<subseteq> statuses rid (rg_workers s)"
proof -
  have "statuses rid (rg_workers (drain_loop e q st s)) \<subseteq> statuses rid (rg_workers s)"
    if "rid \<notin> set (rids q)" "wf_workers (rg_workers s)" for q st s
    using that
  proof (induction q arbitrary: st s)
    case (Cons p q)
    obtain r t where p: "p = (r, t)" by (cases p)
    let ?s = "s\<lparr>rg_pending := q\<rparr>"
    obtain k s1 where t: "try_assign e r ?s = (k, s1)" by (cases "try_assign e r ?s")
    have ok: "amap_ok (rg_workers ?s)" using Cons.prems by auto
    have "wf_workers (rg_workers s1)" using try_assign_wf [OF assms(1) _ t] Cons.prems by simp
    then have "statuses rid (rg_workers (drain_loop e q st' s1)) \<subseteq> statuses rid (rg_workers s1)" for st'
      using Cons by (simp add: p)
    moreover have "statuses rid (rg_workers s1) \<subseteq> statuses rid (rg_workers s)"
      using statuses_try_assign [OF assms(1) ok t, of rid] Cons.prems by (auto simp: p)
    ultimately show ?case by (auto simp: p t split: if_splits)
  qed simp
  moreover have "rid \<notin> set (rids (fresh e (rg_pending s)))"
    using assms(3) rids_subseq [OF fresh_subseq] by blast
  ultimately show ?thesis using assms(2) by (simp add: drain_pending_def fresh_def not_less)
qed

lemma statuses_register:
  assumes "env_ok e" "amap_ok (rg_workers s)"
  shows "statuses rid (rg_workers (register_worker e addr nm vms g ov mg nonce c s)) \<subseteq>
         statuses rid (rg_workers s)"
  using assms
proof (cases rule: register_worker_cases
    [where addr = addr and nm = nm and vms = vms and g = g and ov = ov and mg = mg and nonce = nonce and c = c])
  case (carried key old)
  have "works_on rid ((worker_new e nm vms g ov mg nonce c)\<lparr>ws_status := ws_status old\<rparr>) = works_on rid old"
    by (simp add: works_on_def)
  then show ?thesis
    using carried(3,7) assms(2) by (auto simp: statuses_def in_amap_insert) blast
qed (use assms(2) in \<open>auto simp: statuses_def in_amap_insert\<close>)

text \<open>A report keeps the assignment and takes the greater progress.\<close>

lemma update_progress_status:
  assumes "ws_status w = Busy rid vm m st pr upd"
  shows "\<exists>pr' upd'. ws_status (update_progress e pu w) = Busy rid vm m st pr' upd' \<and> pr \<le> pr' \<and>
           (pu \<noteq> None \<longrightarrow> \<not> pr' < pu)"
proof (cases pu)
  case None
  then show ?thesis using assms by (simp add: update_progress_def)
next
  case (Some p)
  then show ?thesis using assms by (auto simp: update_progress_def less_imp_le)
qed

text \<open>Two statuses of one assignment, the second no less advanced.\<close>

definition advances :: "worker_status \<Rightarrow> worker_status \<Rightarrow> bool" where
  "advances st st' \<longleftrightarrow> (\<exists>rid vm m start pr pr' upd upd'.
     st = Busy rid vm m start pr upd \<and> st' = Busy rid vm m start pr' upd' \<and> pr \<le> pr')"

lemma advances_refl: "st \<noteq> Idle \<Longrightarrow> advances st st"
  by (cases st) (auto simp: advances_def)

lemma statuses_handle:
  assumes inv: "registry_inv cfg e s" and x: "exclusive body s"
    and old: "statuses rid (rg_workers s) \<noteq> {}"
    and c: "\<And>r. c = Cmd_AssignProofRequest r \<Longrightarrow> request_id r = rid \<Longrightarrow>
      \<exists>(a, w) \<in> set (rg_workers s). works_on rid w \<and> \<not> should_drop e (rg_config s) w"
    and u: "\<And>r p. c \<noteq> Cmd_ProofProgressUpdate r p"
  shows "statuses rid (rg_workers (handle e c s)) \<subseteq> statuses rid (rg_workers s)"
proof -
  note I = registry_invD [OF inv]
  have trim: "statuses rid (rg_workers (trim_workers e t)) \<subseteq> statuses rid (rg_workers t)"
    if "amap_ok (rg_workers t)" for t :: "'a registry"
    by (rule statuses_mono) (use trim_workers_set [OF I(1) that] in auto)
  have free: "rid \<notin> set (rids (rg_pending s))"
    using old exclusiveD(2) [OF x] by (force simp: statuses_def in_rids)
  have drain: "statuses rid (rg_workers (drain_pending e t)) \<subseteq> statuses rid (rg_workers t)"
    if "wf_workers (rg_workers t)" "rg_pending t = rg_pending s" for t
    by (rule statuses_drain [OF I(1) that(1)]) (simp add: that(2) free)
  have freed: "statuses rid (rg_workers (drain_pending e t)) \<subseteq> statuses rid (rg_workers s)"
    if "rg_workers t = amap_mod a f (rg_workers s)" "rg_pending t = rg_pending s"
      "\<And>w r. \<not> works_on r (f w)" for t a f
  proof -
    have "wf_workers (rg_workers t)" 
      unfolding that(1) by (rule wf_workers_mod [OF I(3)]) (simp add: that(3))
    from drain [OF this that(2)] show ?thesis
      using statuses_mod [of rid f a "rg_workers s"] that by auto
  qed
  have strikes: "statuses rid (rg_workers (mod_worker a f t)) \<subseteq> statuses rid (rg_workers t)"
    if "\<And>w. ws_status (f w) = ws_status w" for a f and t :: "'a registry"
    using statuses_mod [of rid f a "rg_workers t"] that by simp
  show ?thesis
  proof (cases c)
    case (Cmd_AssignProofRequest r)
    obtain k s' where t: "try_assign e r (trim_workers e s) = (k, s')"
      by (cases "try_assign e r (trim_workers e s)")
    have ok: "amap_ok (rg_workers (trim_workers e s))" using trim_wf [OF I(1,3)] by auto
    have "statuses rid (rg_workers s') \<subseteq> statuses rid (rg_workers (trim_workers e s))"
    proof (cases "request_id r = rid")
      case True
      from c [OF Cmd_AssignProofRequest this] obtain a w where
        "(a, w) \<in> set (rg_workers (trim_workers e s))" "works_on (request_id r) w"
        using True by (auto simp: trim_workers_set [OF I(1,4)])
      from try_assign_again [OF I(1) ok this] t show ?thesis by simp
    qed (use statuses_try_assign [OF I(1) ok t] in simp)
    with trim [OF I(4)] have "statuses rid (rg_workers s') \<subseteq> statuses rid (rg_workers s)" by blast
    then show ?thesis using Cmd_AssignProofRequest by (simp add: handle_assign_proof_def t)
  next
    case (Cmd_WorkerReady a nm vms g ov mg nc ch)
    have "statuses rid (rg_workers (handle e c s)) \<subseteq>
        statuses rid (rg_workers (register_worker e a nm vms g ov mg nc ch s))"
      unfolding Cmd_WorkerReady
      using drain [OF register_worker_wf [OF I(1,3)]] by (simp add: handle_worker_ready_def)
    with statuses_register [OF I(1,4)] show ?thesis by blast
  next
    case (Cmd_ProofStatusRequest r rs)
    with trim [OF I(4)] strikes [of "\<lambda>w. w\<lparr>ws_strikes := _\<rparr>"] show ?thesis
      by (auto simp: handle_proof_status_request_def Let_def split: option.split dest!: subsetD
          simp del: mod_worker_frame)
  next
    case (Cmd_ProofStatusResponse r st)
    have "statuses rid (rg_workers (free_worker_of_failed_proof e r st' s)) \<subseteq> statuses rid (rg_workers s)"
      for st'
      using freed [OF mod_worker_frame(2) mod_worker_frame(6) works_on_update(2)]
      by (auto simp: free_worker_of_failed_proof_def split: option.split)
    then show ?thesis
      unfolding Cmd_ProofStatusResponse
      by (auto simp: handle_proof_status_response_def Let_def fold_emit split: option.splits)
  next
    case (Cmd_ProofComplete r)
    have "statuses rid (rg_workers (drain_pending e
        ((mod_worker a completed_proof s)\<lparr>rg_proof_history := h\<rparr>))) \<subseteq> statuses rid (rg_workers s)" for a h
      by (rule freed [of _ a completed_proof]) simp_all
    with drain [OF I(3)] show ?thesis
      unfolding Cmd_ProofComplete
      by (simp add: handle_proof_complete_def Let_def split: option.split worker_status.split)
  next
    case (Cmd_Heartbeat a rs)
    with strikes [of "worker_heartbeat e"] show ?thesis
      by (auto simp: handle_heartbeat_def split: option.splits dest!: subsetD simp del: mod_worker_frame)
  next
    case (Cmd_StrikeWorkerOfRequest r)
    have "statuses rid (rg_workers (trim_workers e (mod_worker a add_strike s))) \<subseteq> statuses rid (rg_workers s)" for a
      using trim [of "mod_worker a add_strike s"] strikes [of add_strike a s] I(4) by auto
    then show ?thesis
      unfolding Cmd_StrikeWorkerOfRequest
      by (auto simp: handle_strike_worker_of_request_def split: option.splits)
  next
    case (Cmd_DropWorkerOfRequest r)
    have "statuses rid (rg_workers (trim_workers e (mod_worker a (\<lambda>w. w\<lparr>ws_strikes := k\<rparr>) s))) \<subseteq>
        statuses rid (rg_workers s)" for a k
      using trim [of "mod_worker a (\<lambda>w. w\<lparr>ws_strikes := k\<rparr>) s"] strikes [of "\<lambda>w. w\<lparr>ws_strikes := k\<rparr>" a s] I(4)
      by auto
    then show ?thesis
      unfolding Cmd_DropWorkerOfRequest
      by (auto simp: handle_drop_worker_of_request_def split: option.splits)
  qed (use u in \<open>auto simp: handle_pending_info_def handle_workers_def handle_dead_workers_def
      handle_proof_history_def Let_def\<close>)
qed

end
