(* ===== verification/Registry_Props.thy ===== *)
theory Registry_Props
  imports Registry_Progress
begin

text \<open>
  The properties of the worker registry. Each is stated over the states the event loop reaches
  from \<open>registry_init\<close>, or over one handler run in such a state.
\<close>

section \<open>A concrete run\<close>

text \<open>One RISC Zero worker registers, then two requests arrive: one is assigned, one is queued.\<close>

definition demo_env :: "nat \<Rightarrow> env" where
  "demo_env t = \<lparr>now_i = t, now_s = t, chan_open = (\<lambda>_. True), iter_order = (\<lambda>ks. ks)\<rparr>"

definition demo_req :: "b256 \<Rightarrow> unit contemplant_proof_request" where
  "demo_req rid = Req_Risc0 \<lparr>r0_request_id = rid, r0_elf = [], r0_input = [], r0_mode = R_Succinct,
     r0_mock = False, r0_wrap_of = None\<rparr>"

definition demo_ready :: "unit worker_registry_command" where
  "demo_ready = Cmd_WorkerReady ''w1'' ''alice'' [Vm_Risc0] False False (Some ''http'') 7 0"

definition demo_state :: "unit registry" where
  "demo_state = handle (demo_env 0) (Cmd_AssignProofRequest (demo_req 2))
     (handle (demo_env 0) (Cmd_AssignProofRequest (demo_req 1))
       (handle (demo_env 0) demo_ready (registry_init default_worker_registry_config)))"

lemma demo_env_ok [simp]: "env_ok (demo_env t)"
  by (simp add: env_ok_def demo_env_def)

definition demo_worker :: "worker_state" where
  "demo_worker = \<lparr>ws_name = ''alice'', ws_status = Busy 1 Vm_Risc0 ''SUCCINCT'' 0 None 0,
     ws_last_vm = Some Vm_Risc0,
     ws_capabilities = \<lparr>cap_vms = [Vm_Risc0], cap_risc0_groth16 = False, cap_openvm_evm = False\<rparr>,
     ws_strikes = 0, ws_last_heartbeat = 0, ws_sender = 0, ws_magister_drop_endpoint = Some ''http'',
     ws_instance_nonce = 7\<rparr>"

lemmas demo_defs = handle_assign_proof_def trim_workers_def try_assign_def candidates_def
  drain_pending_def handle_worker_ready_def register_worker_def stale_key_def registry_init_def
  worker_new_def amap_insert_def amap_mod_def amap_remove_def mod_worker_def emit_def entries_def
  should_drop_def can_serve_def supports_def is_busy_def works_on_def assigned_proof_def
  queued_def PENDING_QUEUE_CAP_def default_worker_registry_config_def elapsed_def from_secs_def
  nanos_per_sec_def duration_since_def

lemma demo_state_eq:
  "demo_state = \<lparr>rg_config = default_worker_registry_config, rg_workers = [(''w1'', demo_worker)],
     rg_dead_workers = [], rg_awaiting = Map.empty, rg_proof_history = [],
     rg_pending = [(demo_req 2, 0)], rg_sent = [SendWorker 0 (ProofRequest (demo_req 1))]\<rparr>"
  by (simp add: demo_state_def demo_ready_def demo_env_def demo_req_def demo_worker_def demo_defs Let_def)

lemma demo_reach: "reach handle registry_next (registry_start default_worker_registry_config) (demo_env 0) demo_state"
proof -
  have n: "registry_next (demo_env 0) (demo_env 0) c" for c :: "unit worker_registry_command"
    by (simp add: registry_next_def env_next_def)
  have "reach handle registry_next (registry_start default_worker_registry_config) (demo_env 0)
      (registry_init default_worker_registry_config :: unit registry)"
    by (rule reach_start) (simp add: registry_start_def)
  note r1 = reach_step [OF this n]
  note r2 = reach_step [OF r1 n]
  show ?thesis unfolding demo_state_def by (rule reach_step [OF r2 n])
qed

section \<open>Invariants of every reachable state\<close>

text \<open>C1. In every state the registry reaches, a proof request is being worked on by at most one
  registered worker.\<close>

theorem registry_single_owner:
  assumes "reach handle registry_next (registry_start cfg) e s"
    and "(a, w) \<in> set (rg_workers s)" "(b, v) \<in> set (rg_workers s)"
    and "works_on rid w" "works_on rid v"
  shows "a = b \<and> w = v"
proof -
  note I = registry_invD [OF reg.reach_inv [OF assms(1)]]
  have "a = b" using I(3) assms(2-5) unfolding wf_workers_def by (blast dest: single_ownerD)
  then show ?thesis using amap_ok_unique [OF I(4)] assms(2,3) by blast
qed

theorem registry_single_owner_witness:
  "(''w1'', demo_worker) \<in> set (rg_workers demo_state) \<and> works_on 1 demo_worker \<and>
   (''w1'' = ''w1'' \<and> demo_worker = demo_worker)"
proof -
  have m: "(''w1'', demo_worker) \<in> set (rg_workers demo_state)" by (simp add: demo_state_eq)
  have w: "works_on 1 demo_worker" by (simp add: works_on_def demo_worker_def)
  from registry_single_owner [OF demo_reach m m w w] m w show ?thesis by blast
qed

text \<open>C5. The pending queue never holds two requests with the same id and never exceeds its cap
  of 64 entries.\<close>

theorem registry_queue_bounded:
  assumes "reach handle registry_next (registry_start cfg) e s"
  shows "distinct (rids (rg_pending s)) \<and> length (rg_pending s) \<le> PENDING_QUEUE_CAP"
  using registry_invD(5,6) [OF reg.reach_inv [OF assms]] by blast

theorem registry_queue_bounded_witness:
  "rids (rg_pending demo_state) = [2] \<and> distinct [2 :: b256] \<and> (1 :: nat) \<le> PENDING_QUEUE_CAP"
  using registry_queue_bounded [OF demo_reach]
  by (simp add: demo_state_eq demo_req_def)

text \<open>C2. Capacity is never left unused: in every state the registry reaches, a worker that could
  serve some queued request and whose channel is open is busy.\<close>

theorem registry_work_conserving:
  assumes "reach handle registry_next (registry_start cfg) e s"
    and "(r, t) \<in> set (rg_pending s)" "(a, w) \<in> set (rg_workers s)"
    and "can_serve r w" "chan_open e (ws_sender w)"
  shows "is_busy w"
  using registry_invD(7) [OF reg.reach_inv [OF assms(1)] assms(2)] assms(3-5)
  by (auto simp: no_capacity_def)

theorem registry_work_conserving_witness:
  "(demo_req 2, 0) \<in> set (rg_pending demo_state) \<and> can_serve (demo_req 2) demo_worker \<and>
   is_busy demo_worker"
proof -
  have q: "(demo_req 2, 0) \<in> set (rg_pending demo_state)" by (simp add: demo_state_eq)
  have m: "(''w1'', demo_worker) \<in> set (rg_workers demo_state)" by (simp add: demo_state_eq)
  have c: "can_serve (demo_req 2) demo_worker"
    by (simp add: can_serve_def supports_def demo_worker_def demo_req_def)
  have o: "chan_open (demo_env 0) (ws_sender demo_worker)" by (simp add: demo_env_def)
  from registry_work_conserving [OF demo_reach q m c o] q c show ?thesis by blast
qed

text \<open>C3. When ids identify requests, no request is at once queued and worked on, in any state the
  registry reaches: a queued request is not proven twice.\<close>

theorem registry_queued_not_assigned:
  assumes "reach handle (identified_next body) (registry_start cfg) e s"
    and "(r, t) \<in> set (rg_pending s)" "(a, w) \<in> set (rg_workers s)"
  shows "\<not> works_on (request_id r) w"
  using excl.reach_inv [OF assms(1)] exclusiveD(2) assms(2,3) by blast

lemma demo_reach_identified:
  "reach handle (identified_next demo_req) (registry_start default_worker_registry_config) (demo_env 0)
     demo_state"
proof -
  have n: "identified_next demo_req (demo_env 0) (demo_env 0) (Cmd_AssignProofRequest (demo_req i))" for i
    by (simp add: identified_next_def env_next_def demo_req_def)
  have r: "identified_next demo_req (demo_env 0) (demo_env 0) demo_ready"
    by (simp add: identified_next_def env_next_def demo_ready_def)
  have "reach handle (identified_next demo_req) (registry_start default_worker_registry_config) (demo_env 0)
      (registry_init default_worker_registry_config :: unit registry)"
    by (rule reach_start) (simp add: registry_start_def)
  note r1 = reach_step [OF this r]
  note r2 = reach_step [OF r1 n]
  show ?thesis unfolding demo_state_def by (rule reach_step [OF r2 n])
qed

theorem registry_queued_not_assigned_witness:
  "(demo_req 2, 0) \<in> set (rg_pending demo_state) \<and> \<not> works_on (request_id (demo_req 2)) demo_worker"
proof -
  have q: "(demo_req 2, 0) \<in> set (rg_pending demo_state)" by (simp add: demo_state_eq)
  have m: "(''w1'', demo_worker) \<in> set (rg_workers demo_state)" by (simp add: demo_state_eq)
  from registry_queued_not_assigned [OF demo_reach_identified q m] q show ?thesis by blast
qed

section \<open>Assignment and the queue\<close>

lemma queued_emit [simp]: "queued rid (emit x s) = queued rid s"
  by (simp add: queued_def)

text \<open>C4. A proof request handed to the registry is never silently lost while the queue has room:
  afterwards a worker is busy with it, or it is queued, or the queue is full and unchanged.\<close>

theorem assign_proof_accounted:
  fixes r :: "'s contemplant_proof_request"
  assumes "reach handle registry_next (registry_start cfg) e s" "env_next e e'"
  defines "s' \<equiv> handle e' (Cmd_AssignProofRequest r) s"
  shows "(\<exists>(a, w) \<in> set (rg_workers s'). works_on (request_id r) w) \<or>
         queued (request_id r) s' \<or>
         (length (rg_pending s') = PENDING_QUEUE_CAP \<and> rg_pending s' = rg_pending s)"
proof -
  note I = registry_inv_env [OF reg.reach_inv [OF assms(1)] assms(2)]
  let ?t = "trim_workers e' s"
  note T = registry_invD [OF registry_inv_trim [OF I]]
  obtain k u where t: "try_assign e' r ?t = (k, u)" by (cases "try_assign e' r ?t")
  note f = try_assign_frame [OF T(1) T(4) t]
  have s': "s' = (if k then u else if queued (request_id r) u then u
      else if length (rg_pending u) \<ge> PENDING_QUEUE_CAP then u
      else u\<lparr>rg_pending := rg_pending u @ [(r, now_i e')]\<rparr>)"
    by (simp add: s'_def handle_assign_proof_def t)
  show ?thesis
  proof (cases k)
    case True
    with try_assign_True [OF T(1,4), of r u] t s' show ?thesis by simp
  next
    case False
    then show ?thesis using s' f(5) T(6) by (auto simp: queued_def)
  qed
qed

theorem assign_proof_accounted_witness:
  "rg_pending (handle (demo_env 0) (Cmd_AssignProofRequest (demo_req 3)) demo_state) =
     [(demo_req 2, 0), (demo_req 3, 0)] \<and>
   queued 3 (handle (demo_env 0) (Cmd_AssignProofRequest (demo_req 3)) demo_state)"
proof -
  have n: "env_next (demo_env 0) (demo_env 0)" by (simp add: env_next_def)
  have w: "rg_workers (handle (demo_env 0) (Cmd_AssignProofRequest (demo_req 3)) demo_state) =
      [(''w1'', demo_worker)]"
    and p: "rg_pending (handle (demo_env 0) (Cmd_AssignProofRequest (demo_req 3)) demo_state) =
     [(demo_req 2, 0), (demo_req 3, 0)]"
    by (simp_all add: demo_state_eq demo_env_def demo_req_def demo_worker_def demo_defs Let_def)
  from assign_proof_accounted [OF demo_reach n, of "demo_req 3"] p show ?thesis
    by (simp only: w p) (simp add: works_on_def demo_worker_def demo_req_def PENDING_QUEUE_CAP_def)
qed

text \<open>An assignment goes to an idle worker that can serve the request and whose channel is open,
  one whose last machine is that of the request if there is such a worker; exactly the request is
  sent to it, and it becomes busy with it.\<close>

theorem try_assign_placement:
  assumes "env_ok e" "wf_workers (rg_workers s)" "try_assign e r s = (True, s')"
    and "\<And>b v. (b, v) \<in> set (rg_workers s) \<Longrightarrow> \<not> works_on (request_id r) v"
  shows "\<exists>a w. (a, w) \<in> set (rg_workers s) \<and> \<not> is_busy w \<and> can_serve r w \<and>
           chan_open e (ws_sender w) \<and>
           (ws_last_vm w = Some (request_vm r) \<or>
             (\<forall>(b, v) \<in> set (rg_workers s). can_serve r v \<and> \<not> is_busy v \<and> chan_open e (ws_sender v) \<longrightarrow>
               ws_last_vm v \<noteq> Some (request_vm r))) \<and>
           rg_sent s' = rg_sent s @ [SendWorker (ws_sender w) (ProofRequest r)] \<and>
           (a, assigned_proof e (request_id r) (request_vm r) (mode_name r) w) \<in> set (rg_workers s')"
  using assms(1) wf_workersD [OF assms(2)]
proof (cases rule: try_assign_cases [where r = r])
  case (already a w)
  with assms(4) show ?thesis by blast
next
  case (placed a w pre)
  have "(a, w) \<in> set (strike_all pre (rg_workers s))"
    using in_strike_all_other [OF placed(6)] placed(2) by blast
  then have "(a, assigned_proof e (request_id r) (request_vm r) (mode_name r) w) \<in> set (rg_workers s')"
    and "rg_sent s' = rg_sent s @ [SendWorker (ws_sender w) (ProofRequest r)]"
    using assms(3) placed(8) by (auto simp: in_amap_mod)
  with placed show ?thesis by blast
next
  case refused
  with assms(3) show ?thesis by simp
qed

text \<open>The registry when only the worker has registered.\<close>

definition demo_idle :: "unit registry" where
  "demo_idle = handle (demo_env 0) demo_ready (registry_init default_worker_registry_config)"

lemma demo_idle_eq:
  "demo_idle = \<lparr>rg_config = default_worker_registry_config,
     rg_workers = [(''w1'', demo_worker\<lparr>ws_status := Idle, ws_last_vm := None\<rparr>)],
     rg_dead_workers = [], rg_awaiting = Map.empty, rg_proof_history = [],
     rg_pending = [], rg_sent = []\<rparr>"
  by (simp add: demo_idle_def demo_ready_def demo_env_def demo_req_def demo_worker_def demo_defs Let_def)

theorem try_assign_placement_witness:
  "fst (try_assign (demo_env 0) (demo_req 1) demo_idle) \<and>
   rg_sent (snd (try_assign (demo_env 0) (demo_req 1) demo_idle)) =
     [SendWorker 0 (ProofRequest (demo_req 1))]"
proof -
  obtain k u where t: "try_assign (demo_env 0) (demo_req 1) demo_idle = (k, u)"
    by (cases "try_assign (demo_env 0) (demo_req 1) demo_idle")
  have k: "k" using t by (simp add: demo_idle_eq demo_env_def demo_req_def demo_worker_def demo_defs Let_def)
  have i: "\<not> works_on (request_id (demo_req 1)) v" if "(b, v) \<in> set (rg_workers demo_idle)" for b v
    using that by (simp add: demo_idle_eq works_on_def)
  have wf: "wf_workers (rg_workers demo_idle)"
    by (simp add: demo_idle_eq wf_workers_def amap_ok_def single_owner_def)
  have "try_assign (demo_env 0) (demo_req 1) demo_idle = (True, u)" using t k by simp
  from try_assign_placement [OF demo_env_ok wf this i] show ?thesis
    by (auto simp: t k) (auto simp: demo_idle_eq demo_worker_def)
qed

text \<open>C6. Draining drops exactly the entries that waited longer than two hours, keeps the others in
  their order unless they got a worker, and leaves no other entry without a worker.\<close>

theorem drain_pending_fifo:
  assumes "env_ok e" "wf_workers (rg_workers s)"
  shows "subseq (rg_pending (drain_pending e s))
           (filter (\<lambda>(_, t). elapsed e t \<le> from_secs 7200) (rg_pending s)) \<and>
         (\<forall>(r, t) \<in> set (rg_pending s). elapsed e t \<le> from_secs 7200 \<longrightarrow>
            (r, t) \<in> set (rg_pending (drain_pending e s)) \<or>
            (\<exists>(a, w) \<in> set (rg_workers (drain_pending e s)). works_on (request_id r) w))"
proof -
  note D = drainedD [OF drain_pending_drained [OF assms]]
  have "fresh e (rg_pending s) = filter (\<lambda>(_, t). elapsed e t \<le> from_secs 7200) (rg_pending s)"
    by (simp add: fresh_def PENDING_TTL_def)
  with D(1,8) show ?thesis by auto
qed

text \<open>Two queued requests, the first of which has expired one second past the two hours.\<close>

definition demo_stale :: "unit registry" where
  "demo_stale = demo_state\<lparr>rg_pending := [(demo_req 2, 0), (demo_req 3, from_secs 7200)]\<rparr>"

theorem drain_pending_fifo_witness:
  "map fst (rg_pending (drain_pending (demo_env (from_secs 7201)) demo_stale)) = [demo_req 3]"
proof -
  have wf: "wf_workers (rg_workers demo_stale)"
    by (simp add: demo_stale_def demo_state_eq wf_workers_def amap_ok_def single_owner_def)
  let ?d = "drain_pending (demo_env (from_secs 7201)) demo_stale"
  have "filter (\<lambda>(_, t). elapsed (demo_env (from_secs 7201)) t \<le> from_secs 7200) (rg_pending demo_stale) =
      [(demo_req 3, from_secs 7200)]"
    by (simp add: demo_stale_def demo_env_def elapsed_def from_secs_def nanos_per_sec_def)
  with drain_pending_fifo [OF demo_env_ok wf, of "from_secs 7201"]
  have s: "subseq (rg_pending ?d) [(demo_req 3, from_secs 7200)]" by simp
  have "rg_pending ?d \<noteq> []"
    by (simp add: demo_stale_def demo_state_eq demo_env_def demo_req_def demo_worker_def demo_defs
        PENDING_TTL_def Let_def)
  with s show ?thesis by (cases "rg_pending ?d") (auto split: if_splits)
qed

section \<open>Completion and failure hand the worker over\<close>

text \<open>
  What becomes of the worker at \<open>a\<close>, idle as \<open>w\<close>, when the queue of \<open>s\<close> is drained into \<open>s'\<close>: with
  an open channel it is sent, and is busy with, the oldest live entry that it can serve and no
  other worker works on, or is left exactly as it is when there is no such entry; with a closed
  channel it stays idle.
\<close>

definition takes_next :: "env \<Rightarrow> 's registry \<Rightarrow> string \<Rightarrow> worker_state \<Rightarrow> 's registry \<Rightarrow> bool" where
  "takes_next e s a w s' \<longleftrightarrow>
     (if chan_open e (ws_sender w)
      then (case next_request (rg_workers s) a w (fresh e (rg_pending s)) of
              None \<Rightarrow> (a, w) \<in> set (rg_workers s')
            | Some r \<Rightarrow> (a, handed e r w) \<in> set (rg_workers s') \<and>
                SendWorker (ws_sender w) (ProofRequest r) \<in> set (rg_sent s'))
      else (\<exists>v. (a, v) \<in> set (rg_workers s') \<and> \<not> is_busy v))"

lemma freed_takes_next:
  assumes inv: "registry_inv cfg e s" and w: "(a, w) \<in> set (rg_workers s)"
    and s': "rg_pending s' = rg_pending s" "rg_workers s' = amap_mod a f (rg_workers s)"
    and f: "\<And>v. \<not> is_busy (f v)"
  shows "takes_next e s a (f w) (drain_pending e s')"
proof -
  note I = registry_invD [OF inv]
  have nf: "\<not> works_on rid (f v)" for rid v using f works_on_busy by blast
  have wf: "wf_workers (rg_workers s')" unfolding s' by (rule wf_workers_mod [OF I(3)]) (simp add: nf)
  have m: "(a, f w) \<in> set (rg_workers s')" using w by (auto simp: s' in_amap_mod)
  let ?q = "fresh e (rg_pending s)"
  have d: "drain_pending e s' = drain_loop e ?q [] s'"
    by (simp add: drain_pending_def fresh_def s' not_less)
  have full: "others_full e a r (rg_workers s')" if "(r, t) \<in> set ?q" for r t
  proof -
    have "no_capacity e r (rg_workers s)" using I(7) [of r t] that by (simp add: fresh_def)
    then show ?thesis by (auto simp: others_full_def no_capacity_def s' in_amap_mod)
  qed
  have "next_request (rg_workers s') a (f w) ?q = next_request (rg_workers s) a (f w) ?q"
    unfolding s' by (rule next_request_cong) (auto simp: in_amap_mod)
  then show ?thesis
    using drain_loop_takes [OF I(1) wf m f, of ?q "[]"] full drain_loop_closed [OF I(1) wf m f, of ?q "[]"]
    by (simp add: takes_next_def d)
qed

text \<open>C7. When a proof completes, its worker is recorded in the history, and takes the oldest live
  queued request that it can serve and that no other worker works on (it is sent exactly that
  request and is busy with it); when the queue has no such request, or the worker's channel is
  closed, it becomes idle.\<close>

theorem proof_complete_hands_over:
  assumes "reach handle registry_next (registry_start cfg) e s" "env_next e e'"
    and "(a, w) \<in> set (rg_workers s)" "works_on rid w"
  shows "takes_next e' s a (completed_proof w) (handle e' (Cmd_ProofComplete rid) s) \<and>
         (\<exists>info. rg_proof_history (handle e' (Cmd_ProofComplete rid) s) = rg_proof_history s @ [info] \<and>
            cpi_proof_request_id info = rid \<and> cpi_worker_addr info = a \<and> cpi_worker_name info = ws_name w)"
proof -
  have inv: "registry_inv cfg e' s" by (rule registry_inv_env [OF reg.reach_inv [OF assms(1)] assms(2)])
  note I = registry_invD [OF inv]
  have find: "find_worker e' rid s = Some (a, w)" by (rule find_worker_unique [OF I(1,3) assms(3,4)])
  obtain vm m st pr upd where st: "ws_status w = Busy rid vm m st pr upd"
    using assms(4) by (auto simp: works_on_def split: worker_status.splits)
  define info where
    "info = completed_proof_info_new rid vm m (minutes_f 24 (elapsed e' st)) a (ws_name w)"
  define s1 where
    "s1 = (mod_worker a completed_proof s)\<lparr>rg_proof_history := rg_proof_history s @ [info]\<rparr>"
  have h: "handle e' (Cmd_ProofComplete rid) s = drain_pending e' s1"
    by (simp add: handle_proof_complete_def find st s1_def info_def Let_def)
  have "wf_workers (rg_workers s1)" 
    using wf_workers_mod [OF I(3), of a completed_proof] by (simp add: s1_def)
  from drainedD(7) [OF drain_pending_drained [OF I(1) this]]
  have "rg_proof_history (drain_pending e' s1) = rg_proof_history s @ [info]" by (simp add: s1_def)
  moreover have "takes_next e' s a (completed_proof w) (drain_pending e' s1)"
    by (rule freed_takes_next [where f = completed_proof, OF inv assms(3)]) (simp_all add: s1_def)
  ultimately show ?thesis
    unfolding h by (auto simp: info_def completed_proof_info_new_def)
qed

lemma demo_next: "env_next (demo_env t) (demo_env t') \<longleftrightarrow> t \<le> t'"
  by (simp add: env_next_def) (simp add: demo_env_def)

lemma demo_worker_in: "(''w1'', demo_worker) \<in> set (rg_workers demo_state)"
  by (simp add: demo_state_eq)

lemma demo_works_on: "works_on 1 demo_worker"
  by (simp add: works_on_def demo_worker_def)

lemma demo_fresh: "t \<le> PENDING_TTL \<Longrightarrow> fresh (demo_env t) (rg_pending demo_state) = [(demo_req 2, 0)]"
  by (simp add: fresh_def demo_state_eq demo_env_def elapsed_def)

lemma demo_serves: "can_serve (demo_req i) demo_worker"
  by (simp add: can_serve_def supports_def demo_worker_def demo_req_def)

lemma demo_open: "chan_open (demo_env t) c"
  by (simp add: demo_env_def)

lemma demo_next_request:
  assumes "t \<le> PENDING_TTL" "\<And>r :: unit contemplant_proof_request. can_serve r w = can_serve r demo_worker"
  shows "next_request (rg_workers demo_state) ''w1'' w (fresh (demo_env t) (rg_pending demo_state)) =
    Some (demo_req 2)"
  using assms(1) by (simp add: demo_fresh next_request_def assms(2) demo_serves) (simp add: demo_state_eq)

theorem proof_complete_hands_over_witness:
  "(''w1'', handed (demo_env 5) (demo_req 2) (completed_proof demo_worker)) \<in>
     set (rg_workers (handle (demo_env 5) (Cmd_ProofComplete 1) demo_state))"
proof -
  have "5 \<le> PENDING_TTL" by (simp add: PENDING_TTL_def from_secs_def nanos_per_sec_def)
  with proof_complete_hands_over [OF demo_reach _ demo_worker_in demo_works_on, of "demo_env 5"]
  show ?thesis by (simp add: demo_next takes_next_def demo_next_request demo_open)
qed

text \<open>C8. When a worker reports its proof as unexecutable, that worker is freed (not struck) and takes
  the oldest live queued request that it can serve and that no other worker works on; when the
  queue has no such request it is left exactly as freed, and with a closed channel it stays idle.\<close>

theorem unexecutable_hands_over:
  assumes "reach handle registry_next (registry_start cfg) e s" "env_next e e'"
    and "(a, w) \<in> set (rg_workers s)" "works_on rid w"
    and "cps_execution_status st = execution_status_i32 Unexecutable"
  shows "takes_next e' s a (failed_proof w) (handle e' (Cmd_ProofStatusResponse rid (Some st)) s) \<and>
         \<not> is_busy (failed_proof w) \<and> ws_strikes (failed_proof w) = ws_strikes w"
proof -
  have inv: "registry_inv cfg e' s" by (rule registry_inv_env [OF reg.reach_inv [OF assms(1)] assms(2)])
  note I = registry_invD [OF inv]
  have find: "find_worker e' rid s = Some (a, w)" by (rule find_worker_unique [OF I(1,3) assms(3,4)])
  have free: "free_worker_of_failed_proof e' rid (Some st) s = drain_pending e' (mod_worker a failed_proof s)"
    by (simp add: free_worker_of_failed_proof_def reported_unexecutable_def assms(5) find)
  let ?d = "drain_pending e' (mod_worker a failed_proof s)"
  let ?s' = "handle e' (Cmd_ProofStatusResponse rid (Some st)) s"
  have "rg_workers ?s' = rg_workers ?d" "set (rg_sent ?d) \<subseteq> set (rg_sent ?s')"
    by (auto simp: handle_proof_status_response_def bridge_startup_race_def free Let_def fold_emit
        split: option.split)
  moreover have "takes_next e' s a (failed_proof w) ?d"
    by (rule freed_takes_next [where f = failed_proof, OF inv assms(3)]) simp_all
  ultimately have "takes_next e' s a (failed_proof w) ?s'"
    by (auto simp: takes_next_def split: option.splits)
  then show ?thesis by (simp add: failed_proof_def is_busy_def)
qed

theorem unexecutable_hands_over_witness:
  "(''w1'', handed (demo_env 5) (demo_req 2) (failed_proof demo_worker)) \<in>
     set (rg_workers (handle (demo_env 5) (Cmd_ProofStatusResponse 1 (Some cps_default)) demo_state))"
proof -
  have "5 \<le> PENDING_TTL" by (simp add: PENDING_TTL_def from_secs_def nanos_per_sec_def)
  with unexecutable_hands_over [OF demo_reach _ demo_worker_in demo_works_on, of "demo_env 5" cps_default]
  show ?thesis by (simp add: demo_next takes_next_def demo_next_request demo_open cps_default_def)
qed

section \<open>Status polls\<close>

text \<open>A poll for a queued request is answered with the unexecuted status, which clients see as
  assigned: a request that waits for capacity is not reported as lost.\<close>

theorem queued_poll_not_lost:
  assumes "reach handle (identified_next body) (registry_start cfg) e s" "env_next e e'"
    and "queued rid s"
  shows "(\<exists>xs. rg_sent (handle e' (Cmd_ProofStatusRequest rid rs) s) =
            rg_sent s @ xs @ [ReplyStatus rs (Some cps_unexecuted)] \<and>
            (\<forall>x \<in> set xs. \<exists>ep. x = MagisterDelete ep)) \<and>
         status_from cps_unexecuted = Some status_assigned"
proof -
  have inv: "registry_inv cfg e' s" and x: "exclusive body s"
    using excl.reach_inv [OF assms(1)] registry_inv_env assms(2) by auto
  note I = registry_invD [OF inv] and T = registry_invD [OF registry_inv_trim [OF inv]]
  let ?t = "trim_workers e' s"
  have xt: "exclusive body ?t" by (rule exclusive_trim [OF I(1,4) x])
  have q: "queued rid ?t" using assms(3) by (simp add: queued_def)
  then have "find_worker e' rid ?t = None"
    unfolding find_worker_None_iff [OF T(1,4)] queued_def using exclusiveD(2) [OF xt] by blast
  then have "rg_sent (handle e' (Cmd_ProofStatusRequest rid rs) s) =
      rg_sent ?t @ [ReplyStatus rs (Some cps_unexecuted)]"
    using q by (simp add: handle_proof_status_request_def Let_def)
  moreover have "\<exists>xs. rg_sent ?t = rg_sent s @ xs \<and> (\<forall>x \<in> set xs. \<exists>ep. x = MagisterDelete ep)"
    by (auto simp: trim_workers_eq [OF I(1,4)] in_magister_deletes)
  ultimately show ?thesis
    by (auto simp: status_from_def execution_status_of_def cps_unexecuted_def status_assigned_def)
qed

theorem queued_poll_not_lost_witness:
  "queued 2 demo_state \<and>
   ReplyStatus 9 (Some cps_unexecuted) \<in>
     set (rg_sent (handle (demo_env 5) (Cmd_ProofStatusRequest 2 9) demo_state))"
proof -
  have q: "queued 2 demo_state" by (simp add: queued_def demo_state_eq demo_req_def)
  from queued_poll_not_lost [OF demo_reach_identified _ q, of "demo_env 5" 9] q show ?thesis
    by (auto simp: demo_next)
qed

text \<open>A poll of a live, connected worker is forwarded to it, and the worker's answer is relayed to
  every waiting poll exactly once, in the order the polls arrived.\<close>

theorem status_poll_roundtrip:
  fixes rs :: resp
  assumes "reach handle registry_next (registry_start cfg) e s" "env_next e e1" "env_next e1 e2"
    and "(a, w) \<in> set (rg_workers s)" "works_on rid w" "\<not> should_drop e1 cfg w"
    and "chan_open e1 (ws_sender w)"
    and "cps_execution_status c \<noteq> execution_status_i32 Unexecutable"
  defines "s1 \<equiv> handle e1 (Cmd_ProofStatusRequest rid rs) s"
  defines "s2 \<equiv> handle e2 (Cmd_ProofStatusResponse rid (Some c)) s1"
  shows "SendWorker (ws_sender w) (ProofStatusRequest rid) = last (rg_sent s1) \<and>
         rg_sent s2 = rg_sent s1 @
           map (\<lambda>x. ReplyStatus x (Some c)) (case_option [] id (rg_awaiting s rid) @ [rs]) \<and>
         rg_awaiting s2 rid = None"
proof -
  have inv: "registry_inv cfg e1 s" using registry_inv_env [OF reg.reach_inv [OF assms(1)] assms(2)] .
  note I = registry_invD [OF inv] and T = registry_invD [OF registry_inv_trim [OF inv]]
  let ?t = "trim_workers e1 s"
  have "(a, w) \<in> set (rg_workers ?t)"
    using assms(4,6) I(2) by (simp add: trim_workers_set [OF I(1,4)])
  then have find: "find_worker e1 rid ?t = Some (a, w)"
    by (rule find_worker_unique [OF T(1,3) _ assms(5)])
  have s1: "rg_sent s1 = rg_sent ?t @ [SendWorker (ws_sender w) (ProofStatusRequest rid)]"
    "rg_awaiting s1 rid = Some (case_option [] id (rg_awaiting s rid) @ [rs])"
    unfolding s1_def
    by (simp_all add: handle_proof_status_request_def find assms(7) Let_def split: option.split)
  have free: "free_worker_of_failed_proof e2 rid (Some c) s1 = s1"
    using assms(8) by (simp add: free_worker_of_failed_proof_def reported_unexecutable_def)
  show ?thesis
    unfolding s2_def by (simp add: s1 handle_proof_status_response_def bridge_startup_race_def free
        fold_emit Let_def)
qed

lemma demo_kept: "\<not> should_drop (demo_env 0) default_worker_registry_config demo_worker"
  by (simp add: demo_worker_def demo_env_def demo_defs Let_def)

theorem status_poll_roundtrip_witness:
  "rg_sent (handle (demo_env 0) (Cmd_ProofStatusResponse 1 (Some cps_unexecuted))
     (handle (demo_env 0) (Cmd_ProofStatusRequest 1 9) demo_state)) =
   rg_sent (handle (demo_env 0) (Cmd_ProofStatusRequest 1 9) demo_state) @
     [ReplyStatus 9 (Some cps_unexecuted)]"
  using status_poll_roundtrip [OF demo_reach _ _ demo_worker_in demo_works_on demo_kept demo_open,
      of "demo_env 0" cps_unexecuted 9]
  by (simp add: demo_next cps_unexecuted_def) (simp add: demo_state_eq)

text \<open>A worker that does not know a request it was assigned less than the grace period ago is
  bridged as unexecuted; after the grace period its answer is relayed as a loss. The assignment
  itself is kept in both cases.\<close>

theorem startup_race_bridged:
  assumes "env_ok e" "wf_workers (rg_workers s)" "(a, w) \<in> set (rg_workers s)"
    and "ws_status w = Busy rid vm m start pr upd" "rg_awaiting s rid = Some waiters"
  defines "s' \<equiv> handle e (Cmd_ProofStatusResponse rid None) s"
  defines "answer \<equiv> if elapsed e start < from_secs (assignment_startup_grace_secs (rg_config s))
                     then Some cps_unexecuted else None"
  shows "rg_sent s' = rg_sent s @ map (\<lambda>rs. ReplyStatus rs answer) waiters \<and>
         rg_workers s' = rg_workers s \<and> rg_awaiting s' = (rg_awaiting s)(rid := None)"
proof -
  have "works_on rid w" using assms(4) by (simp add: works_on_def)
  then have find: "find_worker e rid s = Some (a, w)" by (rule find_worker_unique [OF assms(1-3)])
  have b: "bridge_startup_race e rid None s = answer"
    by (simp add: bridge_startup_race_def find assms(4) answer_def)
  have f: "free_worker_of_failed_proof e rid answer s = s"
    by (simp add: free_worker_of_failed_proof_def reported_unexecutable_def answer_def cps_unexecuted_def)
  show ?thesis
    unfolding s'_def by (simp add: handle_proof_status_response_def b f assms(5) fold_emit)
qed

theorem startup_race_bridged_witness:
  "rg_sent (handle (demo_env (from_secs 30)) (Cmd_ProofStatusResponse 1 None)
     (demo_state\<lparr>rg_awaiting := [1 \<mapsto> [9]]\<rparr>)) =
   rg_sent demo_state @ [ReplyStatus 9 (Some cps_unexecuted)]"
proof -
  have wf: "wf_workers (rg_workers (demo_state\<lparr>rg_awaiting := [1 \<mapsto> [9]]\<rparr>))"
    by (simp add: demo_state_eq wf_workers_def amap_ok_def single_owner_def)
  have m: "(''w1'', demo_worker) \<in> set (rg_workers (demo_state\<lparr>rg_awaiting := [1 \<mapsto> [9]]\<rparr>))"
    using demo_worker_in by simp
  have st: "ws_status demo_worker = Busy 1 Vm_Risc0 ''SUCCINCT'' 0 None 0" by (simp add: demo_worker_def)
  have g: "from_secs 30 < from_secs 90" by (simp add: from_secs_def nanos_per_sec_def)
  from startup_race_bridged [OF demo_env_ok wf m st, of "[9]" "from_secs 30"] g show ?thesis
    by (simp add: demo_env_def elapsed_def demo_state_eq default_worker_registry_config_def)
qed

section \<open>Progress, reconnection and eviction\<close>

text \<open>C9. While an assignment lasts, whatever command is handled, its start time is fixed and the
  progress recorded for it never goes down. That covers the same request being submitted again:
  only when that very command evicts the worker, which ends the assignment, may the request start
  afresh with another one.\<close>

theorem assignment_progress_monotone:
  assumes "reach handle (identified_next body) (registry_start cfg) e s" "identified_next body e e' c"
    and "(a, w) \<in> set (rg_workers s)" "works_on rid w"
    and "(b, v) \<in> set (rg_workers (handle e' c s))" "works_on rid v"
    and "\<And>r. c = Cmd_AssignProofRequest r \<Longrightarrow> request_id r = rid \<Longrightarrow> \<not> should_drop e' cfg w"
  shows "start_time (ws_status v) = start_time (ws_status w) \<and>
         busy_progress (ws_status w) \<le> busy_progress (ws_status v)"
proof -
  have inv: "registry_inv cfg e' s" and x: "exclusive body s"
    using excl.reach_inv [OF assms(1)] registry_inv_env assms(2) by (auto simp: identified_next_def)
  note I = registry_invD [OF inv]
  have same: "ws_status u = ws_status w" if "(d, u) \<in> set (rg_workers s)" "works_on rid u" for d u
    using that I(3,4) assms(3,4) unfolding wf_workers_def
    by (metis amap_ok_unique single_ownerD)
  show ?thesis
  proof (cases "\<exists>q pu. c = Cmd_ProofProgressUpdate q pu")
    case False
    then have "ws_status v \<in> statuses rid (rg_workers s)"
      using statuses_handle [OF inv x, of rid c] statusesI assms(3-7) I(2) by blast
    then show ?thesis using same by (auto simp: statuses_def)
  next
    case True
    then obtain q pu where c: "c = Cmd_ProofProgressUpdate q pu" by blast
    obtain rid' vm m st pr upd where st: "ws_status w = Busy rid' vm m st pr upd"
      using assms(4) by (auto simp: works_on_def split: worker_status.splits)
    have "\<exists>u. (b, u) \<in> set (rg_workers s) \<and> (v = u \<or> v = update_progress e' pu u)"
      using assms(5) c by (auto simp: handle_proof_progress_update_def in_amap_mod split: option.splits)
    then obtain u where u: "(b, u) \<in> set (rg_workers s)" "v = u \<or> v = update_progress e' pu u" by blast
    then have "works_on rid u" using assms(6) by auto
    with same u(1) st have su: "ws_status u = Busy rid' vm m st pr upd" by metis
    from u(2) update_progress_status [OF su, of e' pu] su show ?thesis by (auto simp: st)
  qed
qed

lemma demo_assign_again:
  "(''w1'', demo_worker) \<in> set (rg_workers (handle (demo_env 0) (Cmd_AssignProofRequest (demo_req 1)) demo_state))"
proof -
  have trim: "trim_workers (demo_env 0) demo_state = demo_state"
    using demo_kept by (simp add: trim_workers_def entries_def demo_state_eq demo_env_def)
  have "try_assign (demo_env 0) (demo_req 1) demo_state = (True, demo_state)"
    using demo_works_on by (simp add: try_assign_def entries_def demo_state_eq demo_env_def demo_req_def)
  then show ?thesis
    using demo_worker_in by (simp add: handle_assign_proof_def trim)
qed

theorem assignment_progress_monotone_witness:
  "(let v = update_progress (demo_env 5) (Some (Proving 10 3)) demo_worker
    in busy_progress (ws_status demo_worker) \<le> busy_progress (ws_status v)) \<and>
   (\<exists>v. (''w1'', v) \<in> set (rg_workers (handle (demo_env 0) (Cmd_AssignProofRequest (demo_req 1)) demo_state)) \<and>
      works_on 1 v \<and> start_time (ws_status v) = start_time (ws_status demo_worker))"
proof -
  let ?c = "Cmd_ProofProgressUpdate 1 (Some (Proving 10 3)) :: unit worker_registry_command"
  have n: "identified_next demo_req (demo_env 0) (demo_env 5) ?c"
    by (simp add: identified_next_def demo_next)
  have f: "find_worker (demo_env 5) 1 demo_state = Some (''w1'', demo_worker)"
    by (simp add: find_worker_def entries_def demo_state_eq demo_env_def demo_works_on)
  have m: "(''w1'', update_progress (demo_env 5) (Some (Proving 10 3)) demo_worker) \<in>
      set (rg_workers (handle (demo_env 5) ?c demo_state))"
    by (simp add: handle_proof_progress_update_def f) (simp add: demo_state_eq amap_mod_def)
  have w: "works_on 1 (update_progress (demo_env 5) (Some (Proving 10 3)) demo_worker)"
    by (simp add: demo_works_on)
  have k: "\<not> should_drop (demo_env 0) default_worker_registry_config demo_worker" by (rule demo_kept)
  have n': "identified_next demo_req (demo_env 0) (demo_env 0) (Cmd_AssignProofRequest (demo_req 1))"
    by (simp add: identified_next_def env_next_def demo_req_def)
  have m': "(''w1'', demo_worker) \<in> set (rg_workers (handle (demo_env 0) (Cmd_AssignProofRequest (demo_req 1)) demo_state))"
    by (rule demo_assign_again)
  from assignment_progress_monotone [OF demo_reach_identified n demo_worker_in demo_works_on m w]
    assignment_progress_monotone [OF demo_reach_identified n' demo_worker_in demo_works_on m' demo_works_on] k m' demo_works_on
  show ?thesis by (auto simp: Let_def)
qed

lemma stale_key_unique:
  assumes "env_ok e" "amap_ok (rg_workers s)" "(old, w) \<in> set (rg_workers s)" "old \<noteq> addr"
    "same_instance nm mg w"
    and u: "\<And>b v. (b, v) \<in> set (rg_workers s) \<Longrightarrow> same_instance nm mg v \<Longrightarrow> b \<noteq> addr \<Longrightarrow> b = old"
  shows "stale_key e addr nm mg s = Some old"
proof -
  note E = set_entries [OF assms(1,2)]
  have "List.find (\<lambda>(a, w). a \<noteq> addr \<and> same_instance nm mg w) (entries e (rg_workers s)) = Some (old, w)"
  proof (rule find_unique)
    fix y assume y: "y \<in> set (entries e (rg_workers s))" "case y of (a, w) \<Rightarrow> a \<noteq> addr \<and> same_instance nm mg w"
    obtain b v where bv: "y = (b, v)" by (cases y)
    with y E have "(b, v) \<in> set (rg_workers s)" "same_instance nm mg v" "b \<noteq> addr" by auto
    then have "b = old" by (rule u)
    then show "y = (old, w)"
      using amap_ok_unique [OF assms(2,3)] \<open>(b, v) \<in> set (rg_workers s)\<close> bv by blast
  qed (use E assms(3-5) in simp_all)
  then show ?thesis by (simp add: stale_key_def)
qed

text \<open>A registration as one step on the workers, before the queue is drained.\<close>

lemma register_worker_shape:
  assumes "env_ok e" "amap_ok (rg_workers s)"
  shows "case stale_key e addr nm mg s of
      None \<Rightarrow> \<forall>(b, v) \<in> set (rg_workers s). b \<noteq> addr \<longrightarrow> \<not> same_instance nm mg v
    | Some old \<Rightarrow>
        old \<notin> fst ` set (rg_workers (register_worker e addr nm vms g ov mg nonce c s)) \<and>
        (\<exists>w. (old, w) \<in> set (rg_workers s) \<and> old \<noteq> addr \<and> same_instance nm mg w \<and>
          (is_busy w \<and> ws_instance_nonce w = nonce \<longrightarrow>
             (addr, (worker_new e nm vms g ov mg nonce c)\<lparr>ws_status := ws_status w\<rparr>) \<in>
               set (rg_workers (register_worker e addr nm vms g ov mg nonce c s))))"
  using assms
proof (cases rule: register_worker_cases
    [where addr = addr and nm = nm and vms = vms and g = g and ov = ov and mg = mg and nonce = nonce and c = c])
  case plain
  then have "List.find (\<lambda>(a, w). a \<noteq> addr \<and> same_instance nm mg w) (entries e (rg_workers s)) = None"
    by (simp add: stale_key_def)
  then have "\<forall>(b, v) \<in> set (rg_workers s). b \<noteq> addr \<longrightarrow> \<not> same_instance nm mg v"
    using set_entries [OF assms] by (auto simp: find_None_iff_ball)
  with plain(1) show ?thesis by simp
next
  case (superseded key old)
  then have "key \<notin> fst ` set (rg_workers (register_worker e addr nm vms g ov mg nonce c s))"
    using assms(2) by (auto simp: in_amap_insert)
  with superseded show ?thesis by auto
next
  case (carried key old)
  then have "key \<notin> fst ` set (rg_workers (register_worker e addr nm vms g ov mg nonce c s))"
    "(addr, (worker_new e nm vms g ov mg nonce c)\<lparr>ws_status := ws_status old\<rparr>) \<in>
       set (rg_workers (register_worker e addr nm vms g ov mg nonce c s))"
    using assms(2) by (auto simp: in_amap_insert)
  with carried show ?thesis by auto
qed

lemma register_worker_others:
  assumes "env_ok e" "amap_ok (rg_workers s)" "(b, v) \<in> set (rg_workers s)"
    and "b \<noteq> addr" "stale_key e addr nm mg s \<noteq> Some b"
  shows "(b, v) \<in> set (rg_workers (register_worker e addr nm vms g ov mg nonce c s))"
  using assms(1,2)
  by (cases rule: register_worker_cases
      [where addr = addr and nm = nm and vms = vms and g = g and ov = ov and mg = mg and nonce = nonce and c = c])
    (use assms(2-5) in \<open>auto simp: in_amap_insert\<close>)

text \<open>C10. A registration looks up one earlier entry of the same instance under another address.
  There is one whenever some entry matches (with several, it is the one the look-up meets first);
  that entry is gone afterwards, and if it was busy under the nonce of the registering process, the
  new entry carries its assignment over the new connection. Every other busy worker keeps its
  assignment, nothing is evicted and no Magister is asked to delete a worker.\<close>

theorem reconnect_keeps_assignment:
  fixes addr nm :: string and mg :: "string option" and nonce :: u64
    and vms :: "vm_kind list" and g ov :: bool and c :: chan
  assumes "reach handle registry_next (registry_start cfg) e s" "env_next e e'"
  defines "s' \<equiv> handle e' (Cmd_WorkerReady addr nm vms g ov mg nonce c) s"
  shows "(case stale_key e' addr nm mg s of
            None \<Rightarrow> \<forall>(b, v) \<in> set (rg_workers s). b \<noteq> addr \<longrightarrow> \<not> same_instance nm mg v
          | Some old \<Rightarrow> old \<notin> fst ` set (rg_workers s') \<and>
              (\<exists>w. (old, w) \<in> set (rg_workers s) \<and> old \<noteq> addr \<and> same_instance nm mg w \<and>
                 (is_busy w \<and> ws_instance_nonce w = nonce \<longrightarrow>
                    (\<exists>v. (addr, v) \<in> set (rg_workers s') \<and> ws_status v = ws_status w \<and> ws_sender v = c)))) \<and>
         (\<forall>(b, v) \<in> set (rg_workers s). is_busy v \<and> b \<noteq> addr \<and> stale_key e' addr nm mg s \<noteq> Some b \<longrightarrow>
            (\<exists>u. (b, u) \<in> set (rg_workers s') \<and> ws_status u = ws_status v)) \<and>
         rg_dead_workers s' = rg_dead_workers s \<and>
         (\<forall>ep. MagisterDelete ep \<in> set (rg_sent s') \<longrightarrow> MagisterDelete ep \<in> set (rg_sent s))"
proof -
  note I = registry_invD [OF registry_inv_env [OF reg.reach_inv [OF assms(1)] assms(2)]]
  let ?r = "register_worker e' addr nm vms g ov mg nonce c s"
  have wf: "wf_workers (rg_workers ?r)" by (rule register_worker_wf [OF I(1,3)])
  note D = drainedD [OF drain_pending_drained [OF I(1) wf]]
  have s': "s' = drain_pending e' ?r" by (simp add: s'_def handle_worker_ready_def)
  have keep: "\<exists>u. (b, u) \<in> set (rg_workers s') \<and> ws_status u = ws_status v \<and> ws_sender u = ws_sender v"
    if "(b, v) \<in> set (rg_workers ?r)" "is_busy v" for b v
    using wsmono_fwd [OF D(2) that(1)] that(2) unfolding s' by (auto simp: wmono_def)
  have "fst ` set (rg_workers s') = fst ` set (rg_workers ?r)"
    using wsmono_keys [OF D(2)] unfolding s' by (metis list.set_map)
  moreover have "\<exists>v. (addr, v) \<in> set (rg_workers s') \<and> ws_status v = ws_status w \<and> ws_sender v = c"
    if "is_busy w"
      "(addr, (worker_new e' nm vms g ov mg nonce c)\<lparr>ws_status := ws_status w\<rparr>) \<in> set (rg_workers ?r)" for w
    using keep [OF that(2)] that(1) by (simp add: is_busy_def worker_new_def)
  ultimately have "case stale_key e' addr nm mg s of
            None \<Rightarrow> \<forall>(b, v) \<in> set (rg_workers s). b \<noteq> addr \<longrightarrow> \<not> same_instance nm mg v
          | Some old \<Rightarrow> old \<notin> fst ` set (rg_workers s') \<and>
              (\<exists>w. (old, w) \<in> set (rg_workers s) \<and> old \<noteq> addr \<and> same_instance nm mg w \<and>
                 (is_busy w \<and> ws_instance_nonce w = nonce \<longrightarrow>
                    (\<exists>v. (addr, v) \<in> set (rg_workers s') \<and> ws_status v = ws_status w \<and> ws_sender v = c)))"
    using register_worker_shape [OF I(1,4), of addr nm mg vms g ov nonce c]
    by (auto split: option.splits)
  moreover have "\<exists>u. (b, u) \<in> set (rg_workers s') \<and> ws_status u = ws_status v"
    if "(b, v) \<in> set (rg_workers s)" "is_busy v" "b \<noteq> addr" "stale_key e' addr nm mg s \<noteq> Some b" for b v
    using keep [OF register_worker_others [OF I(1,4) that(1,3,4)] that(2)] by blast
  moreover have "MagisterDelete ep \<in> set (rg_sent s)" if "MagisterDelete ep \<in> set (rg_sent s')" for ep
    using that drain_pending_sent [OF I(1) wf] unfolding s' by auto
  moreover have "rg_dead_workers s' = rg_dead_workers s" using D(5) unfolding s' by simp
  ultimately show ?thesis by blast
qed

theorem reconnect_keeps_assignment_witness:
  "\<exists>v. (''w2'', v) \<in> set (rg_workers (handle (demo_env 5)
      (Cmd_WorkerReady ''w2'' ''alice'' [Vm_Risc0] False False (Some ''http'') 7 1) demo_state)) \<and>
     works_on 1 v"
proof -
  have st: "ws_status v = ws_status demo_worker \<Longrightarrow> works_on 1 v" for v
    using demo_works_on by (simp add: works_on_def)
  have i: "same_instance ''alice'' (Some ''http'') demo_worker" "ws_instance_nonce demo_worker = 7"
    by (simp_all add: same_instance_def demo_worker_def)
  have k: "stale_key (demo_env 5) ''w2'' ''alice'' (Some ''http'') demo_state = Some ''w1''"
    by (simp add: stale_key_def entries_def demo_state_eq demo_env_def i)
  have "is_busy demo_worker" using demo_works_on works_on_busy by blast
  moreover have "w = demo_worker" if "(''w1'', w) \<in> set (rg_workers demo_state)" for w
    using that by (simp add: demo_state_eq)
  moreover have "env_next (demo_env 0) (demo_env 5)" by (simp add: demo_next)
  ultimately have "\<exists>v. (''w2'', v) \<in> set (rg_workers (handle (demo_env 5)
      (Cmd_WorkerReady ''w2'' ''alice'' [Vm_Risc0] False False (Some ''http'') 7 1) demo_state)) \<and>
      ws_status v = ws_status demo_worker"
    using reconnect_keeps_assignment [OF demo_reach, of "demo_env 5" "''w2''" "''alice''" "Some ''http''"
        "[Vm_Risc0]" False False 7 1] i(2) unfolding k by auto
  with st show ?thesis by blast
qed

text \<open>A registration without a Magister endpoint displaces any other worker of the same name: the
  displaced entry disappears, and when it belonged to another process its assignment is dropped
  with it, with no eviction recorded and no notice to its Magister.\<close>

theorem namesake_displaces_assignment:
  fixes vms :: "vm_kind list" and g ov :: bool and c :: chan
  assumes "reach handle (identified_next body) (registry_start cfg) e s" "env_next e e'"
    and "(old, w) \<in> set (rg_workers s)" "works_on rid w" "ws_instance_nonce w \<noteq> nonce"
    and "old \<noteq> addr" "ws_name w = nm"
    and "\<And>b v. (b, v) \<in> set (rg_workers s) \<Longrightarrow> ws_name v = nm \<Longrightarrow> b \<noteq> addr \<Longrightarrow> b = old"
  defines "s' \<equiv> handle e' (Cmd_WorkerReady addr nm vms g ov None nonce c) s"
  shows "old \<notin> fst ` set (rg_workers s') \<and>
         (\<forall>(b, v) \<in> set (rg_workers s'). \<not> works_on rid v) \<and>
         \<not> queued rid s' \<and> rg_dead_workers s' = rg_dead_workers s"
proof -
  have inv: "registry_inv cfg e' s" and x: "exclusive body s"
    using excl.reach_inv [OF assms(1)] registry_inv_env assms(2) by auto
  note I = registry_invD [OF inv]
  let ?r = "register_worker e' addr nm vms g ov None nonce c s"
  have i: "same_instance nm None v \<longleftrightarrow> ws_name v = nm" for v by (simp add: same_instance_def)
  have "stale_key e' addr nm None s = Some old"
    by (rule stale_key_unique [OF I(1,4) assms(3,6)]) (use assms(7,8) i in blast)+
  moreover have "map_of (rg_workers s) old = Some w" using assms(3) I(4) by (simp add: amap_get_iff)
  ultimately have r: "rg_workers ?r = amap_insert addr (worker_new e' nm vms g ov None nonce c)
      (amap_remove old (rg_workers s))"
    using assms(5) by (simp add: register_worker_def)
  have wf: "wf_workers (rg_workers ?r)" by (rule register_worker_wf [OF I(1,3)])
  note D = drainedD [OF drain_pending_drained [OF I(1) wf]]
  have s': "s' = drain_pending e' ?r" by (simp add: s'_def handle_worker_ready_def)
  have free: "rid \<notin> set (rids (rg_pending s))"
    using exclusiveD(2) [OF x] assms(3,4) by (force simp: in_rids)
  have none: "\<not> works_on rid v" if "(b, v) \<in> set (rg_workers ?r)" for b v
    using that I(3,4) assms(3,4) unfolding wf_workers_def
    by (auto simp: r in_amap_insert dest: single_ownerD)
  have "statuses rid (rg_workers s') \<subseteq> statuses rid (rg_workers ?r)"
    unfolding s' by (rule statuses_drain [OF I(1) wf]) (simp add: free)
  then have "\<forall>(b, v) \<in> set (rg_workers s'). \<not> works_on rid v"
    using none by (auto simp: statuses_def)
  moreover have "old \<notin> fst ` set (rg_workers s')"
  proof -
    have "map fst (rg_workers s') = map fst (rg_workers ?r)" unfolding s' by (rule wsmono_keys [OF D(2)])
    then have "fst ` set (rg_workers s') = fst ` set (rg_workers ?r)" by (metis list.set_map)
    then show ?thesis using I(4) assms(6) by (auto simp: r in_amap_insert)
  qed
  moreover have "\<not> queued rid s'"
  proof -
    have "set (rids (rg_pending s')) \<subseteq> set (rids (rg_pending s))"
      using rids_subseq [OF D(1)] rids_subseq [OF fresh_subseq] unfolding s' by (simp, blast)
    then show ?thesis using free unfolding queued_def in_rids [symmetric] by blast
  qed
  ultimately show ?thesis using D(5) unfolding s' by simp
qed

theorem namesake_displaces_assignment_witness:
  "works_on 1 demo_worker \<and>
   \<not> queued 1 (handle (demo_env 5) (Cmd_WorkerReady ''w2'' ''alice'' [Vm_OpenVm] False False None 8 1) demo_state) \<and>
   ''w1'' \<notin> fst ` set (rg_workers (handle (demo_env 5)
      (Cmd_WorkerReady ''w2'' ''alice'' [Vm_OpenVm] False False None 8 1) demo_state))"
proof -
  have "ws_instance_nonce demo_worker \<noteq> 8" "ws_name demo_worker = ''alice''"
    by (simp_all add: demo_worker_def)
  moreover have "b = ''w1''" if "(b, v) \<in> set (rg_workers demo_state)" for b v
    using that by (simp add: demo_state_eq)
  moreover have "env_next (demo_env 0) (demo_env 5)" by (simp add: demo_next)
  moreover have "''w1'' \<noteq> ''w2''" by simp
  ultimately show ?thesis
    using demo_works_on namesake_displaces_assignment [OF demo_reach_identified _ demo_worker_in demo_works_on,
        of "demo_env 5" 8 "''w2''" "''alice''" "[Vm_OpenVm]" False False 1] by blast
qed

text \<open>Dropping the worker of a request (a worker that returned an invalid proof) evicts it: nobody
  works on the request any more, the worker is listed among the dead, its Magister is asked to
  delete it, and workers that are not themselves due for eviction stay.\<close>

theorem drop_worker_evicts:
  assumes "env_ok e" "wf_workers (rg_workers s)" "(a, w) \<in> set (rg_workers s)" "works_on rid w"
  defines "s' \<equiv> handle e (Cmd_DropWorkerOfRequest rid) s"
  shows "(\<forall>(b, v) \<in> set (rg_workers s'). \<not> works_on rid v) \<and>
         (a, w\<lparr>ws_strikes := max_worker_strikes (rg_config s)\<rparr>) \<in> set (rg_dead_workers s') \<and>
         (\<forall>ep. ws_magister_drop_endpoint w = Some ep \<longrightarrow> MagisterDelete ep \<in> set (rg_sent s')) \<and>
         (\<forall>(b, v) \<in> set (rg_workers s). b \<noteq> a \<and> \<not> should_drop e (rg_config s) v \<longrightarrow>
            (b, v) \<in> set (rg_workers s'))"
proof -
  have ok: "amap_ok (rg_workers s)" using assms(2) by auto
  let ?f = "\<lambda>w. w\<lparr>ws_strikes := max_worker_strikes (rg_config s)\<rparr>"
  let ?m = "mod_worker a ?f s"
  have "find_worker e rid s = Some (a, w)" by (rule find_worker_unique [OF assms(1-4)])
  then have s': "s' = trim_workers e ?m"
    by (simp add: s'_def handle_drop_worker_of_request_def)
  have okm: "amap_ok (rg_workers ?m)" using ok by simp
  have mem: "(a, ?f w) \<in> set (rg_workers ?m)" using assms(3) by (auto simp: in_amap_mod)
  have drop: "should_drop e (rg_config ?m) (?f w)" by (rule should_drop_strikes) simp
  note T = trim_workers_eq [OF assms(1) okm] and E = set_entries [OF assms(1) okm]
  have none: "\<not> works_on rid v" if "(b, v) \<in> set (rg_workers s')" for b v
  proof
    assume v: "works_on rid v"
    have "(b, v) \<in> set (rg_workers ?m)" "\<not> should_drop e (rg_config s) v"
      using that by (auto simp: s' trim_workers_set [OF assms(1) okm])
    moreover have "b = a \<Longrightarrow> v = ?f w" using amap_ok_unique [OF okm mem] calculation(1) by blast
    ultimately show False
      using drop v assms(2-4) unfolding wf_workers_def
      by (cases "b = a") (auto simp: in_amap_mod dest: single_ownerD)
  qed
  have L: "(a, ?f w) \<in> set (filter (\<lambda>(_, w). should_drop e (rg_config ?m) w) (entries e (rg_workers ?m)))"
    using mem drop E by simp
  then have "(a, ?f w) \<in> set (rg_dead_workers s')" unfolding s' T by simp
  moreover have "MagisterDelete ep \<in> set (rg_sent s')" if "ws_magister_drop_endpoint w = Some ep" for ep
  proof -
    have "MagisterDelete ep \<in> set (rg_sent s @ magister_deletes
        (filter (\<lambda>(_, w). should_drop e (rg_config ?m) w) (entries e (rg_workers ?m))))"
      unfolding set_append Un_iff in_magister_deletes
      by (intro disjI2 bexI [OF _ L]) (simp add: that)
    then show ?thesis unfolding s' T by simp
  qed
  moreover have "(b, v) \<in> set (rg_workers s')"
    if "(b, v) \<in> set (rg_workers s)" "b \<noteq> a" "\<not> should_drop e (rg_config s) v" for b v
    using that by (simp add: s' trim_workers_set [OF assms(1) okm] in_amap_mod)
  ultimately show ?thesis using none by blast
qed

theorem drop_worker_evicts_witness:
  "MagisterDelete ''http'' \<in> set (rg_sent (handle (demo_env 0) (Cmd_DropWorkerOfRequest 1) demo_state))"
proof -
  have wf: "wf_workers (rg_workers demo_state)"
    by (simp add: demo_state_eq wf_workers_def amap_ok_def single_owner_def)
  have "ws_magister_drop_endpoint demo_worker = Some ''http''" by (simp add: demo_worker_def)
  with drop_worker_evicts [OF demo_env_ok wf demo_worker_in demo_works_on] show ?thesis by blast
qed

text \<open>A heartbeat of a registered worker is answered with keep, and within the heartbeat interval
  after it no idle worker below the strike limit is evicted; a heartbeat from an address that is
  not registered (an evicted worker) is answered with drop and changes nothing else.\<close>

theorem heartbeat_answer:
  assumes "env_ok e" "amap_ok (rg_workers s)"
  shows "((addr, w) \<in> set (rg_workers s) \<longrightarrow>
           last (rg_sent (handle e (Cmd_Heartbeat addr rs) s)) = ReplyHeartbeat rs False \<and>
           (addr, worker_heartbeat e w) \<in> set (rg_workers (handle e (Cmd_Heartbeat addr rs) s)) \<and>
           (\<forall>e'. now_i e \<le> now_i e' \<and> now_i e' < now_i e + max_worker_heartbeat_interval_secs cfg \<and>
              \<not> is_busy w \<and> ws_strikes w < max_worker_strikes cfg \<longrightarrow>
              \<not> should_drop e' cfg (worker_heartbeat e w))) \<and>
         (addr \<notin> fst ` set (rg_workers s) \<longrightarrow>
           handle e (Cmd_Heartbeat addr rs) s = emit (ReplyHeartbeat rs True) s)"
proof (intro conjI impI allI)
  assume "addr \<notin> fst ` set (rg_workers s)"
  then have "map_of (rg_workers s) addr = None" by (simp add: map_of_eq_None_iff)
  then show "handle e (Cmd_Heartbeat addr rs) s = emit (ReplyHeartbeat rs True) s"
    by (simp add: handle_heartbeat_def)
next
  assume w: "(addr, w) \<in> set (rg_workers s)"
  then have m: "map_of (rg_workers s) addr = Some w" using assms(2) by (simp add: amap_get_iff)
  then show "last (rg_sent (handle e (Cmd_Heartbeat addr rs) s)) = ReplyHeartbeat rs False"
    by (simp add: handle_heartbeat_def)
  show "(addr, worker_heartbeat e w) \<in> set (rg_workers (handle e (Cmd_Heartbeat addr rs) s))"
    using w by (auto simp: handle_heartbeat_def m in_amap_mod)
  show "\<not> should_drop e' cfg (worker_heartbeat e w)"
    if "now_i e \<le> now_i e' \<and> now_i e' < now_i e + max_worker_heartbeat_interval_secs cfg \<and>
      \<not> is_busy w \<and> ws_strikes w < max_worker_strikes cfg" for e'
    using that by (intro not_should_drop_idle) (auto simp: worker_heartbeat_def elapsed_def is_busy_def)
qed

theorem heartbeat_answer_witness:
  "last (rg_sent (handle (demo_env 7) (Cmd_Heartbeat ''w1'' 4) demo_state)) = ReplyHeartbeat 4 False \<and>
   handle (demo_env 7) (Cmd_Heartbeat ''gone'' 4) demo_state = emit (ReplyHeartbeat 4 True) demo_state"
proof -
  have ok: "amap_ok (rg_workers demo_state)" by (simp add: demo_state_eq amap_ok_def)
  have g: "''gone'' \<notin> fst ` set (rg_workers demo_state)" by (simp add: demo_state_eq)
  have "last (rg_sent (handle (demo_env 7) (Cmd_Heartbeat ''w1'' 4) demo_state)) = ReplyHeartbeat 4 False"
    using heartbeat_answer [OF demo_env_ok ok, where addr = "''w1''" and w = demo_worker] demo_worker_in by blast
  moreover have "handle (demo_env 7) (Cmd_Heartbeat ''gone'' 4) demo_state = emit (ReplyHeartbeat 4 True) demo_state"
    using heartbeat_answer [OF demo_env_ok ok, where addr = "''gone''"] g by blast
  ultimately show ?thesis by blast
qed

end
