(* ===== verification/Artifact_Uri.thy ===== *)
theory Artifact_Uri
  imports Prelude
begin

text \<open>
  Artifact identifiers (\<^verbatim>\<open>artifact_store/artifact_uri.rs\<close>): their textual form, the file they
  name and their parser. The text form of a \<^verbatim>\<open>Uuid\<close> and its parser belong to the \<^verbatim>\<open>uuid\<close> crate
  and are the parameters \<open>show_uuid\<close> and \<open>parse_uuid\<close>.
\<close>

type_synonym uuid = "128 word"

datatype artifact_type =
    UnspecifiedArtifactType | Program | Stdin | Proof | Transaction | State | Export | PrivateStdin

fun artifact_type_name :: "artifact_type \<Rightarrow> string" where
  "artifact_type_name UnspecifiedArtifactType = ''UNSPECIFIED_ARTIFACT_TYPE''"
| "artifact_type_name Program = ''PROGRAM''"
| "artifact_type_name Stdin = ''STDIN''"
| "artifact_type_name Proof = ''PROOF''"
| "artifact_type_name Transaction = ''TRANSACTION''"
| "artifact_type_name State = ''STATE''"
| "artifact_type_name Export = ''EXPORT''"
| "artifact_type_name PrivateStdin = ''PRIVATE_STDIN''"

definition all_artifact_types :: "artifact_type list" where
  "all_artifact_types =
     [UnspecifiedArtifactType, Program, Stdin, Proof, Transaction, State, Export, PrivateStdin]"

text \<open>\<^verbatim>\<open>ArtifactType::from_str_name\<close> and \<^verbatim>\<open>TryFrom<i32>\<close>, as prost generates them.\<close>

definition artifact_type_of_name :: "string \<Rightarrow> artifact_type option" where
  "artifact_type_of_name n = List.find (\<lambda>t. artifact_type_name t = n) all_artifact_types"

definition artifact_type_of :: "i32 \<Rightarrow> artifact_type option" where
  "artifact_type_of n =
     (if unat n < length all_artifact_types then Some (all_artifact_types ! unat n) else None)"

record artifact_uri =
  au_id :: uuid
  au_type :: artifact_type

definition artifact_uri_new :: "uuid \<Rightarrow> artifact_type \<Rightarrow> artifact_uri" where
  "artifact_uri_new fresh_id t = \<lparr>au_id = fresh_id, au_type = t\<rparr>"

definition artifact_uri_default :: artifact_uri where
  "artifact_uri_default = \<lparr>au_id = 0, au_type = UnspecifiedArtifactType\<rparr>"

definition display_uri :: "(uuid \<Rightarrow> string) \<Rightarrow> artifact_uri \<Rightarrow> string" where
  "display_uri show_uuid u = artifact_type_name (au_type u) @ ''_'' @ show_uuid (au_id u)"

definition file_path :: "(uuid \<Rightarrow> string) \<Rightarrow> string \<Rightarrow> artifact_uri \<Rightarrow> string" where
  "file_path show_uuid dir u = dir @ ''/'' @ display_uri show_uuid u"

definition artifact_uri_from_str :: "(string \<Rightarrow> uuid option) \<Rightarrow> string \<Rightarrow> artifact_uri option" where
  "artifact_uri_from_str parse_uuid s =
     (let parts = split_on (CHR ''_'') s in
      if length parts \<noteq> 2 then None
      else (case artifact_type_of_name (parts ! 0) of
              None \<Rightarrow> None
            | Some t \<Rightarrow> (case parse_uuid (parts ! 1) of
                  None \<Rightarrow> None
                | Some i \<Rightarrow> Some \<lparr>au_id = i, au_type = t\<rparr>)))"

section \<open>Parsing and printing\<close>

text \<open>
  Documented behaviour of the \<^verbatim>\<open>uuid\<close> crate: the hyphenated form of an id parses to that id and
  consists of hexadecimal digits and hyphens.
\<close>

definition uuid_text :: "(uuid \<Rightarrow> string) \<Rightarrow> (string \<Rightarrow> uuid option) \<Rightarrow> bool" where
  "uuid_text show_uuid parse_uuid \<longleftrightarrow>
     (\<forall>i. parse_uuid (show_uuid i) = Some i \<and> CHR ''_'' \<notin> set (show_uuid i))"

lemma type_name_roundtrip [simp]: "artifact_type_of_name (artifact_type_name t) = Some t"
  by (cases t) (simp_all add: artifact_type_of_name_def all_artifact_types_def)

lemma type_name_sep:
  "CHR ''_'' \<in> set (artifact_type_name t) \<longleftrightarrow> t = UnspecifiedArtifactType \<or> t = PrivateStdin"
  by (cases t) simp_all

lemma split_display:
  assumes "uuid_text sh pa" "CHR ''_'' \<notin> set (artifact_type_name (au_type u))"
  shows "split_on (CHR ''_'') (display_uri sh u) = [artifact_type_name (au_type u), sh (au_id u)]"
  using assms split_on_append [OF assms(2), of "sh (au_id u)"]
  by (simp add: display_uri_def uuid_text_def split_on_no_sep)

lemma length_split_display:
  assumes "uuid_text sh pa"
  shows "length (split_on (CHR ''_'') (display_uri sh u)) = 2 + count_list (artifact_type_name (au_type u)) (CHR ''_'')"
proof -
  have "count_list (sh (au_id u)) (CHR ''_'') = 0"
    using assms by (simp add: uuid_text_def count_list_0_iff)
  then show ?thesis by (simp add: length_split_on display_uri_def)
qed

text \<open>Two ids have the same file only if they are equal.\<close>

lemma display_uri_inj:
  assumes "uuid_text sh pa" "display_uri sh u = display_uri sh v"
  shows "u = v"
proof -
  have tail: "x = y" if "a @ c # x = b @ c # y" "c \<notin> set x" "c \<notin> set y" for a b x y :: string and c
    using that by (auto simp: append_eq_append_conv2 Cons_eq_append_conv append_eq_Cons_conv)
  have n: "CHR ''_'' \<notin> set (sh i)" for i using assms(1) by (simp add: uuid_text_def)
  have "sh (au_id u) = sh (au_id v)"
    using tail [of _ "CHR ''_''" "sh (au_id u)" _ "sh (au_id v)"] assms(2) n
    by (simp add: display_uri_def)
  then have i: "au_id u = au_id v" using assms(1) by (metis option.inject uuid_text_def)
  with assms(2) have "artifact_type_name (au_type u) = artifact_type_name (au_type v)"
    by (simp add: display_uri_def)
  then have "au_type u = au_type v" by (metis option.inject type_name_roundtrip)
  with i show ?thesis by simp
qed

lemma file_path_inj:
  "uuid_text sh pa \<Longrightarrow> file_path sh d u = file_path sh d v \<longleftrightarrow> u = v"
  using display_uri_inj by (auto simp: file_path_def)

text \<open>The text of an artifact uri parses back to it exactly when its type name contains no
  underscore: every uri of type PRIVATE_STDIN (and of the unspecified type) is rejected by the
  parser, all others round-trip.\<close>

theorem artifact_uri_roundtrip:
  assumes "uuid_text sh pa"
  shows "artifact_uri_from_str pa (display_uri sh u) =
     (if au_type u = PrivateStdin \<or> au_type u = UnspecifiedArtifactType then None else Some u)"
proof (cases "CHR ''_'' \<in> set (artifact_type_name (au_type u))")
  case True
  then have "count_list (artifact_type_name (au_type u)) (CHR ''_'') \<noteq> 0"
    by (simp add: count_list_0_iff)
  then have "artifact_uri_from_str pa (display_uri sh u) = None"
    using length_split_display [OF assms, of u] by (simp add: artifact_uri_from_str_def Let_def)
  with True show ?thesis by (auto simp: type_name_sep)
next
  case False
  have "pa (sh (au_id u)) = Some (au_id u)" using assms by (simp add: uuid_text_def)
  then have "artifact_uri_from_str pa (display_uri sh u) = Some u"
    by (simp add: artifact_uri_from_str_def split_display [OF assms False])
  with False show ?thesis by (auto simp: type_name_sep)
qed

text \<open>A textual form with the documented behaviour: as many letters as the id counts.\<close>

definition unary_show :: "uuid \<Rightarrow> string" where
  "unary_show i = replicate (unat i) (CHR ''a'')"

definition unary_parse :: "string \<Rightarrow> uuid option" where
  "unary_parse s = Some (of_nat (length s))"

lemma unary_uuid_text: "uuid_text unary_show unary_parse"
  by (auto simp: uuid_text_def unary_show_def unary_parse_def)

theorem artifact_uri_roundtrip_witness:
  "artifact_uri_from_str unary_parse (display_uri unary_show \<lparr>au_id = 2, au_type = Proof\<rparr>) =
     Some \<lparr>au_id = 2, au_type = Proof\<rparr> \<and>
   artifact_uri_from_str unary_parse (display_uri unary_show \<lparr>au_id = 2, au_type = PrivateStdin\<rparr>) = None"
  by (simp add: artifact_uri_roundtrip [OF unary_uuid_text])

end
