(* ===== verification/Artifact_Store.thy ===== *)
theory Artifact_Store
  imports Artifact_Uri Actor Ring
begin

text \<open>
  The artifact store (\<^verbatim>\<open>artifact_store/store.rs\<close>, \<^verbatim>\<open>command.rs\<close>, \<^verbatim>\<open>client.rs\<close>): the actor that keeps
  uploaded programs, inputs and proofs as files, with a ring of the most recent proofs and a ring of
  the most recent inputs. The directory is the map \<open>as_files\<close> from paths to contents. A panic of
  the actor is the value \<open>None\<close>.
\<close>

section \<open>State and environment\<close>

datatype write_outcome = WriteOk | WriteFailed "bytes option"

text \<open>
  What the file system answers during one command. A failed write leaves nothing, or some partial
  contents; \<open>fresh_uuid\<close> is the value of \<^verbatim>\<open>Uuid::new_v4\<close>.
\<close>

record fs_env =
  fs_write :: write_outcome
  fs_remove_ok :: bool
  fs_read_ok :: bool
  fresh_uuid :: uuid

record artifact_store =
  as_directory :: string
  as_upload_uris :: "artifact_uri set"
  as_max_stdin :: nat
  as_stdin_artifacts :: "artifact_uri list"
  as_stdin_index :: nat
  as_max_proof :: nat
  as_proof_artifacts :: "artifact_uri list"
  as_proof_index :: nat
  as_files :: "string \<rightharpoonup> bytes"

datatype store_error = NotRegistered artifact_uri | WriteError string | ReadError string

text \<open>
  \<^verbatim>\<open>ArtifactStore::new\<close> empties the directory; \<open>dir_ok\<close> says that removing and creating it worked.
\<close>

definition artifact_store_new :: "bool \<Rightarrow> string \<Rightarrow> nat \<Rightarrow> nat \<Rightarrow> artifact_store option" where
  "artifact_store_new dir_ok dir max_stdin max_proof =
     (if dir_ok then Some
        \<lparr>as_directory = dir, as_upload_uris = {},
         as_max_stdin = max_stdin, as_stdin_artifacts = replicate max_stdin artifact_uri_default,
         as_stdin_index = 0,
         as_max_proof = max_proof, as_proof_artifacts = replicate max_proof artifact_uri_default,
         as_proof_index = 0, as_files = Map.empty\<rparr>
      else None)"

section \<open>Handlers\<close>

definition handle_create_artifact ::
    "fs_env \<Rightarrow> artifact_type \<Rightarrow> artifact_store \<Rightarrow> artifact_uri \<times> artifact_store" where
  "handle_create_artifact fe t s =
     (let u = artifact_uri_new (fresh_uuid fe) t
      in (u, s\<lparr>as_upload_uris := insert u (as_upload_uris s)\<rparr>))"

definition handle_delete_artifact ::
    "(uuid \<Rightarrow> string) \<Rightarrow> fs_env \<Rightarrow> artifact_uri \<Rightarrow> artifact_store \<Rightarrow> artifact_store" where
  "handle_delete_artifact sh fe u s =
     (if fs_remove_ok fe
      then s\<lparr>as_files := (as_files s)(file_path sh (as_directory s) u := None)\<rparr> else s)"

text \<open>\<open>None\<close>: the index of an empty vector, or a remainder by zero, panics.\<close>

definition increment_current_proof_artifact_index :: "artifact_store \<Rightarrow> artifact_store option" where
  "increment_current_proof_artifact_index s =
     (if as_max_proof s = 0 then None
      else Some (s\<lparr>as_proof_index := (as_proof_index s + 1) mod as_max_proof s\<rparr>))"

definition increment_current_stdin_artifact_index :: "artifact_store \<Rightarrow> artifact_store option" where
  "increment_current_stdin_artifact_index s =
     (if as_max_stdin s = 0 then None
      else Some (s\<lparr>as_stdin_index := (as_stdin_index s + 1) mod as_max_stdin s\<rparr>))"

definition trim_proof ::
    "(uuid \<Rightarrow> string) \<Rightarrow> fs_env \<Rightarrow> artifact_uri \<Rightarrow> artifact_store \<Rightarrow> artifact_store option" where
  "trim_proof sh fe u s =
     (let i = as_proof_index s;
          s1 = (if i < length (as_proof_artifacts s) then
                  (let old = as_proof_artifacts s ! i in
                   if old \<noteq> artifact_uri_default then handle_delete_artifact sh fe old s else s)
                else s)
      in if i < length (as_proof_artifacts s1)
         then increment_current_proof_artifact_index
                (s1\<lparr>as_proof_artifacts := (as_proof_artifacts s1)[i := u]\<rparr>)
         else None)"

definition trim_stdin ::
    "(uuid \<Rightarrow> string) \<Rightarrow> fs_env \<Rightarrow> artifact_uri \<Rightarrow> artifact_store \<Rightarrow> artifact_store option" where
  "trim_stdin sh fe u s =
     (let i = as_stdin_index s;
          s1 = (if i < length (as_stdin_artifacts s) then
                  (let old = as_stdin_artifacts s ! i in
                   if old \<noteq> artifact_uri_default then handle_delete_artifact sh fe old s else s)
                else s)
      in if i < length (as_stdin_artifacts s1)
         then increment_current_stdin_artifact_index
                (s1\<lparr>as_stdin_artifacts := (as_stdin_artifacts s1)[i := u]\<rparr>)
         else None)"

definition handle_save_artifact ::
    "(uuid \<Rightarrow> string) \<Rightarrow> fs_env \<Rightarrow> artifact_uri \<Rightarrow> bytes \<Rightarrow> artifact_store \<Rightarrow>
     ((store_error + unit) \<times> artifact_store) option" where
  "handle_save_artifact sh fe u bs s =
     (if u \<notin> as_upload_uris s then Some (Inl (NotRegistered u), s)
      else (let path = file_path sh (as_directory s) u in
        if as_files s path \<noteq> None then Some (Inr (), s)
        else (case (case au_type u of
                      Proof \<Rightarrow> trim_proof sh fe u s
                    | Stdin \<Rightarrow> trim_stdin sh fe u s
                    | PrivateStdin \<Rightarrow> trim_stdin sh fe u s
                    | _ \<Rightarrow> Some s) of
                None \<Rightarrow> None
              | Some s1 \<Rightarrow> (case fs_write fe of
                    WriteOk \<Rightarrow> Some (Inr (), s1\<lparr>as_files := (as_files s1)(path \<mapsto> bs)\<rparr>)
                  | WriteFailed left \<Rightarrow>
                      Some (Inl (WriteError path), s1\<lparr>as_files := (as_files s1)(path := left)\<rparr>)))))"

definition handle_get_artifact_bytes ::
    "(uuid \<Rightarrow> string) \<Rightarrow> fs_env \<Rightarrow> artifact_uri \<Rightarrow> artifact_store \<Rightarrow> store_error + bytes option" where
  "handle_get_artifact_bytes sh fe u s =
     (let path = file_path sh (as_directory s) u in
      case as_files s path of
        Some bs \<Rightarrow> (if fs_read_ok fe then Inr (Some bs) else Inl (ReadError path))
      | None \<Rightarrow> Inr None)"

section \<open>The event loop\<close>

datatype artifact_store_command =
    CreateArtifact artifact_type
  | SaveArtifact artifact_uri bytes
  | GetArtifactBytes artifact_uri

datatype store_reply =
    UriReply artifact_uri
  | SaveReply "store_error + unit"
  | BytesReply "store_error + bytes option"

fun display_store_command :: "(uuid \<Rightarrow> string) \<Rightarrow> artifact_store_command \<Rightarrow> string" where
  "display_store_command sh (CreateArtifact t) = ''CreateArtifact '' @ artifact_type_name t"
| "display_store_command sh (SaveArtifact u _) = ''SaveArtifact '' @ display_uri sh u"
| "display_store_command sh (GetArtifactBytes u) = ''GetArtifactBytes '' @ display_uri sh u"

fun store_handle ::
    "(uuid \<Rightarrow> string) \<Rightarrow> fs_env \<Rightarrow> artifact_store_command \<Rightarrow> artifact_store \<Rightarrow>
     (store_reply \<times> artifact_store) option" where
  "store_handle sh fe (CreateArtifact t) s =
     (let (u, s') = handle_create_artifact fe t s in Some (UriReply u, s'))"
| "store_handle sh fe (SaveArtifact u bs) s =
     map_option (\<lambda>(res, s'). (SaveReply res, s')) (handle_save_artifact sh fe u bs s)"
| "store_handle sh fe (GetArtifactBytes u) s =
     Some (BytesReply (handle_get_artifact_bytes sh fe u s), s)"

text \<open>The task: once it has panicked it handles nothing more.\<close>

definition store_step ::
    "(uuid \<Rightarrow> string) \<Rightarrow> fs_env \<Rightarrow> artifact_store_command \<Rightarrow> artifact_store option \<Rightarrow> artifact_store option" where
  "store_step sh fe c s = (case s of None \<Rightarrow> None | Some st \<Rightarrow> map_option snd (store_handle sh fe c st))"

text \<open>
  \<^verbatim>\<open>ArtifactStoreClient\<close>: a call sends the command and awaits the reply; it fails when the task is
  gone or dies before replying.
\<close>

definition client_call ::
    "(uuid \<Rightarrow> string) \<Rightarrow> fs_env \<Rightarrow> artifact_store_command \<Rightarrow> artifact_store option \<Rightarrow>
     store_reply option \<times> artifact_store option" where
  "client_call sh fe c s = (case s of
       None \<Rightarrow> (None, None)
     | Some st \<Rightarrow> (case store_handle sh fe c st of
           None \<Rightarrow> (None, None)
         | Some (r, st') \<Rightarrow> (Some r, Some st')))"

section \<open>Invariant\<close>

abbreviation stdin_type :: "artifact_type \<Rightarrow> bool" where
  "stdin_type t \<equiv> t = Stdin \<or> t = PrivateStdin"

text \<open>
  Every file belongs to a registered uri, and files of the trimmed types are in their ring. The
  rings have the configured size.
\<close>

definition store_inv :: "(uuid \<Rightarrow> string) \<Rightarrow> artifact_store \<Rightarrow> bool" where
  "store_inv sh s \<longleftrightarrow>
     length (as_proof_artifacts s) = as_max_proof s \<and> as_proof_index s < as_max_proof s \<and>
     length (as_stdin_artifacts s) = as_max_stdin s \<and> as_stdin_index s < as_max_stdin s \<and>
     (\<forall>path \<in> dom (as_files s). \<exists>u \<in> as_upload_uris s. path = file_path sh (as_directory s) u \<and>
        (au_type u = Proof \<longrightarrow> u \<in> set (as_proof_artifacts s)) \<and>
        (stdin_type (au_type u) \<longrightarrow> u \<in> set (as_stdin_artifacts s)))"

lemma store_inv_file:
  assumes "uuid_text sh pa" "store_inv sh s" "as_files s (file_path sh (as_directory s) u) \<noteq> None"
  shows "u \<in> as_upload_uris s" "au_type u = Proof \<Longrightarrow> u \<in> set (as_proof_artifacts s)"
    "stdin_type (au_type u) \<Longrightarrow> u \<in> set (as_stdin_artifacts s)"
proof -
  from assms(2,3) obtain v where "v \<in> as_upload_uris s"
    "file_path sh (as_directory s) u = file_path sh (as_directory s) v"
    "au_type v = Proof \<longrightarrow> v \<in> set (as_proof_artifacts s)"
    "stdin_type (au_type v) \<longrightarrow> v \<in> set (as_stdin_artifacts s)"
    unfolding store_inv_def by blast
  then show "u \<in> as_upload_uris s" "au_type u = Proof \<Longrightarrow> u \<in> set (as_proof_artifacts s)"
    "stdin_type (au_type u) \<Longrightarrow> u \<in> set (as_stdin_artifacts s)"
    using file_path_inj [OF assms(1)] by auto
qed

text \<open>The two rings after an insertion.\<close>

lemma trim_proof_eq:
  assumes "store_inv sh s" "fs_remove_ok fe"
  shows "trim_proof sh fe u s = Some
     (s\<lparr>as_files := (if as_proof_artifacts s ! as_proof_index s \<noteq> artifact_uri_default
           then (as_files s)(file_path sh (as_directory s) (as_proof_artifacts s ! as_proof_index s) := None)
           else as_files s),
        as_proof_artifacts := (as_proof_artifacts s)[as_proof_index s := u],
        as_proof_index := (as_proof_index s + 1) mod as_max_proof s\<rparr>)"
  using assms by (simp add: store_inv_def trim_proof_def Let_def handle_delete_artifact_def
      increment_current_proof_artifact_index_def)

lemma trim_stdin_eq:
  assumes "store_inv sh s" "fs_remove_ok fe"
  shows "trim_stdin sh fe u s = Some
     (s\<lparr>as_files := (if as_stdin_artifacts s ! as_stdin_index s \<noteq> artifact_uri_default
           then (as_files s)(file_path sh (as_directory s) (as_stdin_artifacts s ! as_stdin_index s) := None)
           else as_files s),
        as_stdin_artifacts := (as_stdin_artifacts s)[as_stdin_index s := u],
        as_stdin_index := (as_stdin_index s + 1) mod as_max_stdin s\<rparr>)"
  using assms by (simp add: store_inv_def trim_stdin_def Let_def handle_delete_artifact_def
      increment_current_stdin_artifact_index_def)

lemma in_list_update_other:
  "x \<in> set xs \<Longrightarrow> x \<noteq> xs ! i \<Longrightarrow> x \<in> set (xs[i := y])"
  by (metis in_set_conv_nth length_list_update nth_list_update_neq)

text \<open>The store with room made for \<open>u\<close>.\<close>

definition room_for :: "(uuid \<Rightarrow> string) \<Rightarrow> fs_env \<Rightarrow> artifact_uri \<Rightarrow> artifact_store \<Rightarrow> artifact_store option" where
  "room_for sh fe u s = (case au_type u of
       Proof \<Rightarrow> trim_proof sh fe u s
     | Stdin \<Rightarrow> trim_stdin sh fe u s
     | PrivateStdin \<Rightarrow> trim_stdin sh fe u s
     | _ \<Rightarrow> Some s)"

lemma default_not_trimmed:
  "au_type u = Proof \<or> stdin_type (au_type u) \<Longrightarrow> u \<noteq> artifact_uri_default"
  by (auto simp: artifact_uri_default_def)

lemma store_inv_trim_proof:
  assumes "uuid_text sh pa" "store_inv sh s" "fs_remove_ok fe" "au_type u = Proof"
  shows "\<exists>s1. trim_proof sh fe u s = Some s1 \<and> store_inv sh s1 \<and> as_directory s1 = as_directory s \<and>
           as_upload_uris s1 = as_upload_uris s \<and> u \<in> set (as_proof_artifacts s1)"
proof -
  let ?old = "as_proof_artifacts s ! as_proof_index s"
  obtain s1 where s1: "trim_proof sh fe u s = Some s1" using trim_proof_eq [OF assms(2,3)] by blast
  note eq = s1 [unfolded trim_proof_eq [OF assms(2,3)] option.inject, symmetric]
  have len: "length (as_proof_artifacts s) = as_max_proof s" "as_proof_index s < as_max_proof s"
    using assms(2) by (simp_all add: store_inv_def)
  have "\<exists>v \<in> as_upload_uris s1. path = file_path sh (as_directory s1) v \<and>
        (au_type v = Proof \<longrightarrow> v \<in> set (as_proof_artifacts s1)) \<and>
        (stdin_type (au_type v) \<longrightarrow> v \<in> set (as_stdin_artifacts s1))"
    if "path \<in> dom (as_files s1)" for path
  proof -
    have sub: "path \<in> dom (as_files s)" using that by (auto simp: eq split: if_splits)
    then obtain v where v: "v \<in> as_upload_uris s" "path = file_path sh (as_directory s) v"
      "au_type v = Proof \<longrightarrow> v \<in> set (as_proof_artifacts s)"
      "stdin_type (au_type v) \<longrightarrow> v \<in> set (as_stdin_artifacts s)"
      using assms(2) unfolding store_inv_def by blast
    have "v \<noteq> ?old" if "au_type v = Proof"
      using \<open>path \<in> dom (as_files s1)\<close> v(2) default_not_trimmed [of v] that by (auto simp: eq)
    then show ?thesis using v by (auto simp: eq intro: in_list_update_other)
  qed
  then have "store_inv sh s1"
    using assms(2) len unfolding store_inv_def by (auto simp: eq)
  moreover have "u \<in> set (as_proof_artifacts s1)" using len by (simp add: eq set_update_memI)
  ultimately show ?thesis using s1 by (auto simp: eq)
qed

lemma store_inv_trim_stdin:
  assumes "uuid_text sh pa" "store_inv sh s" "fs_remove_ok fe" "stdin_type (au_type u)"
  shows "\<exists>s1. trim_stdin sh fe u s = Some s1 \<and> store_inv sh s1 \<and> as_directory s1 = as_directory s \<and>
           as_upload_uris s1 = as_upload_uris s \<and> u \<in> set (as_stdin_artifacts s1)"
proof -
  let ?old = "as_stdin_artifacts s ! as_stdin_index s"
  obtain s1 where s1: "trim_stdin sh fe u s = Some s1" using trim_stdin_eq [OF assms(2,3)] by blast
  note eq = s1 [unfolded trim_stdin_eq [OF assms(2,3)] option.inject, symmetric]
  have len: "length (as_stdin_artifacts s) = as_max_stdin s" "as_stdin_index s < as_max_stdin s"
    using assms(2) by (simp_all add: store_inv_def)
  have "\<exists>v \<in> as_upload_uris s1. path = file_path sh (as_directory s1) v \<and>
        (au_type v = Proof \<longrightarrow> v \<in> set (as_proof_artifacts s1)) \<and>
        (stdin_type (au_type v) \<longrightarrow> v \<in> set (as_stdin_artifacts s1))"
    if "path \<in> dom (as_files s1)" for path
  proof -
    have sub: "path \<in> dom (as_files s)" using that by (auto simp: eq split: if_splits)
    then obtain v where v: "v \<in> as_upload_uris s" "path = file_path sh (as_directory s) v"
      "au_type v = Proof \<longrightarrow> v \<in> set (as_proof_artifacts s)"
      "stdin_type (au_type v) \<longrightarrow> v \<in> set (as_stdin_artifacts s)"
      using assms(2) unfolding store_inv_def by blast
    have "v \<noteq> ?old" if "stdin_type (au_type v)"
      using \<open>path \<in> dom (as_files s1)\<close> v(2) default_not_trimmed [of v] that by (auto simp: eq)
    then show ?thesis using v by (auto simp: eq intro: in_list_update_other)
  qed
  then have "store_inv sh s1"
    using assms(2) len unfolding store_inv_def by (auto simp: eq)
  moreover have "u \<in> set (as_stdin_artifacts s1)" using len by (simp add: eq set_update_memI)
  ultimately show ?thesis using s1 by (auto simp: eq)
qed

lemma room_for_inv:
  assumes "uuid_text sh pa" "store_inv sh s" "fs_remove_ok fe"
  shows "\<exists>s1. room_for sh fe u s = Some s1 \<and> store_inv sh s1 \<and> as_directory s1 = as_directory s \<and>
           as_upload_uris s1 = as_upload_uris s \<and>
           (au_type u = Proof \<longrightarrow> u \<in> set (as_proof_artifacts s1)) \<and>
           (stdin_type (au_type u) \<longrightarrow> u \<in> set (as_stdin_artifacts s1))"
  using store_inv_trim_proof [OF assms, of u] store_inv_trim_stdin [OF assms, of u] assms(2)
  by (cases "au_type u") (auto simp: room_for_def)

lemma store_inv_write:
  assumes "store_inv sh s" "u \<in> as_upload_uris s"
    "au_type u = Proof \<longrightarrow> u \<in> set (as_proof_artifacts s)"
    "stdin_type (au_type u) \<longrightarrow> u \<in> set (as_stdin_artifacts s)"
  shows "store_inv sh (s\<lparr>as_files := (as_files s)(file_path sh (as_directory s) u := x)\<rparr>)"
  using assms unfolding store_inv_def by (auto split: if_splits)

lemma save_cases:
  assumes "uuid_text sh pa" "store_inv sh s" "fs_remove_ok fe"
  shows "\<exists>res s'. handle_save_artifact sh fe u bs s = Some (res, s') \<and> store_inv sh s' \<and>
           as_upload_uris s' = as_upload_uris s \<and> as_directory s' = as_directory s"
proof (cases "u \<in> as_upload_uris s \<and> as_files s (file_path sh (as_directory s) u) = None")
  case True
  obtain s1 where s1: "room_for sh fe u s = Some s1" "store_inv sh s1" "as_directory s1 = as_directory s"
    "as_upload_uris s1 = as_upload_uris s"
    "au_type u = Proof \<longrightarrow> u \<in> set (as_proof_artifacts s1)"
    "stdin_type (au_type u) \<longrightarrow> u \<in> set (as_stdin_artifacts s1)"
    using room_for_inv [OF assms] by blast
  have "store_inv sh (s1\<lparr>as_files := (as_files s1)(file_path sh (as_directory s) u := x)\<rparr>)" for x
    using store_inv_write [OF s1(2), of u x] s1 True by simp
  then show ?thesis
    using True s1
    by (cases "fs_write fe") (simp_all add: handle_save_artifact_def room_for_def [symmetric] Let_def)
next
  case False
  then show ?thesis using assms(2) by (auto simp: handle_save_artifact_def Let_def)
qed

text \<open>Steps in which removals succeed, and a store whose rings are not empty.\<close>

definition store_next :: "fs_env \<Rightarrow> fs_env \<Rightarrow> artifact_store_command \<Rightarrow> bool" where
  "store_next fe fe' c \<longleftrightarrow> fs_remove_ok fe'"

definition store_start :: "string \<Rightarrow> nat \<Rightarrow> nat \<Rightarrow> fs_env \<Rightarrow> artifact_store option \<Rightarrow> bool" where
  "store_start dir max_stdin max_proof fe s \<longleftrightarrow>
     0 < max_stdin \<and> 0 < max_proof \<and> s = artifact_store_new True dir max_stdin max_proof"

definition store_alive :: "(uuid \<Rightarrow> string) \<Rightarrow> nat \<Rightarrow> nat \<Rightarrow> artifact_store option \<Rightarrow> bool" where
  "store_alive sh max_stdin max_proof s \<longleftrightarrow>
     (\<exists>st. s = Some st \<and> store_inv sh st \<and> as_max_stdin st = max_stdin \<and> as_max_proof st = max_proof)"

lemma save_max:
  "handle_save_artifact sh fe u bs s = Some (res, s') \<Longrightarrow>
     as_max_stdin s' = as_max_stdin s \<and> as_max_proof s' = as_max_proof s"
  by (auto simp: handle_save_artifact_def trim_proof_def trim_stdin_def Let_def
      handle_delete_artifact_def increment_current_proof_artifact_index_def
      increment_current_stdin_artifact_index_def
      split: if_splits artifact_type.splits option.splits write_outcome.splits)

lemma store_alive_step:
  assumes "uuid_text sh pa" "store_alive sh m n s" "fs_remove_ok fe"
  shows "store_alive sh m n (store_step sh fe c s)"
proof -
  obtain st where st: "s = Some st" "store_inv sh st" "as_max_stdin st = m" "as_max_proof st = n"
    using assms(2) by (auto simp: store_alive_def)
  show ?thesis
  proof (cases c)
    case (CreateArtifact t)
    have "store_inv sh (st\<lparr>as_upload_uris := insert v (as_upload_uris st)\<rparr>)" for v
      using st(2) unfolding store_inv_def by auto
    then show ?thesis
      using CreateArtifact st by (auto simp: store_alive_def store_step_def handle_create_artifact_def Let_def)
  next
    case (SaveArtifact u bs)
    from save_cases [OF assms(1) st(2) assms(3), of u bs] obtain res s' where
      s': "handle_save_artifact sh fe u bs st = Some (res, s')" "store_inv sh s'" by blast
    then show ?thesis
      using SaveArtifact st save_max [OF s'(1)] by (simp add: store_alive_def store_step_def)
  next
    case (GetArtifactBytes u)
    then show ?thesis using st by (simp add: store_alive_def store_step_def)
  qed
qed

lemma store_actor:
  assumes "uuid_text sh pa"
  shows "actor_invariant (store_step sh) store_next (store_start dir m n) (\<lambda>_. store_alive sh m n)"
proof
  show "store_alive sh m n s" if "store_start dir m n fe s" for fe s
    using that by (auto simp: store_start_def artifact_store_new_def store_alive_def store_inv_def)
  show "store_alive sh m n (store_step sh fe' c s)"
    if "store_alive sh m n s" "store_next fe fe' c" for fe fe' c s
    using store_alive_step [OF assms that(1)] that(2) by (simp add: store_next_def)
qed

section \<open>Properties\<close>

text \<open>C11. A store configured with room for at least one proof and one input never panics, and as
  long as file removals succeed it keeps at most \<open>max_proof_artifacts_stored\<close> proof files and at
  most \<open>max_stdin_artifacts_stored\<close> input files (private ones included), all of uris it issued.\<close>

theorem artifact_files_bounded:
  assumes "uuid_text sh pa"
    and "reach (store_step sh) store_next (store_start dir max_stdin max_proof) fe s"
  shows "\<exists>st. s = Some st \<and>
     card {u. au_type u = Proof \<and> as_files st (file_path sh (as_directory st) u) \<noteq> None} \<le> max_proof \<and>
     card {u. stdin_type (au_type u) \<and> as_files st (file_path sh (as_directory st) u) \<noteq> None} \<le> max_stdin \<and>
     {u. as_files st (file_path sh (as_directory st) u) \<noteq> None} \<subseteq> as_upload_uris st"
proof -
  from actor_invariant.reach_inv [OF store_actor [OF assms(1)] assms(2)] obtain st where
    st: "s = Some st" "store_inv sh st" "as_max_stdin st = max_stdin" "as_max_proof st = max_proof"
    by (auto simp: store_alive_def)
  note F = store_inv_file [OF assms(1) st(2)]
  have len: "length (as_proof_artifacts st) = max_proof" "length (as_stdin_artifacts st) = max_stdin"
    using st by (auto simp: store_inv_def)
  have "{u. au_type u = Proof \<and> as_files st (file_path sh (as_directory st) u) \<noteq> None} \<subseteq> set (as_proof_artifacts st)"
    "{u. stdin_type (au_type u) \<and> as_files st (file_path sh (as_directory st) u) \<noteq> None} \<subseteq> set (as_stdin_artifacts st)"
    using F by blast+
  then have "card {u. au_type u = Proof \<and> as_files st (file_path sh (as_directory st) u) \<noteq> None} \<le> max_proof"
    "card {u. stdin_type (au_type u) \<and> as_files st (file_path sh (as_directory st) u) \<noteq> None} \<le> max_stdin"
    using card_mono [OF List.finite_set] card_length [of "as_proof_artifacts st"]
      card_length [of "as_stdin_artifacts st"] len by (meson le_trans order_eq_refl)+
  then show ?thesis using st(1) F(1) by blast
qed

definition ok_fs :: "uuid \<Rightarrow> fs_env" where
  "ok_fs i = \<lparr>fs_write = WriteOk, fs_remove_ok = True, fs_read_ok = True, fresh_uuid = i\<rparr>"

theorem artifact_files_bounded_witness:
  "\<exists>st. store_step unary_show (ok_fs 5) (SaveArtifact \<lparr>au_id = 5, au_type = Proof\<rparr> [1])
         (store_step unary_show (ok_fs 5) (CreateArtifact Proof) (artifact_store_new True ''d'' 1 1)) = Some st \<and>
     card {u. au_type u = Proof \<and> as_files st (file_path unary_show (as_directory st) u) \<noteq> None} \<le> 1"
proof -
  have "reach (store_step unary_show) store_next (store_start ''d'' 1 1) (ok_fs 0)
      (artifact_store_new True ''d'' 1 1)"
    by (rule reach_start) (simp add: store_start_def)
  note r1 = reach_step [OF this, of "ok_fs 5" "CreateArtifact Proof"]
  note r2 = reach_step [OF r1, of "ok_fs 5" "SaveArtifact \<lparr>au_id = 5, au_type = Proof\<rparr> [1]"]
  have n: "store_next fe (ok_fs 5) c" for fe c by (simp add: store_next_def ok_fs_def)
  from artifact_files_bounded [OF unary_uuid_text r2 [OF n n]] show ?thesis by blast
qed

text \<open>The ring of proofs: saving a registered, new proof when the disk works.\<close>

definition save_proof :: "(uuid \<Rightarrow> string) \<Rightarrow> artifact_uri \<Rightarrow> bytes \<Rightarrow> artifact_store \<Rightarrow> artifact_store" where
  "save_proof sh u bs s = (case handle_save_artifact sh (ok_fs 0) u bs s of
       Some (_, s') \<Rightarrow> s' | None \<Rightarrow> s)"

definition stored :: "(uuid \<Rightarrow> string) \<Rightarrow> artifact_store \<Rightarrow> artifact_uri \<Rightarrow> bytes option" where
  "stored sh s u = as_files s (file_path sh (as_directory s) u)"

definition proof_uri :: "artifact_store \<Rightarrow> artifact_uri \<Rightarrow> bool" where
  "proof_uri s u \<longleftrightarrow> u \<in> as_upload_uris s \<and> au_type u = Proof"

definition ring_full_inv :: "(uuid \<Rightarrow> string) \<Rightarrow> artifact_store \<Rightarrow> bool" where
  "ring_full_inv sh s \<longleftrightarrow> store_inv sh s \<and>
     (\<forall>u \<in> set (as_proof_artifacts s). u \<noteq> artifact_uri_default \<longrightarrow> stored sh s u \<noteq> None) \<and>
     (\<forall>i < length (as_proof_artifacts s). \<forall>j < length (as_proof_artifacts s).
        i \<noteq> j \<and> as_proof_artifacts s ! i = as_proof_artifacts s ! j \<longrightarrow>
        as_proof_artifacts s ! i = artifact_uri_default)"

lemma save_proof_eq:
  assumes "store_inv sh s" "proof_uri s u" "stored sh s u = None"
  shows "handle_save_artifact sh (ok_fs i) u bs s = Some (Inr (),
     s\<lparr>as_proof_artifacts := (as_proof_artifacts s)[as_proof_index s := u],
       as_proof_index := (as_proof_index s + 1) mod as_max_proof s,
       as_files := (if as_proof_artifacts s ! as_proof_index s \<noteq> artifact_uri_default
           then (as_files s)(file_path sh (as_directory s) (as_proof_artifacts s ! as_proof_index s) := None)
           else as_files s)(file_path sh (as_directory s) u \<mapsto> bs)\<rparr>)"
proof -
  have "fs_remove_ok (ok_fs i)" by (simp add: ok_fs_def)
  from trim_proof_eq [OF assms(1) this, of u] assms show ?thesis
    by (simp add: handle_save_artifact_def proof_uri_def stored_def Let_def ok_fs_def)
qed

lemma ring_absent:
  assumes "ring_full_inv sh s" "proof_uri s k" "stored sh s k = None"
  shows "k \<notin> set (as_proof_artifacts s)"
proof
  assume "k \<in> set (as_proof_artifacts s)"
  moreover have "k \<noteq> artifact_uri_default"
    using default_not_trimmed [of k] assms(2) by (simp add: proof_uri_def)
  ultimately show False using assms(1,3) unfolding ring_full_inv_def by blast
qed

lemma proof_ring:
  assumes "uuid_text sh pa"
  shows "ring_cache as_proof_artifacts as_proof_index (stored sh) (save_proof sh) proof_uri (ring_full_inv sh)"
proof
  fix s assume "ring_full_inv sh s"
  then show "as_proof_index s < length (as_proof_artifacts s)"
    by (simp add: ring_full_inv_def store_inv_def)
next
  fix s k assume "ring_full_inv sh s" "proof_uri s k" "stored sh s k = None"
  then show "k \<notin> set (as_proof_artifacts s)" by (rule ring_absent)
next
  fix s k v
  assume s: "ring_full_inv sh s" "proof_uri s k" "stored sh s k = None"
  have inv: "store_inv sh s" using s(1) by (simp add: ring_full_inv_def)
  let ?xs = "as_proof_artifacts s" and ?i = "as_proof_index s" and ?s = "save_proof sh k v s"
  note eq = save_proof_eq [OF inv s(2,3), of 0 v]
  have fields: "as_proof_artifacts ?s = ?xs[?i := k]" "as_proof_index ?s = (?i + 1) mod as_max_proof s"
    "as_upload_uris ?s = as_upload_uris s" "as_directory ?s = as_directory s"
    by (simp_all add: save_proof_def eq)
  have len: "length ?xs = as_max_proof s" "?i < length ?xs" using inv by (auto simp: store_inv_def)
  show "as_proof_artifacts ?s = ?xs[?i := k]" by (rule fields)
  show "as_proof_index ?s = (?i + 1) mod length ?xs" by (simp add: fields len)
  show get: "stored sh ?s k = Some v" by (simp add: stored_def save_proof_def eq)
  have kn: "k \<notin> set ?xs" by (rule ring_absent [OF s])
  have other: "stored sh ?s j = stored sh s j" if "j \<noteq> k" "j \<noteq> ?xs ! ?i" for j
    using that file_path_inj [OF assms] by (auto simp: stored_def save_proof_def eq)
  show "stored sh ?s j = stored sh s j" if "proof_uri s j" "j \<noteq> k" "j \<noteq> ?xs ! ?i" for j
    using other that by blast
  show "stored sh ?s j = None" if "proof_uri s j" "j \<noteq> k" "stored sh s j = None" for j
    using that file_path_inj [OF assms] by (auto simp: stored_def save_proof_def eq)
  show "proof_uri ?s j" if "proof_uri s j" for j using that by (simp add: proof_uri_def fields)
  have "store_inv sh ?s"
    using save_cases [OF assms inv, of "ok_fs 0" k v] by (auto simp: ok_fs_def save_proof_def)
  moreover have "stored sh ?s u \<noteq> None"
    if mem: "u \<in> set (?xs[?i := k])" and nd: "u \<noteq> artifact_uri_default" for u
  proof (cases "u = k")
    case True
    then show ?thesis using get by simp
  next
    case False
    then obtain j where j: "j < length ?xs" "j \<noteq> ?i" "?xs ! j = u"
      using mem by (metis in_set_conv_nth length_list_update nth_list_update_eq nth_list_update_neq)
    then have "u \<noteq> ?xs ! ?i" using s(1) len(2) nd by (auto simp: ring_full_inv_def)
    then show ?thesis
      using other [OF False] s(1) j nd by (auto simp: ring_full_inv_def)
  qed
  moreover have "?xs[?i := k] ! a = artifact_uri_default"
    if "a < length ?xs" "b < length ?xs" "a \<noteq> b" "?xs[?i := k] ! a = ?xs[?i := k] ! b" for a b
    using that s(1) kn len(2) by (auto simp: ring_full_inv_def nth_list_update split: if_splits)
  ultimately show "ring_full_inv sh ?s" by (auto simp: ring_full_inv_def fields)
qed

text \<open>A proof saved under a uri the store issued is read back byte for byte, also after up to
  \<open>max_proof_artifacts_stored - 1\<close> further proofs have been saved.\<close>

theorem saved_proof_readable:
  assumes "uuid_text sh pa" "ring_full_inv sh s"
    and "distinct (map fst ((u, bs) # later))"
    and "\<forall>(v, _) \<in> set ((u, bs) # later). proof_uri s v \<and> stored sh s v = None"
    and "length later < as_max_proof s"
  shows "handle_get_artifact_bytes sh (ok_fs i) u
           (fold (\<lambda>(v, b). save_proof sh v b) later (save_proof sh u bs s)) = Inr (Some bs)"
proof -
  note ring = proof_ring [OF assms(1)]
  have len: "length (as_proof_artifacts s) = as_max_proof s"
    using assms(2) by (simp add: ring_full_inv_def store_inv_def)
  have fresh: "ring_cache.fresh_keys (stored sh) proof_uri ((u, bs) # later) s"
    unfolding ring_cache.fresh_keys_def [OF ring] using assms(3,4) by simp
  have "stored sh (ring_cache.puts (save_proof sh) later (save_proof sh u bs s)) u = Some bs"
    by (rule ring_cache.retained [OF ring assms(2) _ _ fresh]) (use assms(4,5) len in auto)
  then show ?thesis
    by (simp add: ring_cache.puts_def [OF ring] stored_def handle_get_artifact_bytes_def ok_fs_def Let_def)
qed

definition demo_store :: artifact_store where
  "demo_store = \<lparr>as_directory = ''d'', as_upload_uris = {\<lparr>au_id = 5, au_type = Proof\<rparr>, \<lparr>au_id = 6, au_type = Proof\<rparr>},
     as_max_stdin = 1, as_stdin_artifacts = [artifact_uri_default], as_stdin_index = 0,
     as_max_proof = 2, as_proof_artifacts = [artifact_uri_default, artifact_uri_default], as_proof_index = 0,
     as_files = Map.empty\<rparr>"

theorem saved_proof_readable_witness:
  "handle_get_artifact_bytes unary_show (ok_fs 0) \<lparr>au_id = 5, au_type = Proof\<rparr>
     (save_proof unary_show \<lparr>au_id = 6, au_type = Proof\<rparr> [2]
       (save_proof unary_show \<lparr>au_id = 5, au_type = Proof\<rparr> [1] demo_store)) = Inr (Some [1])"
proof -
  have "ring_full_inv unary_show demo_store"
    by (auto simp: ring_full_inv_def store_inv_def demo_store_def less_Suc_eq numeral_2_eq_2)
  from saved_proof_readable [OF unary_uuid_text this, of "\<lparr>au_id = 5, au_type = Proof\<rparr>" "[1]"
      "[(\<lparr>au_id = 6, au_type = Proof\<rparr>, [2])]" 0]
  show ?thesis by (simp add: proof_uri_def stored_def demo_store_def)
qed

text \<open>A store configured with room for no proofs panics on the first upload of a proof under a
  uri it issued itself.\<close>

theorem zero_capacity_panics:
  assumes "s = the (artifact_store_new True dir max_stdin 0)"
    and "handle_create_artifact fe Proof s = (u, s1)"
  shows "handle_save_artifact sh fe u bs s1 = None"
  using assms
  by (auto simp: artifact_store_new_def handle_create_artifact_def handle_save_artifact_def trim_proof_def
      artifact_uri_new_def Let_def)

theorem zero_capacity_panics_witness:
  "handle_save_artifact unary_show (ok_fs 3) \<lparr>au_id = 3, au_type = Proof\<rparr> [7]
     (snd (handle_create_artifact (ok_fs 3) Proof (the (artifact_store_new True ''d'' 1 0)))) = None"
  by (rule zero_capacity_panics [OF refl, of "ok_fs 3" "''d''" 1])
    (simp add: handle_create_artifact_def artifact_uri_new_def ok_fs_def Let_def)

end
