(* ===== verification/Registry_Client.thy ===== *)
theory Registry_Client
  imports Registry_Props Artifact_Store
begin

text \<open>
  The callers of the registry: its client handle (\<^verbatim>\<open>worker_registry/client.rs\<close>), the router
  (\<^verbatim>\<open>proof/router.rs\<close>) and the websocket endpoint of a contemplant (\<^verbatim>\<open>api/websocket.rs\<close>). A call
  yields the commands it puts on the registry's channel, in order, and its result. Whether the channel
  accepts a command, and what comes back on a one-shot channel, are arguments.
\<close>

section \<open>Channels and results\<close>

datatype 'a recv = Received 'a | SenderDropped | TimedOut

datatype 'a outcome = Ret 'a | Panicked

datatype control_flow = Break | Continue

datatype client_error = SendFailed | RecvFailed

type_synonym 's cmds = "'s worker_registry_command list"

section \<open>The client handle\<close>

definition client_heartbeat :: "bool \<Rightarrow> bool recv \<Rightarrow> string \<Rightarrow> resp \<Rightarrow> 's cmds \<times> control_flow" where
  "client_heartbeat up answer addr rs =
     (if up then [Cmd_Heartbeat addr rs] else [],
      case (if up then answer else SenderDropped) of
        Received evicted \<Rightarrow> (if evicted then Break else Continue)
      | _ \<Rightarrow> Continue)"

definition client_worker_ready ::
    "bool \<Rightarrow> string \<Rightarrow> worker_register_info \<Rightarrow> chan \<Rightarrow> 's cmds \<times> control_flow" where
  "client_worker_ready up addr info c =
     (if CONTEMPLANT_VERSION \<noteq> wri_contemplant_version info then ([], Break)
      else if up
      then ([Cmd_WorkerReady addr (wri_name info) (wri_supported_vms info) (wri_groth16_enabled info)
               (wri_openvm_evm_enabled info) (wri_magister_drop_endpoint info) (wri_instance_nonce info) c],
            Continue)
      else ([], Break))"

definition assign_proof_request ::
    "bool \<Rightarrow> 's contemplant_proof_request \<Rightarrow> 's cmds \<times> (client_error + unit)" where
  "assign_proof_request up r =
     (if up then ([Cmd_AssignProofRequest r], Inr ()) else ([], Inl SendFailed))"

definition client_proof_status_response ::
    "bool \<Rightarrow> b256 \<Rightarrow> contemplant_proof_status option \<Rightarrow> 's cmds \<times> control_flow" where
  "client_proof_status_response up rid st =
     (if up then ([Cmd_ProofStatusResponse rid st], Continue) else ([], Break))"

definition drop_worker_of_request :: "bool \<Rightarrow> b256 \<Rightarrow> 's cmds" where
  "drop_worker_of_request up rid = (if up then [Cmd_DropWorkerOfRequest rid] else [])"

text \<open>
  A poll. \<open>pe_up\<close> and \<open>pe_up2\<close>: the channel accepts the poll, and the progress update that follows an
  answer; \<open>pe_answer\<close> is what arrives within the timeout on the one-shot channel \<open>pe_resp\<close>.
\<close>

record poll_env =
  pe_up :: bool
  pe_up2 :: bool
  pe_resp :: resp
  pe_answer :: "contemplant_proof_status option recv"

definition proof_status_request ::
    "poll_env \<Rightarrow> b256 \<Rightarrow> 's cmds \<times> (client_error + proof_status option) outcome" where
  "proof_status_request pe rid =
     (if \<not> pe_up pe then ([], Ret (Inl SendFailed))
      else (let poll = Cmd_ProofStatusRequest rid (pe_resp pe) in
        case pe_answer pe of
          TimedOut \<Rightarrow> ([poll], Ret (Inr (Some status_assigned)))
        | SenderDropped \<Rightarrow> ([poll], Ret (Inl RecvFailed))
        | Received maybe_status \<Rightarrow> (case maybe_status of
              None \<Rightarrow> ([poll], Ret (Inr None))
            | Some c \<Rightarrow>
                (if pe_up2 pe
                 then ([poll, Cmd_ProofProgressUpdate rid (cps_progress c)],
                       case status_from c of None \<Rightarrow> Panicked | Some st \<Rightarrow> Ret (Inr (Some st)))
                 else ([poll], Ret (Inl SendFailed))))))"

definition proof_complete :: "bool \<Rightarrow> b256 \<Rightarrow> 's cmds \<times> (client_error + unit)" where
  "proof_complete up rid = (if up then ([Cmd_ProofComplete rid], Inr ()) else ([], Inl SendFailed))"

definition client_query ::
    "bool \<Rightarrow> 'a recv \<Rightarrow> 's worker_registry_command \<Rightarrow> 's cmds \<times> (client_error + 'a)" where
  "client_query up answer cmd =
     (if up then ([cmd], case answer of Received x \<Rightarrow> Inr x | _ \<Rightarrow> Inl RecvFailed)
      else ([], Inl SendFailed))"

definition client_workers ::
    "bool \<Rightarrow> (string \<times> worker_state) list recv \<Rightarrow> resp \<Rightarrow>
     's cmds \<times> (client_error + (string \<times> worker_state) list)" where
  "client_workers up answer rs = client_query up answer (Cmd_Workers rs)"

definition client_pending_info ::
    "bool \<Rightarrow> (nat \<times> nat option) recv \<Rightarrow> resp \<Rightarrow> 's cmds \<times> (client_error + nat \<times> nat option)" where
  "client_pending_info up answer rs = client_query up answer (Cmd_PendingInfo rs)"

definition client_dead_workers ::
    "bool \<Rightarrow> (string \<times> worker_state) list recv \<Rightarrow> resp \<Rightarrow>
     's cmds \<times> (client_error + (string \<times> worker_state) list)" where
  "client_dead_workers up answer rs = client_query up answer (Cmd_DeadWorkers rs)"

definition client_proof_history ::
    "bool \<Rightarrow> completed_proof_info list recv \<Rightarrow> resp \<Rightarrow>
     's cmds \<times> (client_error + completed_proof_info list)" where
  "client_proof_history up answer rs = client_query up answer (Cmd_ProofHistory rs)"

section \<open>The router\<close>

definition get_proof_status ::
    "poll_env \<Rightarrow> b256 \<Rightarrow> 's cmds \<times> (client_error + proof_status) outcome" where
  "get_proof_status pe rid = (case proof_status_request pe rid of
       (cs, Panicked) \<Rightarrow> (cs, Panicked)
     | (cs, Ret r) \<Rightarrow> (cs, Ret (case r of
           Inr (Some st) \<Rightarrow> Inr st
         | Inr None \<Rightarrow> Inr status_lost
         | Inl _ \<Rightarrow> Inr status_lost)))"

definition ZSTD_MAGIC :: bytes where
  "ZSTD_MAGIC = [0x28, 0xb5, 0x2f, 0xfd]"

text \<open>\<open>zstd\<close> is \<^verbatim>\<open>zstd::decode_all\<close>.\<close>

definition maybe_zstd_decompress :: "(bytes \<Rightarrow> bytes option) \<Rightarrow> bytes \<Rightarrow> bytes option" where
  "maybe_zstd_decompress zstd bs = (if take 4 bs = ZSTD_MAGIC then zstd bs else Some bs)"

datatype route_error =
    StdinNotFound artifact_uri
  | StdinUnreadable artifact_uri
  | ProgramNotFound artifact_uri
  | ProgramUnreadable artifact_uri
  | ZstdError
  | BincodeError
  | RegistryGone

text \<open>Outcome of \<^verbatim>\<open>get_artifact_bytes\<close> at the client: an error, no file, or its contents.\<close>

definition get_artifact_bytes ::
    "(uuid \<Rightarrow> string) \<Rightarrow> fs_env \<Rightarrow> artifact_uri \<Rightarrow> artifact_store option \<Rightarrow> unit + bytes option" where
  "get_artifact_bytes sh fe u store = (case fst (client_call sh fe (GetArtifactBytes u) store) of
       Some (BytesReply (Inr b)) \<Rightarrow> Inr b
     | _ \<Rightarrow> Inl ())"

text \<open>
  \<^verbatim>\<open>route_sp1_proof\<close>. \<open>fe1\<close>, \<open>fe2\<close> are the file-system environments of the two reads, \<open>de_stdin\<close> and
  \<open>de_elf\<close> the \<^verbatim>\<open>bincode\<close> decoders of \<^verbatim>\<open>SP1Stdin\<close> and \<^verbatim>\<open>Vec<u8>\<close>.
\<close>

definition load_artifact ::
    "(bytes \<Rightarrow> bytes option) \<Rightarrow> (bytes \<Rightarrow> 'a option) \<Rightarrow> route_error \<Rightarrow> route_error \<Rightarrow>
     unit + bytes option \<Rightarrow> route_error + 'a" where
  "load_artifact zstd de not_found unreadable r = (case r of
       Inl _ \<Rightarrow> Inl unreadable
     | Inr None \<Rightarrow> Inl not_found
     | Inr (Some bs) \<Rightarrow> (case maybe_zstd_decompress zstd bs of
           None \<Rightarrow> Inl ZstdError
         | Some raw \<Rightarrow> (case de raw of None \<Rightarrow> Inl BincodeError | Some x \<Rightarrow> Inr x)))"

record 's codecs =
  cd_show_uuid :: "uuid \<Rightarrow> string"
  cd_zstd :: "bytes \<Rightarrow> bytes option"
  cd_stdin :: "bytes \<Rightarrow> 's option"
  cd_elf :: "bytes \<Rightarrow> bytes option"

definition route_sp1_proof ::
    "'s codecs \<Rightarrow> fs_env \<Rightarrow> fs_env \<Rightarrow> bool \<Rightarrow> bool \<Rightarrow> b256 \<Rightarrow> artifact_uri \<Rightarrow> artifact_uri \<Rightarrow> proof_mode \<Rightarrow>
     artifact_store option \<Rightarrow> 's cmds \<times> (route_error + unit)" where
  "route_sp1_proof cd fe1 fe2 up mock_mode rid program_uri stdin_uri mode store =
     (case load_artifact (cd_zstd cd) (cd_stdin cd) (StdinNotFound stdin_uri) (StdinUnreadable stdin_uri)
             (get_artifact_bytes (cd_show_uuid cd) fe1 stdin_uri store) of
        Inl e \<Rightarrow> ([], Inl e)
      | Inr stdin \<Rightarrow>
          (case load_artifact (cd_zstd cd) (cd_elf cd) (ProgramNotFound program_uri) (ProgramUnreadable program_uri)
                  (get_artifact_bytes (cd_show_uuid cd) fe2 program_uri store) of
             Inl e \<Rightarrow> ([], Inl e)
           | Inr elf \<Rightarrow>
               map_prod id (map_sum (\<lambda>_. RegistryGone) id)
                 (assign_proof_request up
                   (Req_Sp1 \<lparr>sp1_request_id = rid, sp1_elf = elf, sp1_mock = mock_mode, sp1_mode = mode,
                             sp1_stdin = stdin\<rparr>))))"

definition route_risc0_proof ::
    "bool \<Rightarrow> bool \<Rightarrow> b256 \<Rightarrow> bytes \<Rightarrow> bytes \<Rightarrow> risc0_proof_mode \<Rightarrow> bytes option \<Rightarrow>
     's cmds \<times> (client_error + unit)" where
  "route_risc0_proof up mock_mode rid elf input mode wrap_of =
     assign_proof_request up
       (Req_Risc0 \<lparr>r0_request_id = rid, r0_elf = elf, r0_input = input, r0_mode = mode,
                   r0_mock = mock_mode, r0_wrap_of = wrap_of\<rparr>)"

definition route_openvm_proof ::
    "bool \<Rightarrow> bool \<Rightarrow> b256 \<Rightarrow> bytes \<Rightarrow> string option \<Rightarrow> bytes list \<Rightarrow> openvm_proof_mode \<Rightarrow>
     's cmds \<times> (client_error + unit)" where
  "route_openvm_proof up mock_mode rid elf app_config_toml input mode =
     assign_proof_request up
       (Req_OpenVm \<lparr>ovm_request_id = rid, ovm_elf = elf, ovm_app_config_toml = app_config_toml,
                    ovm_input = input, ovm_mode = mode, ovm_mock = mock_mode\<rparr>)"

section \<open>The websocket of a contemplant\<close>

datatype ws_message = WsClose | WsBinary bytes | WsOther

record ws_env =
  we_up :: bool
  we_resp :: resp
  we_heartbeat :: "bool recv"

definition handle_message_from_contemplant ::
    "(bytes \<Rightarrow> from_contemplant_message option) \<Rightarrow> ws_env \<Rightarrow> string \<Rightarrow> chan \<Rightarrow> ws_message \<Rightarrow>
     's cmds \<times> control_flow" where
  "handle_message_from_contemplant de we addr c msg = (case msg of
       WsClose \<Rightarrow> ([], Break)
     | WsOther \<Rightarrow> ([], Continue)
     | WsBinary bs \<Rightarrow> (case de bs of
           None \<Rightarrow> ([], Continue)
         | Some (Register info) \<Rightarrow> client_worker_ready (we_up we) addr info c
         | Some (ProofStatusResponse rid st) \<Rightarrow> client_proof_status_response (we_up we) rid st
         | Some Heartbeat \<Rightarrow> client_heartbeat (we_up we) (we_heartbeat we) addr (we_resp we)))"

text \<open>The receiving task, on what arrives until the socket ends; \<open>None\<close> is a receive error.\<close>

fun recv_task ::
    "(bytes \<Rightarrow> from_contemplant_message option) \<Rightarrow> string \<Rightarrow> chan \<Rightarrow> (ws_env \<times> ws_message option) list \<Rightarrow>
     's cmds" where
  "recv_task de addr c [] = []"
| "recv_task de addr c ((we, None) # rest) = []"
| "recv_task de addr c ((we, Some msg) # rest) =
     (case handle_message_from_contemplant de we addr c msg of
        (cs, Break) \<Rightarrow> cs
      | (cs, Continue) \<Rightarrow> cs @ recv_task de addr c rest)"

text \<open>
  The sending task: the frames written for the queued messages, each with the success of its write.
  The final close frame is \<open>None\<close>.
\<close>

fun send_task ::
    "('s from_hierophant_message \<Rightarrow> bytes option) \<Rightarrow> ('s from_hierophant_message \<times> bool) list \<Rightarrow>
     bytes option list" where
  "send_task ser [] = [None]"
| "send_task ser ((m, ok) # rest) = (case ser m of
       None \<Rightarrow> send_task ser rest
     | Some bs \<Rightarrow> (if ok then Some bs # send_task ser rest else [None]))"

section \<open>Polls end to end\<close>

text \<open>What a poll receives on its one-shot channel within the timeout, from the effects of the registry.\<close>

fun reply_to :: "resp \<Rightarrow> 's effect \<Rightarrow> contemplant_proof_status option list" where
  "reply_to rs (ReplyStatus r st) = (if r = rs then [st] else [])"
| "reply_to rs _ = []"

definition replies :: "resp \<Rightarrow> 's registry \<Rightarrow> contemplant_proof_status option list" where
  "replies rs s = concat (map (reply_to rs) (rg_sent s))"

definition poll_answer :: "resp \<Rightarrow> 's registry \<Rightarrow> contemplant_proof_status option recv" where
  "poll_answer rs s = (case replies rs s of [] \<Rightarrow> TimedOut | st # _ \<Rightarrow> Received st)"

lemma replies_emit [simp]: "replies rs (emit x s) = replies rs s @ reply_to rs x"
  by (simp add: replies_def)

lemma replies_frame [simp]:
  "replies rs (mod_worker a f s) = replies rs s" "replies rs (s\<lparr>rg_awaiting := m\<rparr>) = replies rs s"
  by (simp_all add: replies_def)

lemma replies_trim:
  assumes "registry_inv cfg e s"
  shows "replies rs (trim_workers e s) = replies rs s"
proof -
  note I = registry_invD [OF assms]
  have "concat (map (reply_to rs) (magister_deletes L :: 'a effect list)) = []" for L
    by (auto simp: in_magister_deletes)
  then show ?thesis by (simp add: replies_def trim_workers_eq [OF I(1,4)])
qed

lemma status_from_unexecuted: "status_from cps_unexecuted = Some status_assigned"
  by (simp add: status_from_def execution_status_of_def cps_unexecuted_def status_assigned_def)

text \<open>The registry still answers for a request: it is queued, or its worker is connected.\<close>

definition tracked :: "env \<Rightarrow> b256 \<Rightarrow> 's registry \<Rightarrow> bool" where
  "tracked e rid s = (case find_worker e rid s of
       None \<Rightarrow> queued rid s
     | Some (_, w) \<Rightarrow> chan_open e (ws_sender w))"

text \<open>
  A poll that waits: only a status response for its request answers it, and no other command
  changes who waits for what.
\<close>

lemma replies_sent:
  assumes "rg_sent s' = rg_sent s @ xs" "\<And>x. x \<in> set xs \<Longrightarrow> reply_to rs x = []"
  shows "replies rs s' = replies rs s"
  using assms by (simp add: replies_def)

lemma drain_silent:
  assumes "env_ok e" "wf_workers (rg_workers s)"
  shows "replies rs (drain_pending e s) = replies rs s" "rg_awaiting (drain_pending e s) = rg_awaiting s"
proof -
  obtain xs where "rg_sent (drain_pending e s) = rg_sent s @ xs"
    "\<forall>x \<in> set xs. \<exists>c r t. (r, t) \<in> set (rg_pending s) \<and> x = SendWorker c (ProofRequest r)"
    using drain_pending_sent [OF assms] by blast
  then show "replies rs (drain_pending e s) = replies rs s" by (intro replies_sent) auto
  show "rg_awaiting (drain_pending e s) = rg_awaiting s"
    by (rule drainedD(6) [OF drain_pending_drained [OF assms]])
qed

lemma free_worker_silent:
  assumes "registry_inv cfg e s"
  shows "replies rs (free_worker_of_failed_proof e rid st s) = replies rs s"
    "rg_awaiting (free_worker_of_failed_proof e rid st s) = rg_awaiting s"
proof -
  note I = registry_invD [OF assms]
  have "wf_workers (rg_workers (mod_worker a failed_proof s))" for a
    using wf_workers_mod [OF I(3), of a failed_proof] by simp
  from drain_silent [OF I(1) this] show
    "replies rs (free_worker_of_failed_proof e rid st s) = replies rs s"
    "rg_awaiting (free_worker_of_failed_proof e rid st s) = rg_awaiting s"
    by (simp_all add: free_worker_of_failed_proof_def split: option.split)
qed

text \<open>The waiting polls of a request, and the commands that concern the poll on \<open>rs\<close> for \<open>rid\<close>.\<close>

definition waiting :: "b256 \<Rightarrow> 's registry \<Rightarrow> resp list" where
  "waiting rid s = (case rg_awaiting s rid of None \<Rightarrow> [] | Some xs \<Rightarrow> xs)"

definition waits_for :: "resp \<Rightarrow> b256 \<Rightarrow> 's registry \<Rightarrow> bool" where
  "waits_for rs rid s \<longleftrightarrow> (\<forall>r. rs \<in> set (waiting r s) \<longleftrightarrow> r = rid)"

lemma status_response_effect:
  fixes s :: "'s registry"
  assumes "registry_inv cfg e s"
  shows "replies rs (handle e (Cmd_ProofStatusResponse rid st) s) =
      replies rs s @ map (\<lambda>_. bridge_startup_race e rid st s) (filter (\<lambda>x. x = rs) (waiting rid s))"
    "rg_awaiting (handle e (Cmd_ProofStatusResponse rid st) s) = (rg_awaiting s)(rid := None)"
proof -
  have m: "concat (map (reply_to rs) (map (\<lambda>x. ReplyStatus x b) xs :: 's effect list)) = map (\<lambda>_. b) (filter (\<lambda>x. x = rs) xs)"
    for b and xs
    by (induction xs) auto
  note F = free_worker_silent [OF assms]
  show "replies rs (handle e (Cmd_ProofStatusResponse rid st) s) =
      replies rs s @ map (\<lambda>_. bridge_startup_race e rid st s) (filter (\<lambda>x. x = rs) (waiting rid s))"
    using F(1) [of rs rid] m
    by (simp add: handle_proof_status_response_def Let_def fold_emit F(2) waiting_def replies_def
        split: option.split)
  show "rg_awaiting (handle e (Cmd_ProofStatusResponse rid st) s) = (rg_awaiting s)(rid := None)"
    by (auto simp: handle_proof_status_response_def Let_def fold_emit F(2) split: option.split)
qed

lemma other_command_silent:
  assumes "registry_inv cfg e s" "\<And>r st. c \<noteq> Cmd_ProofStatusResponse r st"
    and "\<And>r rs'. c \<noteq> Cmd_ProofStatusRequest r rs'"
  shows "replies rs (handle e c s) = replies rs s \<and> rg_awaiting (handle e c s) = rg_awaiting s"
proof -
  note I = registry_invD [OF assms(1)]
  show ?thesis
  proof (cases c)
    case (Cmd_AssignProofRequest r)
    let ?t = "trim_workers e s"
    obtain k u where t: "try_assign e r ?t = (k, u)" by (cases "try_assign e r ?t")
    note T = registry_invD [OF registry_inv_trim [OF assms(1)]]
    obtain xs where "rg_sent u = rg_sent ?t @ xs" "\<forall>x \<in> set xs. \<exists>c. x = SendWorker c (ProofRequest r)"
      using try_assign_sent [OF T(1,4) t] by blast
    then have "replies rs u = replies rs s"
      using replies_sent [of u ?t xs rs] replies_trim [OF assms(1)] by fastforce
    then show ?thesis
      using Cmd_AssignProofRequest try_assign_frame(3) [OF T(1,4) t]
      by (simp add: handle_assign_proof_def t) (simp add: replies_def)
  next
    case (Cmd_WorkerReady a nm vms g ov mg nc ch)
    then show ?thesis
      using drain_silent [OF I(1) register_worker_wf [OF I(1,3)]]
      by (simp add: handle_worker_ready_def) (simp add: replies_def)
  next
    case (Cmd_ProofComplete r)
    have "wf_workers (rg_workers ((mod_worker a completed_proof s)\<lparr>rg_proof_history := h\<rparr>))" for a h
      using wf_workers_mod [OF I(3), of a completed_proof] by simp
    from drain_silent [OF I(1) this] drain_silent [OF I(1,3)] show ?thesis
      unfolding Cmd_ProofComplete
      by (simp add: handle_proof_complete_def Let_def split: option.split worker_status.split)
        (simp add: replies_def)
  next
    case (Cmd_StrikeWorkerOfRequest r)
    have "registry_inv cfg e (mod_worker a add_strike s)" for a
      by (rule registry_inv_mod [OF assms(1)]) simp_all
    from replies_trim [OF this] show ?thesis
      unfolding Cmd_StrikeWorkerOfRequest
      by (simp add: handle_strike_worker_of_request_def split: option.split)
  next
    case (Cmd_DropWorkerOfRequest r)
    have "registry_inv cfg e (mod_worker a (\<lambda>w. w\<lparr>ws_strikes := k\<rparr>) s)" for a k
      by (rule registry_inv_mod [OF assms(1)]) (simp_all add: can_serve_def supports_def works_on_def)
    from replies_trim [OF this] show ?thesis
      unfolding Cmd_DropWorkerOfRequest
      by (simp add: handle_drop_worker_of_request_def split: option.split)
  next
    case (Cmd_Heartbeat a r)
    then show ?thesis by (simp add: handle_heartbeat_def split: option.split)
  next
    case (Cmd_ProofProgressUpdate r u)
    then show ?thesis by (simp add: handle_proof_progress_update_def split: option.split)
  qed (use assms(2,3) in \<open>auto simp: handle_pending_info_def handle_workers_def handle_dead_workers_def
      handle_proof_history_def Let_def\<close>)
qed

lemma status_request_effect:
  assumes "registry_inv cfg e s" "rs' \<noteq> rs"
  shows "replies rs (handle e (Cmd_ProofStatusRequest r rs') s) = replies rs s"
    "rs \<in> set (waiting rid (handle e (Cmd_ProofStatusRequest r rs') s)) \<longleftrightarrow> rs \<in> set (waiting rid s)"
  using assms(2) replies_trim [OF assms(1), of rs]
  by (simp_all add: handle_proof_status_request_def Let_def waiting_def split: option.split)

text \<open>What a waiting poll receives while the registry handles \<open>evs\<close>: the first status response for its
  request, bridged, or nothing.\<close>

fun worker_answer ::
    "b256 \<Rightarrow> (env \<times> 's worker_registry_command) list \<Rightarrow> 's registry \<Rightarrow> contemplant_proof_status option recv" where
  "worker_answer rid [] s = TimedOut"
| "worker_answer rid ((e, c) # evs) s = (case c of
       Cmd_ProofStatusResponse r st \<Rightarrow>
         (if r = rid then Received (bridge_startup_race e rid st s) else worker_answer rid evs (handle e c s))
     | _ \<Rightarrow> worker_answer rid evs (handle e c s))"

lemma handle_sent_extends:
  assumes "registry_inv cfg e s"
  shows "\<exists>xs. replies rs (handle e c s) = replies rs s @ xs"
proof (cases c)
  case (Cmd_ProofStatusResponse r st)
  then show ?thesis using status_response_effect(1) [OF assms] by blast
next
  case (Cmd_ProofStatusRequest r rs')
  then show ?thesis
    using replies_trim [OF assms, of rs] by (simp add: handle_proof_status_request_def Let_def split: option.split)
qed (use other_command_silent [OF assms, of c rs] in auto)

lemma poll_answer_stays:
  assumes "registry_inv cfg e s" "env_chain registry_next e evs" "replies rs s = x # xs"
  shows "poll_answer rs (event_loop handle evs s) = Received x"
  using assms
proof (induction evs arbitrary: e s xs)
  case Nil
  then show ?case by (simp add: poll_answer_def)
next
  case (Cons p evs)
  obtain e' c where p: "p = (e', c)" by (cases p)
  have inv: "registry_inv cfg e' s" using Cons.prems p registry_inv_env by (auto simp: registry_next_def)
  obtain ys where "replies rs (handle e' c s) = x # ys"
    using handle_sent_extends [OF inv, of rs c] Cons.prems(3) by auto
  from Cons.IH [OF registry_inv_handle [OF inv] _ this] Cons.prems(2) p show ?case by simp
qed

lemma poll_answer_waits:
  assumes "registry_inv cfg e s" "env_chain registry_next e evs" "replies rs s = []" "waits_for rs rid s"
    and "\<And>e' r. (e', Cmd_ProofStatusRequest r rs) \<notin> set evs"
  shows "poll_answer rs (event_loop handle evs s) = worker_answer rid evs s"
  using assms
proof (induction evs arbitrary: e s)
  case Nil
  then show ?case by (simp add: poll_answer_def)
next
  case (Cons p evs)
  obtain e' c where p: "p = (e', c)" by (cases p)
  have inv: "registry_inv cfg e' s" using Cons.prems p registry_inv_env by (auto simp: registry_next_def)
  have ch: "env_chain registry_next e' evs" using Cons.prems(2) p by simp
  note IH = Cons.IH [OF registry_inv_handle [OF inv] ch]
  have later: "\<And>e' r. (e', Cmd_ProofStatusRequest r rs) \<notin> set evs" using Cons.prems(5) by auto
  have here: "\<And>r. c \<noteq> Cmd_ProofStatusRequest r rs" using Cons.prems(5) p by auto
  have same: "waits_for rs rid (handle e' c s) \<and> replies rs (handle e' c s) = []"
    if "\<And>st. c \<noteq> Cmd_ProofStatusResponse rid st"
  proof (cases c)
    case (Cmd_ProofStatusRequest r rs')
    then show ?thesis
      using status_request_effect [OF inv, of rs' rs] here Cons.prems(3,4) unfolding waits_for_def by metis
  next
    case (Cmd_ProofStatusResponse r st)
    then have "r \<noteq> rid" using that by blast
    moreover from this have "filter (\<lambda>x. x = rs) (waiting r s) = []"
      using Cons.prems(4) by (auto simp: waits_for_def filter_empty_conv)
    ultimately show ?thesis
      using status_response_effect(1) [OF inv, of rs r st] status_response_effect(2) [OF inv, of r st] Cons.prems(3,4) Cmd_ProofStatusResponse
      by (auto simp: waits_for_def waiting_def)
  qed (use other_command_silent [OF inv, of c rs] Cons.prems(3,4) in \<open>auto simp: waits_for_def waiting_def\<close>)
  show ?case
  proof (cases "\<exists>st. c = Cmd_ProofStatusResponse rid st")
    case True
    then obtain st where c: "c = Cmd_ProofStatusResponse rid st" by blast
    have "filter (\<lambda>x. x = rs) (waiting rid s) \<noteq> []"
      using Cons.prems(4) by (auto simp: waits_for_def filter_empty_conv)
    then obtain xs where "replies rs (handle e' c s) = bridge_startup_race e' rid st s # xs"
      using status_response_effect(1) [OF inv, of rs rid st] Cons.prems(3) c
      by (cases "filter (\<lambda>x. x = rs) (waiting rid s)") auto
    from poll_answer_stays [OF registry_inv_handle [OF inv] ch this] show ?thesis by (simp add: p c)
  next
    case False
    then have "worker_answer rid (p # evs) s = worker_answer rid evs (handle e' c s)"
      by (cases c) (auto simp: p)
    then show ?thesis using IH same later False by (simp add: p)
  qed
qed

text \<open>C13. What a status poll reads while the registry runs, over every sequence of commands it handles within
  the poll's timeout. "Lost" is read exactly when, after the eviction of dead workers, the registry
  neither queues the request nor has a connected worker on it, or when the first status response for the request
  says that the worker does not know it and the start-up grace of its assignment is over (or it has none any
  more). A queued request, a worker that does not answer in time and an unknown request within the grace read
  "assigned"; any other response is relayed. A slow worker never makes a request look lost.\<close>

theorem poll_lost_iff_untracked:
  fixes s :: "'s registry"
  defines "poll \<equiv> \<lambda>rid pe. Cmd_ProofStatusRequest rid (pe_resp pe)"
  assumes "reach handle registry_next (registry_start cfg) e0 s" "env_next e0 e" "env_chain registry_next e evs"
    and "replies (pe_resp pe) s = []" "\<And>r. pe_resp pe \<notin> set (waiting r s)"
    and "\<And>e' r. (e', Cmd_ProofStatusRequest r (pe_resp pe)) \<notin> set evs"
    and "pe_up pe" "pe_up2 pe"
    and "pe_answer pe = poll_answer (pe_resp pe) (background_event_loop evs (handle e (poll rid pe) s))"
  shows "snd (get_proof_status pe rid) =
     (if \<not> tracked e rid (trim_workers e s) then Ret (Inr status_lost)
      else if find_worker e rid (trim_workers e s) = None then Ret (Inr status_assigned)
      else (case worker_answer rid evs (handle e (poll rid pe) s) of
              Received None \<Rightarrow> Ret (Inr status_lost)
            | Received (Some c) \<Rightarrow> (case status_from c of None \<Rightarrow> Panicked | Some st \<Rightarrow> Ret (Inr st))
            | _ \<Rightarrow> Ret (Inr status_assigned)))"
proof -
  have inv: "registry_inv cfg e s" using reg.reach_inv [OF assms(2)] registry_inv_env assms(3) by auto
  let ?t = "trim_workers e s" and ?rs = "pe_resp pe"
  let ?s1 = "handle e (poll rid pe) s"
  have inv1: "registry_inv cfg e ?s1" by (rule registry_inv_handle [OF inv])
  have fr: "replies ?rs ?t = []" by (simp add: replies_trim [OF inv] assms(5))
  have up: "snd (get_proof_status pe rid) = (case pe_answer pe of
              Received None \<Rightarrow> Ret (Inr status_lost)
            | Received (Some c) \<Rightarrow> (case status_from c of None \<Rightarrow> Panicked | Some st \<Rightarrow> Ret (Inr st))
            | TimedOut \<Rightarrow> Ret (Inr status_assigned) | SenderDropped \<Rightarrow> Ret (Inr status_lost))"
    using assms(8,9)
    by (simp add: get_proof_status_def proof_status_request_def Let_def split: recv.split option.split)
  have now: "pe_answer pe = Received x" if "replies ?rs ?s1 = [x]" for x
    unfolding assms(10) background_event_loop_def by (rule poll_answer_stays [OF inv1 assms(4) that])
  show ?thesis
  proof (cases "find_worker e rid ?t")
    case None
    then have "pe_answer pe = Received (if queued rid ?t then Some cps_unexecuted else None)"
      using fr by (intro now) (simp add: poll_def handle_proof_status_request_def Let_def)
    then show ?thesis using None by (simp add: up tracked_def status_from_unexecuted)
  next
    case (Some aw)
    then obtain a w where f: "find_worker e rid ?t = Some (a, w)" by (cases aw) simp
    show ?thesis
    proof (cases "chan_open e (ws_sender w)")
      case False
      then have "pe_answer pe = Received None"
        using fr f by (intro now) (simp add: poll_def handle_proof_status_request_def Let_def)
      then show ?thesis using f False by (simp add: up tracked_def)
    next
      case True
      then have "replies ?rs ?s1 = []" "waits_for ?rs rid ?s1"
        using fr f assms(6)
        by (auto simp: poll_def handle_proof_status_request_def Let_def waits_for_def waiting_def split: option.splits)
      from poll_answer_waits [OF inv1 assms(4) this assms(7)]
      have a: "pe_answer pe = worker_answer rid evs ?s1"
        unfolding assms(10) background_event_loop_def .
      have "worker_answer rid evs v \<noteq> SenderDropped" for v
        by (induction evs arbitrary: v rule: list.induct) (auto split: worker_registry_command.splits if_splits)
      then show ?thesis using f True unfolding up a
        by (simp add: tracked_def split: recv.split option.split)
    qed
  qed
qed

theorem poll_lost_iff_untracked_witness:
  "snd (get_proof_status \<lparr>pe_up = True, pe_up2 = True, pe_resp = 9,
      pe_answer = poll_answer 9 (background_event_loop [(demo_env (from_secs 91), Cmd_ProofStatusResponse 1 None)]
        (handle (demo_env 0) (Cmd_ProofStatusRequest 1 9) demo_state))\<rparr> 1) = Ret (Inr status_lost) \<and>
   snd (get_proof_status \<lparr>pe_up = True, pe_up2 = True, pe_resp = 9,
      pe_answer = poll_answer 9 (background_event_loop [(demo_env (from_secs 30), Cmd_ProofStatusResponse 1 None)]
        (handle (demo_env 0) (Cmd_ProofStatusRequest 1 9) demo_state))\<rparr> 1) = Ret (Inr status_assigned)"
proof -
  let ?pe = "\<lambda>n. \<lparr>pe_up = True, pe_up2 = True, pe_resp = 9,
      pe_answer = poll_answer 9 (background_event_loop [(demo_env (from_secs n), Cmd_ProofStatusResponse 1 None)]
        (handle (demo_env 0) (Cmd_ProofStatusRequest 1 9) demo_state))\<rparr>"
  have t: "trim_workers (demo_env 0) demo_state = demo_state"
    by (simp add: demo_state_eq demo_worker_def demo_env_def demo_defs Let_def)
  have f: "find_worker (demo_env 0) 1 demo_state = Some (''w1'', demo_worker)"
    by (simp add: find_worker_def entries_def demo_state_eq demo_env_def demo_works_on)
  have h: "find_worker (demo_env n) 1 (handle (demo_env 0) (Cmd_ProofStatusRequest 1 9) demo_state) =
      Some (''w1'', demo_worker)" for n
    by (simp add: handle_proof_status_request_def t f demo_open Let_def)
      (simp add: find_worker_def entries_def demo_state_eq demo_env_def demo_works_on)
  have g: "rg_config (handle (demo_env 0) (Cmd_ProofStatusRequest 1 9) demo_state) = default_worker_registry_config"
    by (simp add: handle_proof_status_request_def t f demo_open Let_def) (simp add: demo_state_eq)
  have w: "bridge_startup_race (demo_env (from_secs n)) 1 None
      (handle_proof_status_request (demo_env 0) 1 9 demo_state) =
      (if n < 90 then Some cps_unexecuted else None)" for n
    using h [of "from_secs n"] g
    by (simp add: bridge_startup_race_def demo_worker_def)
      (simp add: demo_env_def elapsed_def default_worker_registry_config_def from_secs_def nanos_per_sec_def)
  have c: "tracked (demo_env 0) 1 demo_state" by (simp add: tracked_def f demo_open)
  have r: "replies 9 demo_state = []" "waiting q demo_state = []" for q
    by (simp_all add: replies_def waiting_def demo_state_eq)
  have "snd (get_proof_status (?pe n) 1) =
      Ret (Inr (if n < 90 then status_assigned else status_lost))" for n
    using poll_lost_iff_untracked [OF demo_reach, of "demo_env 0"
        "[(demo_env (from_secs n), Cmd_ProofStatusResponse 1 None)]" "?pe n" 1]
    by (simp add: demo_next registry_next_def r t c f w status_from_unexecuted split: if_splits)
  from this [of 91] this [of 30] show ?thesis by simp
qed

lemma fulfilled_report:
  assumes "snd (get_proof_status pe rid) = Ret (Inr st)" "ps_fulfillment_status st = fulfillment_status_i32 Fulfilled"
  shows "\<exists>c. pe_answer pe = Received (Some c) \<and> cps_execution_status c = execution_status_i32 Executed \<and>
           cps_proof c = Some (ps_proof st) \<and>
           Cmd_ProofProgressUpdate rid (cps_progress c) \<in> set (fst (get_proof_status pe rid))"
proof -
  have nf: "ps_fulfillment_status status_lost \<noteq> fulfillment_status_i32 Fulfilled"
    "ps_fulfillment_status status_assigned \<noteq> fulfillment_status_i32 Fulfilled"
    by (simp_all add: status_lost_def status_assigned_def mk_status_def)
  have "\<exists>c. pe_answer pe = Received (Some c) \<and> status_from c = Some st \<and>
           Cmd_ProofProgressUpdate rid (cps_progress c) \<in> set (fst (get_proof_status pe rid))"
    using assms nf
    by (auto simp: get_proof_status_def proof_status_request_def Let_def
        split: recv.splits option.splits if_splits)
  with assms(2) status_from_Some_fields(1,2) show ?thesis by blast
qed

lemma get_proof_status_panics:
  "snd (get_proof_status pe rid) = Panicked \<longleftrightarrow>
     pe_up pe \<and> pe_up2 pe \<and>
     (\<exists>c. pe_answer pe = Received (Some c) \<and>
          cps_execution_status c = execution_status_i32 Executed \<and> cps_proof c = None)"
  unfolding status_from_panics_iff [symmetric]
  by (simp add: get_proof_status_def proof_status_request_def Let_def split: recv.splits option.splits)

text \<open>C14. A poll reads "fulfilled" only when the worker's own report says executed and carries exactly the proof
  handed to the client; it panics exactly on a report that says executed and carries no proof. In both cases
  the reported progress has been passed to the registry.\<close>

theorem fulfilled_is_reported:
  "(\<forall>st. snd (get_proof_status pe rid) = Ret (Inr st) \<and>
         ps_fulfillment_status st = fulfillment_status_i32 Fulfilled \<longrightarrow>
      (\<exists>c. pe_answer pe = Received (Some c) \<and>
           cps_execution_status c = execution_status_i32 Executed \<and> cps_proof c = Some (ps_proof st) \<and>
           Cmd_ProofProgressUpdate rid (cps_progress c) \<in> set (fst (get_proof_status pe rid)))) \<and>
   (snd (get_proof_status pe rid) = Panicked \<longleftrightarrow>
      pe_up pe \<and> pe_up2 pe \<and>
      (\<exists>c. pe_answer pe = Received (Some c) \<and>
           cps_execution_status c = execution_status_i32 Executed \<and> cps_proof c = None))"
  using fulfilled_report get_proof_status_panics by blast

theorem fulfilled_is_reported_witness:
  "\<exists>c. Received (Some \<lparr>cps_execution_status = 2, cps_proof = Some [1], cps_progress = None\<rparr>) = Received (Some c) \<and>
       cps_execution_status c = execution_status_i32 Executed \<and> cps_proof c = Some [1]"
  using fulfilled_is_reported [THEN conjunct1, rule_format,
      of "\<lparr>pe_up = True, pe_up2 = True, pe_resp = 0, pe_answer =
        Received (Some \<lparr>cps_execution_status = 2, cps_proof = Some [1], cps_progress = None\<rparr>)\<rparr>" 1
        "mk_status Fulfilled Executed [1]"]
  by (auto simp: get_proof_status_def proof_status_request_def Let_def status_from_def
      execution_status_of_def mk_status_def)

section \<open>The websocket gate\<close>

lemma message_worker_ready:
  assumes "Cmd_WorkerReady a nm vms g ov mg nonce c' \<in> set (fst (handle_message_from_contemplant de we addr c msg))"
  shows "a = addr \<and> c' = c \<and> (\<exists>bs info. msg = WsBinary bs \<and> de bs = Some (Register info) \<and>
           wri_contemplant_version info = CONTEMPLANT_VERSION \<and> wri_name info = nm \<and>
           wri_instance_nonce info = nonce)"
  using assms
  by (auto simp: handle_message_from_contemplant_def client_worker_ready_def client_proof_status_response_def
      client_heartbeat_def split: ws_message.splits option.splits from_contemplant_message.splits if_splits)

lemma recv_task_source:
  "cmd \<in> set (recv_task de addr c msgs :: 's cmds) \<Longrightarrow>
   \<exists>we msg. (we, Some msg) \<in> set msgs \<and> cmd \<in> set (fst (handle_message_from_contemplant de we addr c msg :: 's cmds \<times> control_flow))"
proof (induction msgs)
  case (Cons m msgs)
  obtain we mo where m: "m = (we, mo)" by (cases m)
  show ?case
  proof (cases mo)
    case None
    with Cons.prems m show ?thesis by simp
  next
    case (Some msg)
    obtain cs cf where h: "(handle_message_from_contemplant de we addr c msg :: 's cmds \<times> control_flow) = (cs, cf)"
      by (cases "handle_message_from_contemplant de we addr c msg :: 's cmds \<times> control_flow")
    consider "cmd \<in> set cs" | "cmd \<in> set (recv_task de addr c msgs :: 's cmds)"
      using Cons.prems m Some h by (auto split: control_flow.splits)
    then show ?thesis
    proof cases
      case 1
      then show ?thesis using h m Some by (intro exI [of _ we] exI [of _ msg]) simp
    next
      case 2
      then show ?thesis using Cons.IH by auto
    qed
  qed
qed simp

lemma recv_task_break:
  "handle_message_from_contemplant de we addr c msg = ([] :: 's cmds, Break) \<Longrightarrow>
   (recv_task de addr c (pre @ (we, Some msg) # rest) :: 's cmds) = recv_task de addr c pre"
proof (induction pre)
  case (Cons m pre)
  obtain we' msg' where "m = (we', msg')" by (cases m)
  with Cons show ?case by (cases msg') (auto split: prod.splits control_flow.splits)
qed simp

text \<open>A websocket connection registers a worker only under its own peer address and sender, and only on a
  \<open>Register\<close> message of the hierophant's own protocol version. A \<open>Register\<close> message of another version ends
  the connection: nothing that follows it reaches the registry.\<close>

theorem ws_version_gate:
  fixes c :: chan and de :: "bytes \<Rightarrow> from_contemplant_message option"
  shows "(\<forall>a nm vms g ov mg nonce c'.
            Cmd_WorkerReady a nm vms g ov mg nonce c' \<in> set (recv_task de addr c msgs :: 's cmds) \<longrightarrow>
            a = addr \<and> c' = c \<and>
            (\<exists>we bs info. (we, Some (WsBinary bs)) \<in> set msgs \<and> de bs = Some (Register info) \<and>
               wri_contemplant_version info = CONTEMPLANT_VERSION \<and> wri_name info = nm \<and>
               wri_instance_nonce info = nonce)) \<and>
         (de bs = Some (Register info) \<and> wri_contemplant_version info \<noteq> CONTEMPLANT_VERSION \<longrightarrow>
            (recv_task de addr c (pre @ (we, Some (WsBinary bs)) # rest) :: 's cmds) = recv_task de addr c pre)"
proof (intro conjI allI impI)
  assume v: "de bs = Some (Register info) \<and> wri_contemplant_version info \<noteq> CONTEMPLANT_VERSION"
  show "(recv_task de addr c (pre @ (we, Some (WsBinary bs)) # rest) :: 's cmds) = recv_task de addr c pre"
    by (rule recv_task_break) (use v in \<open>auto simp: handle_message_from_contemplant_def client_worker_ready_def\<close>)
next
  fix a nm vms g ov mg nonce c'
  assume "Cmd_WorkerReady a nm vms g ov mg nonce c' \<in> set (recv_task de addr c msgs :: 's cmds)"
  from recv_task_source [OF this] obtain we' msg where m: "(we', Some msg) \<in> set msgs"
    "Cmd_WorkerReady a nm vms g ov mg nonce c' \<in> set (fst (handle_message_from_contemplant de we' addr c msg :: 's cmds \<times> _))"
    by blast
  from message_worker_ready [OF m(2)] m(1) show "a = addr" "c' = c"
    "\<exists>we bs info. (we, Some (WsBinary bs)) \<in> set msgs \<and> de bs = Some (Register info) \<and>
       wri_contemplant_version info = CONTEMPLANT_VERSION \<and> wri_name info = nm \<and> wri_instance_nonce info = nonce"
    by blast+
qed

definition demo_info :: "string \<Rightarrow> worker_register_info" where
  "demo_info v = \<lparr>wri_name = ''w'', wri_contemplant_version = v, wri_supported_vms = [], wri_groth16_enabled = False,
     wri_openvm_evm_enabled = False, wri_magister_drop_endpoint = None, wri_instance_nonce = 1\<rparr>"

definition demo_ws_env :: ws_env where
  "demo_ws_env = \<lparr>we_up = True, we_resp = 0, we_heartbeat = Received False\<rparr>"

theorem ws_version_gate_witness:
  "(recv_task (\<lambda>_. Some (Register (demo_info ''x''))) ''a'' 0
      ([] @ (demo_ws_env, Some (WsBinary [])) # [(demo_ws_env, Some (WsBinary [1]))]) :: unit cmds) =
    recv_task (\<lambda>_. Some (Register (demo_info ''x''))) ''a'' 0 []"
  by (rule ws_version_gate [THEN conjunct2, rule_format, where info = "demo_info ''x''"])
    (simp add: demo_info_def CONTEMPLANT_VERSION_def)

section \<open>Routing an SP1 request\<close>

lemma get_artifact_bytes_Some:
  "get_artifact_bytes sh fe u (Some st) =
     (case as_files st (file_path sh (as_directory st) u) of
        None \<Rightarrow> Inr None
      | Some bs \<Rightarrow> (if fs_read_ok fe then Inr (Some bs) else Inl ()))"
  by (simp add: get_artifact_bytes_def client_call_def handle_get_artifact_bytes_def Let_def split: option.splits)

text \<open>The content of an artifact after decompression and decoding.\<close>

definition artifact_value ::
    "'s codecs \<Rightarrow> (bytes \<Rightarrow> 'a option) \<Rightarrow> fs_env \<Rightarrow> artifact_uri \<Rightarrow> artifact_store \<Rightarrow> 'a option" where
  "artifact_value cd de fe u st =
     (if fs_read_ok fe
      then Option.bind (Option.bind (as_files st (file_path (cd_show_uuid cd) (as_directory st) u))
             (maybe_zstd_decompress (cd_zstd cd))) de
      else None)"

lemma load_artifact_Inr:
  "load_artifact (cd_zstd cd) de nf ur (get_artifact_bytes (cd_show_uuid cd) fe u (Some st)) = Inr x \<longleftrightarrow>
   artifact_value cd de fe u st = Some x"
  by (auto simp: load_artifact_def get_artifact_bytes_Some artifact_value_def bind_eq_Some_conv
      split: option.splits)

text \<open>Routing an SP1 request hands the registry exactly one assignment, whose program and input are the
  decoded contents of the two named artifacts, when both are stored, readable and decodable; in every other
  case it hands over nothing and returns an error.\<close>

theorem route_sp1_exact:
  defines "run \<equiv> \<lambda>cd fe1 fe2 up mock rid program_uri stdin_uri mode st.
     route_sp1_proof cd fe1 fe2 up mock rid program_uri stdin_uri mode (Some st)"
  shows "(run cd fe1 fe2 up mock rid program_uri stdin_uri mode st = (cs, Inr ()) \<longleftrightarrow>
     up \<and> (\<exists>stdin elf. artifact_value cd (cd_stdin cd) fe1 stdin_uri st = Some stdin \<and>
             artifact_value cd (cd_elf cd) fe2 program_uri st = Some elf \<and>
             cs = [Cmd_AssignProofRequest (Req_Sp1 \<lparr>sp1_request_id = rid, sp1_elf = elf, sp1_mock = mock,
                     sp1_mode = mode, sp1_stdin = stdin\<rparr>)])) \<and>
     (case snd (run cd fe1 fe2 up mock rid program_uri stdin_uri mode st) of
        Inl _ \<Rightarrow> fst (run cd fe1 fe2 up mock rid program_uri stdin_uri mode st) = []
      | Inr _ \<Rightarrow> True)"
proof -
  let ?s = "load_artifact (cd_zstd cd) (cd_stdin cd) (StdinNotFound stdin_uri) (StdinUnreadable stdin_uri)
             (get_artifact_bytes (cd_show_uuid cd) fe1 stdin_uri (Some st))"
  let ?p = "load_artifact (cd_zstd cd) (cd_elf cd) (ProgramNotFound program_uri) (ProgramUnreadable program_uri)
             (get_artifact_bytes (cd_show_uuid cd) fe2 program_uri (Some st))"
  show ?thesis
    unfolding run_def route_sp1_proof_def
      load_artifact_Inr [symmetric, where nf = "StdinNotFound stdin_uri" and ur = "StdinUnreadable stdin_uri"
        and u = stdin_uri and de = "cd_stdin cd"]
      load_artifact_Inr [symmetric, where nf = "ProgramNotFound program_uri" and ur = "ProgramUnreadable program_uri"
        and u = program_uri and de = "cd_elf cd"]
    by (cases ?s; cases ?p) (auto simp: assign_proof_request_def)
qed

end
