(* ===== verification/Contemplant.thy ===== *)
theory Contemplant
  imports Configuration Proof_Store Rate_Model Worker_Proto Registry_Client
begin

text \<open>
  The contemplant (\<^verbatim>\<open>contemplant/src\<close>): its shared state (\<^verbatim>\<open>worker_state.rs\<close>), the handler of messages from
  the hierophant (\<^verbatim>\<open>message_handler.rs\<close>) and the three executors (\<^verbatim>\<open>proof_executor\<close>). A proof request becomes
  a \<open>task\<close>; a task advances by one \<open>phase\<close> at a time, each phase ending at an \<^verbatim>\<open>.await\<close> of the source, so that
  the tasks of several requests and the handler interleave. The proving libraries and the operating system are
  in the environment of a step. Commands to the proof store take effect when they are sent: its channel is a
  queue and every sender's commands keep their order.
\<close>

section \<open>State\<close>

datatype active_sp1_prover = Sp1_Cuda | Sp1_Cpu | Sp1_Cold

record sp1_executor =
  se_active_prover :: active_sp1_prover
  se_cuda_deaths :: u32
  se_compute_totals :: bool

record risc0_executor =
  re_backend :: prover_backend
  re_groth16_enabled :: bool
  re_compute_totals :: bool

record openvm_executor =
  ox_backend :: prover_backend
  ox_evm_enabled :: bool
  ox_child :: child
  ox_worker_deaths :: u32
  ox_compute_totals :: bool

definition MAX_CONSECUTIVE_CUDA_DEATHS :: u32 where
  "MAX_CONSECUTIVE_CUDA_DEATHS = 3"

definition MAX_CONSECUTIVE_WORKER_DEATHS :: u32 where
  "MAX_CONSECUTIVE_WORKER_DEATHS = 3"

definition backend_permanently_dead :: "sp1_executor \<Rightarrow> bool" where
  "backend_permanently_dead x \<longleftrightarrow> se_cuda_deaths x \<ge> MAX_CONSECUTIVE_CUDA_DEATHS"

definition worker_permanently_dead :: "openvm_executor \<Rightarrow> bool" where
  "worker_permanently_dead x \<longleftrightarrow> ox_worker_deaths x \<ge> MAX_CONSECUTIVE_WORKER_DEATHS"

text \<open>\<^verbatim>\<open>release_gpu\<close> of the three executors; RISC Zero's does nothing.\<close>

definition sp1_release_gpu :: "sp1_executor \<Rightarrow> sp1_executor" where
  "sp1_release_gpu x = (if se_active_prover x = Sp1_Cuda then x\<lparr>se_active_prover := Sp1_Cold\<rparr> else x)"

definition risc0_release_gpu :: "risc0_executor \<Rightarrow> risc0_executor" where
  "risc0_release_gpu x = x"

definition openvm_release_gpu :: "openvm_executor \<Rightarrow> openvm_executor" where
  "openvm_release_gpu x = x\<lparr>ox_child := mark_dead (ox_child x)\<rparr>"

text \<open>
  A task of a request. \<open>tk_cell\<close> and \<open>tk_bridge\<close> belong to OpenVM: the shared cell of the segment count, and the
  companion task that waits for the first count, then publishes an estimate.
\<close>

datatype bridge = Br_Wait | Br_Got u64 | Br_Publish progress_update | Br_End

datatype task_phase =
    T_Route
  | T_Insert
  | T_Executing
  | Sp_Check
  | Sp_Rewarm
  | Sp_Execute active_sp1_prover
  | Sp_Estimate active_sp1_prover u64
  | Sp_Publish active_sp1_prover u64 progress_update
  | Sp_Prove active_sp1_prover "u64 option"
  | R0_Size
  | R0_Estimate u64
  | R0_Publish u64 progress_update
  | R0_Prove "u64 option"
  | Ov_Call
  | T_Learn "u64 option" bytes rat
  | T_Proof bytes
  | T_Progress
  | T_Fail bool
  | T_Death
  | T_Respawn
  | T_Alive
  | T_End
  | T_Panicked

record 's task =
  tk_req :: "'s contemplant_proof_request"
  tk_phase :: task_phase
  tk_cell :: u64
  tk_bridge :: bridge

text \<open>
  \<open>ct_reconnect\<close> is the permit of \<^verbatim>\<open>reconnect: Notify\<close>; \<open>ct_out\<close> the messages handed to the response channel;
  \<open>ct_exit\<close> those handed to the exit channel; \<open>ct_tasks\<close> every task, finished ones included.
\<close>

record 's contemplant =
  ct_sp1 :: "sp1_executor option"
  ct_risc0 :: "risc0_executor option"
  ct_openvm :: "openvm_executor option"
  ct_store :: "proof_store option"
  ct_ready :: bool
  ct_instance_nonce :: u64
  ct_reconnect :: bool
  ct_rate_model :: rate_model
  ct_resident_vm :: "vm_kind option"
  ct_out :: "from_contemplant_message list"
  ct_exit :: "string list"
  ct_tasks :: "'s task list"

section \<open>Start-up\<close>

text \<open>\<open>None\<close> is the panic on a configured \<^verbatim>\<open>moongate_endpoint\<close>.\<close>

definition build_sp1_active :: "prover_backend \<Rightarrow> string option \<Rightarrow> active_sp1_prover option" where
  "build_sp1_active backend moongate_endpoint = (case backend of
       Backend_Cuda \<Rightarrow> (case moongate_endpoint of Some _ \<Rightarrow> None | None \<Rightarrow> Some Sp1_Cuda)
     | Backend_Cpu \<Rightarrow> Some Sp1_Cpu)"

definition openvm_executor_new :: "io_error option \<Rightarrow> prover_backend \<Rightarrow> bool \<Rightarrow> bool \<Rightarrow> openvm_executor" where
  "openvm_executor_new spawn_error backend evm totals =
     \<lparr>ox_backend = backend, ox_evm_enabled = evm,
      ox_child = snd (ensure_running (Inr False) spawn_error NotSpawned),
      ox_worker_deaths = 0, ox_compute_totals = totals\<rparr>"

type_synonym executors = "sp1_executor option \<times> risc0_executor option \<times> openvm_executor option"

fun build_executors ::
    "io_error option \<Rightarrow> bool \<Rightarrow> prover_config list \<Rightarrow> executors \<Rightarrow> executors option" where
  "build_executors spawn_error totals [] x = Some x"
| "build_executors spawn_error totals (p # ps) (sp, r0, ov) = (case pc_vm p of
       Choice_Sp1 \<Rightarrow> (case build_sp1_active (pc_backend p) (pc_moongate_endpoint p) of
           None \<Rightarrow> None
         | Some a \<Rightarrow> build_executors spawn_error totals ps
             (Some \<lparr>se_active_prover = a, se_cuda_deaths = 0, se_compute_totals = totals\<rparr>, r0, ov))
     | Choice_Risc0 \<Rightarrow> build_executors spawn_error totals ps
         (sp, Some \<lparr>re_backend = pc_backend p, re_groth16_enabled = pc_groth16_enabled p,
                    re_compute_totals = totals\<rparr>, ov)
     | Choice_OpenVm \<Rightarrow> build_executors spawn_error totals ps
         (sp, r0, Some (openvm_executor_new spawn_error (pc_backend p) (pc_evm_enabled p) totals)))"

definition instance_nonce :: "u64 \<Rightarrow> u32 \<Rightarrow> u64" where
  "instance_nonce nanos pid = Bit_Operations.xor nanos (push_bit 32 (ucast pid))"

definition contemplant_new :: "io_error option \<Rightarrow> u64 \<Rightarrow> contemplant_config \<Rightarrow> 's contemplant option" where
  "contemplant_new spawn_error nonce cfg =
     (case build_executors spawn_error (cc_compute_proof_totals cfg) (cc_provers cfg) (None, None, None) of
        None \<Rightarrow> None
      | Some (sp, r0, ov) \<Rightarrow> (case proof_store_new (cc_max_proofs_stored cfg) of
            None \<Rightarrow> None
          | Some st \<Rightarrow> Some
              \<lparr>ct_sp1 = sp, ct_risc0 = r0, ct_openvm = ov, ct_store = Some st, ct_ready = False,
               ct_instance_nonce = nonce, ct_reconnect = False, ct_rate_model = rate_model_new,
               ct_resident_vm = None, ct_out = [], ct_exit = [], ct_tasks = []\<rparr>))"

definition supported_vms :: "'s contemplant \<Rightarrow> vm_kind list" where
  "supported_vms s =
     (case ct_sp1 s of Some x \<Rightarrow> (if \<not> backend_permanently_dead x then [Vm_Sp1] else []) | None \<Rightarrow> []) @
     (if ct_risc0 s \<noteq> None then [Vm_Risc0] else []) @
     (case ct_openvm s of Some x \<Rightarrow> (if \<not> worker_permanently_dead x then [Vm_OpenVm] else []) | None \<Rightarrow> [])"

definition groth16_enabled :: "'s contemplant \<Rightarrow> bool" where
  "groth16_enabled s = (case ct_risc0 s of Some x \<Rightarrow> re_groth16_enabled x | None \<Rightarrow> False)"

definition openvm_evm_enabled :: "'s contemplant \<Rightarrow> bool" where
  "openvm_evm_enabled s = (case ct_openvm s of Some x \<Rightarrow> ox_evm_enabled x | None \<Rightarrow> False)"

section \<open>Execution of a request\<close>

text \<open>
  What a step sees: the elapsed seconds of the task, the text of ids, the answers of the SP1 and RISC Zero
  libraries, and for OpenVM what \<^verbatim>\<open>call_blocking\<close> meets (\<open>te_join_ok\<close>: the blocking thread did not panic).
  \<open>Inl\<close> values of the libraries are error texts. The SP1 library runs inside the task itself: \<open>None\<close> is its
  panic, and \<open>te_sp1_builds\<close> says that it constructs a prover without one.
\<close>

datatype sp1_prover_used = Use_Mock | Use_Cpu | Use_Cuda

record 's task_env =
  te_elapsed :: rat
  te_show_id :: "b256 \<Rightarrow> string"
  te_sp1_builds :: bool
  te_sp1_execute :: "active_sp1_prover \<Rightarrow> bytes \<Rightarrow> 's \<Rightarrow> (string + u64) option"
  te_sp1_prove :: "sp1_prover_used \<Rightarrow> bytes \<Rightarrow> 's \<Rightarrow> proof_mode \<Rightarrow> (string + bytes) option"
  te_r0_segments :: "bytes \<Rightarrow> bytes \<Rightarrow> string + u64"
  te_r0_prove :: "bytes \<Rightarrow> bytes \<Rightarrow> risc0_proof_mode \<Rightarrow> string + bytes"
  te_r0_compress :: "risc0_proof_mode \<Rightarrow> bytes \<Rightarrow> string + bytes"
  te_join_ok :: bool
  te_wait :: "io_error + bool"
  te_spawn_error :: "io_error option"
  te_call_start :: nat
  te_attempts :: "worker_request \<Rightarrow> attempt list"

definition store_cmd :: "proof_store_command \<Rightarrow> 's contemplant \<Rightarrow> 's contemplant" where
  "store_cmd c s = s\<lparr>ct_store := Option.bind (ct_store s) (proof_store_handle c)\<rparr>"

text \<open>\<^verbatim>\<open>str::contains\<close>, and the signature of a dead \<^verbatim>\<open>sp1-gpu-server\<close>.\<close>

definition str_contains :: "string \<Rightarrow> string \<Rightarrow> bool" where
  "str_contains pat s \<longleftrightarrow> list_ex (\<lambda>i. take (length pat) (drop i s) = pat) [0..<Suc (length s)]"

definition is_cuda_backend_death :: "string \<Rightarrow> bool" where
  "is_cuda_backend_death msg \<longleftrightarrow>
     str_contains ''CudaClientError'' msg \<and>
     (str_contains ''early eof'' msg \<or> str_contains ''Broken pipe'' msg \<or> str_contains ''UnexpectedEof'' msg \<or>
      str_contains ''Connection refused'' msg \<or> str_contains ''Failed to write the request'' msg \<or>
      str_contains ''Failed to read the response'' msg)"

definition round_u32 :: "rat \<Rightarrow> nat" where
  "round_u32 x = nat (min (2 ^ 32 - 1) \<lfloor>x + 1 / 2\<rfloor>)"

definition sp1_error_msg :: "'s task_env \<Rightarrow> 's sp1_proof_request \<Rightarrow> string \<Rightarrow> string" where
  "sp1_error_msg e r err =
     ''Error proving SP1 '' @ proof_mode_name (sp1_mode r) @ '' proof with request id '' @
       te_show_id e (sp1_request_id r) @ '' at minute '' @ show_nat (round_u32 (f64 (te_elapsed e / 60))) @ '': '' @ err"

text \<open>The residency switch at the top of \<^verbatim>\<open>execute_proof\<close>.\<close>

definition switch_resident :: "vm_kind \<Rightarrow> 's contemplant \<Rightarrow> 's contemplant" where
  "switch_resident vm s =
     (let s1 = (case ct_resident_vm s of
            None \<Rightarrow> s
          | Some current \<Rightarrow>
              (if current = vm then s
               else (case current of
                       Vm_Sp1 \<Rightarrow> s\<lparr>ct_sp1 := map_option sp1_release_gpu (ct_sp1 s)\<rparr>
                     | Vm_Risc0 \<Rightarrow> s\<lparr>ct_risc0 := map_option risc0_release_gpu (ct_risc0 s)\<rparr>
                     | Vm_OpenVm \<Rightarrow> s\<lparr>ct_openvm := map_option openvm_release_gpu (ct_openvm s)\<rparr>)))
      in s1\<lparr>ct_resident_vm := Some vm\<rparr>)"

definition has_executor :: "vm_kind \<Rightarrow> 's contemplant \<Rightarrow> bool" where
  "has_executor vm s = (case vm of
       Vm_Sp1 \<Rightarrow> ct_sp1 s \<noteq> None | Vm_Risc0 \<Rightarrow> ct_risc0 s \<noteq> None | Vm_OpenVm \<Rightarrow> ct_openvm s \<noteq> None)"

definition vm_title :: "vm_kind \<Rightarrow> string" where
  "vm_title vm = (case vm of Vm_Sp1 \<Rightarrow> ''SP1'' | Vm_Risc0 \<Rightarrow> ''RISC Zero'' | Vm_OpenVm \<Rightarrow> ''OpenVM'')"

definition unserved_msg :: "'s task_env \<Rightarrow> 's contemplant_proof_request \<Rightarrow> string" where
  "unserved_msg e r =
     ''Received '' @ vm_title (request_vm r) @ '' proof request '' @ te_show_id e (request_id r) @
       '' but this contemplant does not serve '' @ vm_title (request_vm r)"

definition progress_estimate :: "vm_kind \<Rightarrow> string \<Rightarrow> u64 \<Rightarrow> 's contemplant \<Rightarrow> progress_update" where
  "progress_estimate vm mode c s = (case rate_estimate_secs vm mode c (ct_rate_model s) of
       Some est \<Rightarrow> proving c (of_nat est)
     | None \<Rightarrow> no_history)"

text \<open>
  The phases common to the executors. The first three run in the handler, the others in the spawned task;
  \<open>first\<close> is the first phase of the machine's own part.
\<close>

definition task_insert :: "b256 \<Rightarrow> 's contemplant \<Rightarrow> task_phase \<times> 's contemplant" where
  "task_insert rid s = (T_Executing, store_cmd (InsertProof rid cps_unexecuted) s)"

definition task_executing :: "task_phase \<Rightarrow> b256 \<Rightarrow> 's contemplant \<Rightarrow> task_phase \<times> 's contemplant" where
  "task_executing first rid s = (first, store_cmd (ProofProgressUpdate rid executing) s)"

definition task_learn ::
    "vm_kind \<Rightarrow> string \<Rightarrow> u64 option \<Rightarrow> bytes \<Rightarrow> rat \<Rightarrow> 's contemplant \<Rightarrow> task_phase \<times> 's contemplant" where
  "task_learn vm mode c bs el s =
     (T_Proof bs,
      case c of
        None \<Rightarrow> s
      | Some n \<Rightarrow> s\<lparr>ct_rate_model := rate_record vm mode n el (ct_rate_model s)\<rparr>)"

definition task_proof :: "b256 \<Rightarrow> bytes \<Rightarrow> 's contemplant \<Rightarrow> task_phase \<times> 's contemplant" where
  "task_proof rid bs s =
     (T_Progress, store_cmd (ProofStatusUpdate rid (execution_status_i32 Executed) (Some bs)) s)"

definition task_progress :: "b256 \<Rightarrow> 's contemplant \<Rightarrow> task_phase \<times> 's contemplant" where
  "task_progress rid s = (T_End, store_cmd (ProofProgressUpdate rid Done) s)"

definition task_fail :: "b256 \<Rightarrow> task_phase \<Rightarrow> 's contemplant \<Rightarrow> task_phase \<times> 's contemplant" where
  "task_fail rid nxt s =
     (nxt, store_cmd (ProofStatusUpdate rid (execution_status_i32 Unexecutable) None) s)"

text \<open>\<^verbatim>\<open>sp1_executor::execute\<close>.\<close>

definition sp1_prove_call ::
    "'s task_env \<Rightarrow> 's sp1_proof_request \<Rightarrow> active_sp1_prover \<Rightarrow> (string + bytes) option" where
  "sp1_prove_call e r active =
     (if sp1_mode r = UnspecifiedProofMode then Some (Inl ''UnspecifiedProofMode'')
      else if sp1_mock r then te_sp1_prove e Use_Mock (sp1_elf r) (sp1_stdin r) (sp1_mode r)
      else (case active of
              Sp1_Cpu \<Rightarrow> te_sp1_prove e Use_Cpu (sp1_elf r) (sp1_stdin r) (sp1_mode r)
            | Sp1_Cuda \<Rightarrow> te_sp1_prove e Use_Cuda (sp1_elf r) (sp1_stdin r) (sp1_mode r)
            | Sp1_Cold \<Rightarrow> None))"

text \<open>
  The task copies the prover handle in the poll that finds the prover warm or stores the rebuilt one: the locks
  are not held across an await, and all tasks share one current-thread runtime, so nothing runs in between.
\<close>

definition sp1_cloned :: "'s sp1_proof_request \<Rightarrow> sp1_executor \<Rightarrow> task_phase" where
  "sp1_cloned r x =
     (if \<not> sp1_mock r \<and> se_compute_totals x then Sp_Execute (se_active_prover x)
      else Sp_Prove (se_active_prover x) None)"

definition sp1_rebuild :: "'s task_env \<Rightarrow> active_sp1_prover option" where
  "sp1_rebuild e = (if te_sp1_builds e then build_sp1_active Backend_Cuda None else None)"

definition sp1_mod :: "(sp1_executor \<Rightarrow> sp1_executor) \<Rightarrow> 's contemplant \<Rightarrow> 's contemplant" where
  "sp1_mod f s = s\<lparr>ct_sp1 := map_option f (ct_sp1 s)\<rparr>"

definition openvm_mod :: "(openvm_executor \<Rightarrow> openvm_executor) \<Rightarrow> 's contemplant \<Rightarrow> 's contemplant" where
  "openvm_mod f s = s\<lparr>ct_openvm := map_option f (ct_openvm s)\<rparr>"

definition sp1_step ::
    "'s task_env \<Rightarrow> 's sp1_proof_request \<Rightarrow> sp1_executor \<Rightarrow> task_phase \<Rightarrow> 's contemplant \<Rightarrow> task_phase \<times> 's contemplant" where
  "sp1_step e r x p s = (case p of
       Sp_Check \<Rightarrow> (if \<not> sp1_mock r \<and> se_active_prover x = Sp1_Cold then Sp_Rewarm else sp1_cloned r x, s)
     | Sp_Rewarm \<Rightarrow>
         (case sp1_rebuild e of
           None \<Rightarrow> (T_Panicked, s)
         | Some a \<Rightarrow> (sp1_cloned r (x\<lparr>se_active_prover := a\<rparr>), sp1_mod (\<lambda>x. x\<lparr>se_active_prover := a\<rparr>) s))
     | Sp_Execute active \<Rightarrow>
         (if active = Sp1_Cold then (T_Panicked, s)
          else (case te_sp1_execute e active (sp1_elf r) (sp1_stdin r) of
                  None \<Rightarrow> (T_Panicked, s)
                | Some (Inr c) \<Rightarrow> (Sp_Estimate active c, s)
                | Some (Inl _) \<Rightarrow> (Sp_Prove active None, s)))
     | Sp_Estimate active c \<Rightarrow> (Sp_Publish active c (progress_estimate Vm_Sp1 (proof_mode_name (sp1_mode r)) c s), s)
     | Sp_Publish active c u \<Rightarrow> (Sp_Prove active (Some c), store_cmd (ProofProgressUpdate (sp1_request_id r) u) s)
     | Sp_Prove active c \<Rightarrow>
         (case sp1_prove_call e r active of
           None \<Rightarrow> (T_Panicked, s)
         | Some (Inr bs) \<Rightarrow> (T_Learn c bs (te_elapsed e), sp1_mod (\<lambda>x. x\<lparr>se_cuda_deaths := 0\<rparr>) s)
         | Some (Inl err) \<Rightarrow>
             (T_Fail (is_cuda_backend_death (sp1_error_msg e r err) \<and> active = Sp1_Cuda), s))
     | T_Fail death \<Rightarrow> task_fail (sp1_request_id r) (if death then T_Death else T_End) s
     | T_Death \<Rightarrow>
         (let deaths = se_cuda_deaths x + 1; s1 = sp1_mod (\<lambda>x. x\<lparr>se_cuda_deaths := deaths\<rparr>) s in
          if deaths < MAX_CONSECUTIVE_CUDA_DEATHS then (T_Respawn, s1) else (T_End, s1\<lparr>ct_reconnect := True\<rparr>))
     | T_Respawn \<Rightarrow>
         (case sp1_rebuild e of
           None \<Rightarrow> (T_Panicked, s)
         | Some a \<Rightarrow> (T_End, sp1_mod (\<lambda>x. x\<lparr>se_active_prover := a\<rparr>) s))
     | _ \<Rightarrow> (p, s))"

text \<open>\<^verbatim>\<open>risc0_executor::execute\<close>.\<close>

definition risc0_disabled_msg :: string where
  "risc0_disabled_msg = ''Groth16 proofs are not enabled on this contemplant.''"

definition risc0_prove_call :: "'s task_env \<Rightarrow> risc0_executor \<Rightarrow> risc0_proof_request \<Rightarrow> string + bytes" where
  "risc0_prove_call e x r =
     (if \<not> te_join_ok e then Inl ''RISC Zero prover join error''
      else if r0_mode r = R_Groth16 \<and> \<not> re_groth16_enabled x then Inl risc0_disabled_msg
      else (case r0_wrap_of r of
              Some source \<Rightarrow> te_r0_compress e (r0_mode r) source
            | None \<Rightarrow> te_r0_prove e (r0_elf r) (r0_input r) (r0_mode r)))"

definition risc0_step ::
    "'s task_env \<Rightarrow> risc0_proof_request \<Rightarrow> risc0_executor \<Rightarrow> task_phase \<Rightarrow> 's contemplant \<Rightarrow> task_phase \<times> 's contemplant" where
  "risc0_step e r x p s = (case p of
       R0_Size \<Rightarrow>
         (if re_compute_totals x \<and> r0_wrap_of r = None \<and> te_join_ok e
          then (case te_r0_segments e (r0_elf r) (r0_input r) of
                  Inr n \<Rightarrow> (R0_Estimate n, s)
                | Inl _ \<Rightarrow> (R0_Prove None, s))
          else (R0_Prove None, s))
     | R0_Estimate n \<Rightarrow> (R0_Publish n (progress_estimate Vm_Risc0 (risc0_mode_as_str (r0_mode r)) n s), s)
     | R0_Publish n u \<Rightarrow> (R0_Prove (Some n), store_cmd (ProofProgressUpdate (r0_request_id r) u) s)
     | R0_Prove n \<Rightarrow>
         (case risc0_prove_call e x r of
           Inr bs \<Rightarrow> (T_Learn n bs (te_elapsed e), s)
         | Inl _ \<Rightarrow> (T_Fail False, s))
     | T_Fail _ \<Rightarrow> task_fail (r0_request_id r) T_End s
     | _ \<Rightarrow> (p, s))"

text \<open>
  \<^verbatim>\<open>openvm_executor::execute\<close>. The call to the worker process is one phase; while it runs, the companion task
  receives the segment count. \<open>None\<close>: the call is still retrying.
\<close>

definition executor_proto_mode :: "openvm_proof_mode \<Rightarrow> worker_proof_mode" where
  "executor_proto_mode m = (case m of O_App \<Rightarrow> W_App | O_Stark \<Rightarrow> W_Stark | O_Evm \<Rightarrow> W_Evm)"

definition prove_request :: "'s task_env \<Rightarrow> openvm_executor \<Rightarrow> openvm_proof_request \<Rightarrow> worker_request" where
  "prove_request e x r =
     Prove (te_show_id e (ovm_request_id r)) (executor_proto_mode (ovm_mode r)) (ovm_elf r)
       (ovm_app_config_toml r) (ovm_input r) (ox_compute_totals x)"

text \<open>The proof, or whether the failure was one of the transport.\<close>

definition openvm_outcome :: "io_error + worker_response \<Rightarrow> bool + bytes" where
  "openvm_outcome res = (case res of
       Inr (ProofResponse bs) \<Rightarrow> Inr bs
     | Inr _ \<Rightarrow> Inl False
     | Inl _ \<Rightarrow> Inl True)"

definition openvm_step ::
    "'s task_env \<Rightarrow> openvm_proof_request \<Rightarrow> openvm_executor \<Rightarrow> u64 \<Rightarrow> task_phase \<Rightarrow> 's contemplant \<Rightarrow>
     task_phase \<times> 's contemplant" where
  "openvm_step e r x cell p s = (case p of
       Ov_Call \<Rightarrow>
         (if \<not> te_join_ok e then (T_Fail False, s)
          else (case call_blocking (te_wait e) (te_spawn_error e) (te_call_start e)
                       (te_attempts e (prove_request e x r)) (ox_child x) of
                  None \<Rightarrow> (Ov_Call, s)
                | Some (res, c) \<Rightarrow>
                    (let s1 = openvm_mod (\<lambda>x. x\<lparr>ox_child := c\<rparr>) s in
                     case openvm_outcome res of
                       Inr bs \<Rightarrow> (T_Learn (if cell > 0 then Some cell else None) bs (te_elapsed e),
                                  openvm_mod (\<lambda>x. x\<lparr>ox_worker_deaths := 0\<rparr>) s1)
                     | Inl transport_death \<Rightarrow> (T_Fail transport_death, s1))))
     | T_Fail transport_death \<Rightarrow> task_fail (ovm_request_id r) (if transport_death then T_Death else T_Alive) s
     | T_Death \<Rightarrow>
         (let responded = (\<not> worker_permanently_dead x);
              deaths = ox_worker_deaths x + 1;
              s1 = openvm_mod (\<lambda>x. x\<lparr>ox_worker_deaths := deaths\<rparr>) s
          in (T_End, if deaths < MAX_CONSECUTIVE_WORKER_DEATHS then s1
                     else if responded then s1\<lparr>ct_reconnect := True\<rparr> else s1))
     | T_Alive \<Rightarrow> (T_End, openvm_mod (\<lambda>x. x\<lparr>ox_worker_deaths := 0\<rparr>) s)
     | _ \<Rightarrow> (p, s))"

text \<open>One phase of a task: \<^verbatim>\<open>execute_proof\<close> and the executor it routes to.\<close>

fun first_phase :: "'s contemplant_proof_request \<Rightarrow> task_phase" where
  "first_phase (Req_Sp1 _) = Sp_Check"
| "first_phase (Req_Risc0 _) = R0_Size"
| "first_phase (Req_OpenVm _) = Ov_Call"

definition route :: "'s task_env \<Rightarrow> 's contemplant_proof_request \<Rightarrow> 's contemplant \<Rightarrow> task_phase \<times> 's contemplant" where
  "route e r s =
     (let s1 = switch_resident (request_vm r) s in
      if has_executor (request_vm r) s1 then (T_Insert, s1)
      else (T_End, s1\<lparr>ct_exit := ct_exit s1 @ [unserved_msg e r]\<rparr>))"

fun machine_step ::
    "'s task_env \<Rightarrow> 's contemplant_proof_request \<Rightarrow> u64 \<Rightarrow> task_phase \<Rightarrow> 's contemplant \<Rightarrow> task_phase \<times> 's contemplant" where
  "machine_step e (Req_Sp1 r) cell p s = (case ct_sp1 s of None \<Rightarrow> (T_End, s) | Some x \<Rightarrow> sp1_step e r x p s)"
| "machine_step e (Req_Risc0 r) cell p s = (case ct_risc0 s of None \<Rightarrow> (T_End, s) | Some x \<Rightarrow> risc0_step e r x p s)"
| "machine_step e (Req_OpenVm r) cell p s =
     (case ct_openvm s of None \<Rightarrow> (T_End, s) | Some x \<Rightarrow> openvm_step e r x cell p s)"

definition task_step ::
    "'s task_env \<Rightarrow> 's contemplant_proof_request \<Rightarrow> u64 \<Rightarrow> task_phase \<Rightarrow> 's contemplant \<Rightarrow> task_phase \<times> 's contemplant" where
  "task_step e r cell p s = (case p of
       T_Route \<Rightarrow> route e r s
     | T_Insert \<Rightarrow> task_insert (request_id r) s
     | T_Executing \<Rightarrow> task_executing (first_phase r) (request_id r) s
     | T_Learn c bs el \<Rightarrow> task_learn (request_vm r) (mode_name r) c bs el s
     | T_Proof bs \<Rightarrow> task_proof (request_id r) bs s
     | T_Progress \<Rightarrow> task_progress (request_id r) s
     | T_End \<Rightarrow> (T_End, s)
     | T_Panicked \<Rightarrow> (T_Panicked, s)
     | _ \<Rightarrow> machine_step e r cell p s)"

text \<open>The companion task of an OpenVM request.\<close>

definition bridge_step :: "'s task \<Rightarrow> 's contemplant \<Rightarrow> 's task \<times> 's contemplant" where
  "bridge_step t s = (case tk_bridge t of
       Br_Got segments \<Rightarrow>
         (t\<lparr>tk_cell := segments,
            tk_bridge := Br_Publish (progress_estimate Vm_OpenVm (mode_name (tk_req t)) segments s)\<rparr>, s)
     | Br_Publish u \<Rightarrow> (t\<lparr>tk_bridge := Br_End\<rparr>, store_cmd (ProofProgressUpdate (request_id (tk_req t)) u) s)
     | _ \<Rightarrow> (t, s))"

section \<open>Messages from the hierophant\<close>

definition get_proof_request_status :: "b256 \<Rightarrow> 's contemplant \<Rightarrow> contemplant_proof_status option" where
  "get_proof_request_status rid s = Option.bind (ct_store s) (\<lambda>st. ps_get st rid)"

definition new_task :: "'s contemplant_proof_request \<Rightarrow> 's task" where
  "new_task r = \<lparr>tk_req = r, tk_phase = T_Route, tk_cell = 0, tk_bridge = Br_Wait\<rparr>"

text \<open>\<open>resp_ok\<close>: the response channel still has its receiver.\<close>

definition handle_message_from_hierophant ::
    "(bytes \<Rightarrow> 's from_hierophant_message option) \<Rightarrow> bool \<Rightarrow> ws_message \<Rightarrow> 's contemplant \<Rightarrow>
     's contemplant \<times> control_flow" where
  "handle_message_from_hierophant de resp_ok msg s = (case msg of
       WsClose \<Rightarrow> (s, Break)
     | WsOther \<Rightarrow> (s, Continue)
     | WsBinary bs \<Rightarrow> (case de bs of
           None \<Rightarrow> (s, Continue)
         | Some (ProofRequest r) \<Rightarrow> (s\<lparr>ct_tasks := ct_tasks s @ [new_task r]\<rparr>, Continue)
         | Some (ProofStatusRequest rid) \<Rightarrow>
             (let st = get_proof_request_status rid s; s1 = store_cmd (GetProofStatus rid 0) s in
              if resp_ok then (s1\<lparr>ct_out := ct_out s1 @ [ProofStatusResponse rid st]\<rparr>, Continue)
              else (s1, Break))))"

section \<open>Interleaving\<close>

text \<open>
  A step of the process: a message arrives, a task or its companion advances, a segment count reaches the
  companion (only the first is received), a handler that is still routing is aborted with its connection, or
  the connection consumes the reconnect permit or sets the ready flag.
\<close>

datatype ct_step =
    Ct_Message ws_message
  | Ct_Task nat
  | Ct_Size nat u64
  | Ct_Bridge nat
  | Ct_Abort nat
  | Ct_Reconnected
  | Ct_Ready

definition in_handler :: "task_phase \<Rightarrow> bool" where
  "in_handler p \<longleftrightarrow> p \<in> {T_Route, T_Insert, T_Executing}"

definition set_task :: "nat \<Rightarrow> 's task \<Rightarrow> 's contemplant \<Rightarrow> 's contemplant" where
  "set_task i t s = s\<lparr>ct_tasks := (ct_tasks s)[i := t]\<rparr>"

definition advance :: "'s task_env \<Rightarrow> nat \<Rightarrow> 's contemplant \<Rightarrow> 's contemplant" where
  "advance e i s =
     (let t = ct_tasks s ! i; (p, s1) = task_step e (tk_req t) (tk_cell t) (tk_phase t) s
      in set_task i (t\<lparr>tk_phase := p\<rparr>) s1)"

record 's ct_env =
  ce_de :: "bytes \<Rightarrow> 's from_hierophant_message option"
  ce_task :: "'s task_env"

fun contemplant_step :: "'s ct_env \<Rightarrow> ct_step \<Rightarrow> 's contemplant \<Rightarrow> 's contemplant" where
  "contemplant_step e (Ct_Message m) s = fst (handle_message_from_hierophant (ce_de e) True m s)"
| "contemplant_step e (Ct_Task i) s = (if i < length (ct_tasks s) then advance (ce_task e) i s else s)"
| "contemplant_step e (Ct_Size i n) s =
     (if i < length (ct_tasks s) \<and> tk_bridge (ct_tasks s ! i) = Br_Wait \<and> tk_phase (ct_tasks s ! i) = Ov_Call
      then set_task i ((ct_tasks s ! i)\<lparr>tk_bridge := Br_Got n\<rparr>) s else s)"
| "contemplant_step e (Ct_Bridge i) s =
     (if i < length (ct_tasks s)
      then (let (t, s1) = bridge_step (ct_tasks s ! i) s in set_task i t s1) else s)"
| "contemplant_step e (Ct_Abort i) s =
     (if i < length (ct_tasks s) \<and> in_handler (tk_phase (ct_tasks s ! i))
      then set_task i ((ct_tasks s ! i)\<lparr>tk_phase := T_End\<rparr>) s else s)"
| "contemplant_step e Ct_Reconnected s = s\<lparr>ct_reconnect := False\<rparr>"
| "contemplant_step e Ct_Ready s = s\<lparr>ct_ready := True\<rparr>"

end
