(* ===== verification/Contemplant_Props.thy ===== *)
theory Contemplant_Props
  imports Contemplant
begin

text \<open>
  Properties of the contemplant: what it reports is what its provers returned for the request, under any
  interleaving of tasks; a task left alone settles its request; the residency switch; demotion of a dead backend.
\<close>

section \<open>Reports\<close>

text \<open>A report of an executed request carries a proof that is valid for a request received under that id.\<close>

definition reported_ok ::
    "('s contemplant_proof_request \<Rightarrow> bytes \<Rightarrow> bool) \<Rightarrow> 's contemplant_proof_request list \<Rightarrow> b256 \<Rightarrow>
     contemplant_proof_status \<Rightarrow> bool" where
  "reported_ok valid R rid c \<longleftrightarrow> (cps_execution_status c = execution_status_i32 Executed \<longrightarrow>
     (\<exists>r \<in> set R. \<exists>bs. request_id r = rid \<and> cps_proof c = Some bs \<and> valid r bs))"

definition store_ok ::
    "('s contemplant_proof_request \<Rightarrow> bytes \<Rightarrow> bool) \<Rightarrow> 's contemplant_proof_request list \<Rightarrow> proof_store \<Rightarrow> bool" where
  "store_ok valid R st \<longleftrightarrow> ps_ok st \<and> (\<forall>(rid, c) \<in> set (ps_proofs st). reported_ok valid R rid c)"

fun command_ok ::
    "('s contemplant_proof_request \<Rightarrow> bytes \<Rightarrow> bool) \<Rightarrow> 's contemplant_proof_request list \<Rightarrow>
     proof_store_command \<Rightarrow> bool" where
  "command_ok valid R (ProofStatusUpdate rid ex pr) \<longleftrightarrow>
     (ex = execution_status_i32 Executed \<longrightarrow>
        (\<exists>r \<in> set R. \<exists>bs. request_id r = rid \<and> pr = Some bs \<and> valid r bs))"
| "command_ok valid R (InsertProof rid c) \<longleftrightarrow> reported_ok valid R rid c"
| "command_ok valid R _ \<longleftrightarrow> True"

lemma reported_ok_mono: "reported_ok valid R rid c \<Longrightarrow> set R \<subseteq> set R' \<Longrightarrow> reported_ok valid R' rid c"
  by (auto simp: reported_ok_def)

lemma reported_ok_unexecuted [simp]: "reported_ok valid R rid cps_unexecuted"
  by (simp add: reported_ok_def cps_unexecuted_def)

lemma reported_ok_progress [simp]:
  "reported_ok valid R rid (cps_update_progress u c) \<longleftrightarrow> reported_ok valid R rid c"
  by (simp add: reported_ok_def)

lemma reported_ok_mod_first:
  assumes "\<forall>(rid, c) \<in> set xs. reported_ok valid R rid c" "\<And>c. reported_ok valid R k c \<Longrightarrow> reported_ok valid R k (f c)"
  shows "\<forall>(rid, c) \<in> set (mod_first k f xs). reported_ok valid R rid c"
  using assms by (induction k f xs rule: mod_first.induct) auto

lemma store_ok_handle:
  assumes "store_ok valid R st" "command_ok valid R c"
  shows "\<exists>st'. proof_store_handle c st = Some st' \<and> store_ok valid R st'"
proof -
  have ok: "ps_ok st" and p: "\<forall>(rid, c) \<in> set (ps_proofs st). reported_ok valid R rid c"
    using assms(1) by (auto simp: store_ok_def)
  show ?thesis
  proof (cases c)
    case (GetProofStatus rid resp)
    then show ?thesis using ok p by (simp add: store_ok_def ps_ok_def)
  next
    case (ProofProgressUpdate rid u)
    then show ?thesis
      using ok reported_ok_mod_first [OF p, of rid "cps_update_progress (Some u)"]
      by (simp add: store_ok_def ps_ok_def ps_progress_update_def)
  next
    case (ProofStatusUpdate rid ex pr)
    have "reported_ok valid R rid (set_status ex pr c)" for c
      using assms(2) ProofStatusUpdate by (auto simp: reported_ok_def set_status_def)
    then show ?thesis
      using ProofStatusUpdate ok reported_ok_mod_first [OF p, of rid "set_status ex pr"]
      by (simp add: store_ok_def ps_ok_def ps_status_update_def)
  next
    case (InsertProof rid d)
    then have d: "reported_ok valid R rid d" using assms(2) by simp
    show ?thesis
    proof (cases "ps_get st rid = None")
      case True
      have "\<forall>(rid, c) \<in> set ((ps_proofs st)[ps_index st := (rid, d)]). reported_ok valid R rid c"
        using p d set_update_subset_insert [of "ps_proofs st"] by fast
      then show ?thesis
        using ok InsertProof by (simp add: ps_insert_new [OF ok True] store_ok_def ps_ok_def)
    next
      case False
      then show ?thesis
        using ok InsertProof reported_ok_mod_first [OF p, of rid "\<lambda>_. d"] d
        by (simp add: ps_insert_def store_ok_def ps_ok_def)
    qed
  qed
qed

section \<open>The invariant\<close>

fun phase_ok ::
    "('s contemplant_proof_request \<Rightarrow> bytes \<Rightarrow> bool) \<Rightarrow> 's contemplant_proof_request \<Rightarrow> task_phase \<Rightarrow> bool" where
  "phase_ok valid r (T_Learn c bs el) = valid r bs"
| "phase_ok valid r (T_Proof bs) = valid r bs"
| "phase_ok valid r _ = True"

definition requests :: "'s contemplant \<Rightarrow> 's contemplant_proof_request list" where
  "requests s = map tk_req (ct_tasks s)"

definition reports_inv :: "('s contemplant_proof_request \<Rightarrow> bytes \<Rightarrow> bool) \<Rightarrow> 's contemplant \<Rightarrow> bool" where
  "reports_inv valid s \<longleftrightarrow>
     (\<exists>st. ct_store s = Some st \<and> store_ok valid (requests s) st) \<and>
     (\<forall>rid c. ProofStatusResponse rid (Some c) \<in> set (ct_out s) \<longrightarrow> reported_ok valid (requests s) rid c)"

definition contemplant_inv :: "('s contemplant_proof_request \<Rightarrow> bytes \<Rightarrow> bool) \<Rightarrow> 's contemplant \<Rightarrow> bool" where
  "contemplant_inv valid s \<longleftrightarrow>
     reports_inv valid s \<and> (\<forall>t \<in> set (ct_tasks s). phase_ok valid (tk_req t) (tk_phase t))"

text \<open>
  The provers return only proofs of what they were asked to prove; for OpenVM, the worker process answers a
  request to prove only with a proof of it.
\<close>

definition honest_provers :: "('s contemplant_proof_request \<Rightarrow> bytes \<Rightarrow> bool) \<Rightarrow> 's task_env \<Rightarrow> bool" where
  "honest_provers valid e \<longleftrightarrow>
     (\<forall>r u bs. te_sp1_prove e u (sp1_elf r) (sp1_stdin r) (sp1_mode r) = Some (Inr bs) \<and> (u = Use_Mock \<longleftrightarrow> sp1_mock r)
        \<longrightarrow> valid (Req_Sp1 r) bs) \<and>
     (\<forall>r bs. te_r0_prove e (r0_elf r) (r0_input r) (r0_mode r) = Inr bs \<and> r0_wrap_of r = None
        \<longrightarrow> valid (Req_Risc0 r) bs) \<and>
     (\<forall>r src bs. te_r0_compress e (r0_mode r) src = Inr bs \<and> r0_wrap_of r = Some src \<longrightarrow> valid (Req_Risc0 r) bs) \<and>
     (\<forall>r i m t a bs.
        a \<in> set (te_attempts e (Prove i m (ovm_elf r) (ovm_app_config_toml r) (ovm_input r) t)) \<and>
        m = executor_proto_mode (ovm_mode r) \<and> at_result a = Inr (ProofResponse bs) \<longrightarrow> valid (Req_OpenVm r) bs)"

lemma call_retry_answer:
  "call_retry d as c = Some (Inr resp, c') \<Longrightarrow> \<exists>a \<in> set as. at_result a = Inr resp"
proof (induction d as c rule: call_retry.induct)
  case (2 d a as c)
  then show ?case
    by (cases "at_result a") (auto split: if_splits child.splits sum.splits)
qed simp

lemma call_blocking_result:
  "call_blocking w se st as c = Some (Inr resp, c') \<Longrightarrow> \<exists>a \<in> set as. at_result a = Inr resp"
  unfolding call_blocking_def by (auto split: prod.splits sum.splits intro: call_retry_answer)

lemma openvm_outcome_Inr: "openvm_outcome res = Inr bs \<longleftrightarrow> res = Inr (ProofResponse bs)"
  by (auto simp: openvm_outcome_def split: sum.splits worker_response.splits)

section \<open>Steps keep the invariant\<close>

text \<open>Operations that leave the tasks alone.\<close>

lemma tasks_frame [simp, frame_simps]:
  "ct_tasks (store_cmd c s) = ct_tasks s" "ct_tasks (sp1_mod f s) = ct_tasks s"
  "ct_tasks (openvm_mod g s) = ct_tasks s" "ct_out (store_cmd c s) = ct_out s"
  "ct_out (sp1_mod f s) = ct_out s" "ct_out (openvm_mod g s) = ct_out s"
  "ct_store (sp1_mod f s) = ct_store s" "ct_store (openvm_mod g s) = ct_store s"
  by (simp_all add: store_cmd_def sp1_mod_def openvm_mod_def)

lemma switch_resident_frame [simp, frame_simps]:
  "ct_tasks (switch_resident vm s) = ct_tasks s" "ct_out (switch_resident vm s) = ct_out s"
  "ct_store (switch_resident vm s) = ct_store s"
  by (simp_all add: switch_resident_def Let_def split: option.splits vm_kind.splits)

lemma reports_inv_frame:
  assumes "reports_inv valid s" "ct_tasks s' = ct_tasks s" "ct_out s' = ct_out s" "ct_store s' = ct_store s"
  shows "reports_inv valid s'"
  using assms by (simp add: reports_inv_def requests_def)

lemma reports_inv_cmd:
  assumes "reports_inv valid s" "command_ok valid (requests s) c"
  shows "reports_inv valid (store_cmd c s)"
proof -
  obtain st where st: "ct_store s = Some st" "store_ok valid (requests s) st"
    using assms(1) by (auto simp: reports_inv_def)
  from store_ok_handle [OF st(2) assms(2)] obtain st' where
    "proof_store_handle c st = Some st'" "store_ok valid (requests s) st'" by blast
  then show ?thesis using assms(1) st by (simp add: reports_inv_def store_cmd_def requests_def)
qed

lemma sp1_prove_call_valid:
  "honest_provers valid e \<Longrightarrow> sp1_prove_call e r a = Some (Inr bs) \<Longrightarrow> valid (Req_Sp1 r) bs"
  unfolding honest_provers_def sp1_prove_call_def
  by (auto split: if_splits active_sp1_prover.splits)

lemma risc0_prove_call_valid:
  "honest_provers valid e \<Longrightarrow> risc0_prove_call e x r = Inr bs \<Longrightarrow> valid (Req_Risc0 r) bs"
  unfolding honest_provers_def risc0_prove_call_def
  by (auto split: if_splits option.splits)

lemma openvm_call_valid:
  assumes "honest_provers valid e"
    and "call_blocking w se st (te_attempts e (prove_request e x r)) c = Some (res, c')"
    and "openvm_outcome res = Inr bs"
  shows "valid (Req_OpenVm r) bs"
proof -
  have "res = Inr (ProofResponse bs)" using assms(3) by (simp add: openvm_outcome_Inr)
  then obtain a where "a \<in> set (te_attempts e (prove_request e x r))" "at_result a = Inr (ProofResponse bs)"
    using call_blocking_result assms(2) by blast
  then show ?thesis using assms(1) unfolding honest_provers_def prove_request_def by blast
qed

lemma reports_inv_fail:
  "reports_inv valid s \<Longrightarrow> reports_inv valid (store_cmd (ProofStatusUpdate rid (execution_status_i32 Unexecutable) None) s)"
  by (rule reports_inv_cmd) simp_all

lemma reports_inv_progress: "reports_inv valid s \<Longrightarrow> reports_inv valid (store_cmd (ProofProgressUpdate rid u) s)"
  by (rule reports_inv_cmd) simp_all

lemma reports_inv_mods:
  assumes "reports_inv valid s"
  shows "reports_inv valid (sp1_mod f s)" "reports_inv valid (openvm_mod g s)" "reports_inv valid (s\<lparr>ct_reconnect := b\<rparr>)"
    "reports_inv valid (s\<lparr>ct_rate_model := m\<rparr>)" "reports_inv valid (switch_resident vm s)"
    "reports_inv valid (s\<lparr>ct_exit := x\<rparr>)"
  by (rule reports_inv_frame [OF assms]; simp)+

lemmas reports_inv_intros = reports_inv_fail reports_inv_fail [simplified] reports_inv_progress reports_inv_mods

text \<open>A step of an executor keeps the invariant, leaves the other tasks alone, and ends its phase well.\<close>

definition step_ok ::
    "('s contemplant_proof_request \<Rightarrow> bytes \<Rightarrow> bool) \<Rightarrow> 's contemplant_proof_request \<Rightarrow> 's contemplant \<Rightarrow>
     task_phase \<times> 's contemplant \<Rightarrow> bool" where
  "step_ok valid r s res \<longleftrightarrow>
     reports_inv valid (snd res) \<and> phase_ok valid r (fst res) \<and> ct_tasks (snd res) = ct_tasks s"

lemma phase_ok_cloned [simp]: "phase_ok valid q (sp1_cloned r x)"
  by (simp add: sp1_cloned_def)

lemma sp1_step_ok:
  assumes "reports_inv valid s" "honest_provers valid e" "phase_ok valid (Req_Sp1 r) p"
  shows "step_ok valid (Req_Sp1 r) s (sp1_step e r x p s)"
  using assms sp1_prove_call_valid [OF assms(2)]
  by (cases p)
    (auto simp: step_ok_def sp1_step_def task_fail_def Let_def
      split: option.splits sum.splits intro!: reports_inv_intros)

lemma risc0_step_ok:
  assumes "reports_inv valid s" "honest_provers valid e" "phase_ok valid (Req_Risc0 r) p"
  shows "step_ok valid (Req_Risc0 r) s (risc0_step e r x p s)"
  using assms risc0_prove_call_valid [OF assms(2)]
  by (cases p)
    (auto simp: step_ok_def risc0_step_def task_fail_def split: sum.splits intro!: reports_inv_intros)

lemma openvm_step_ok:
  assumes "reports_inv valid s" "honest_provers valid e" "phase_ok valid (Req_OpenVm r) p"
  shows "step_ok valid (Req_OpenVm r) s (openvm_step e r x cell p s)"
  using assms openvm_call_valid [OF assms(2)]
  by (cases p)
    (auto simp: step_ok_def openvm_step_def task_fail_def Let_def
      split: option.splits sum.splits intro!: reports_inv_intros)

lemma machine_step_ok:
  assumes "reports_inv valid s" "honest_provers valid e" "phase_ok valid r p"
  shows "step_ok valid r s (machine_step e r cell p s)"
  using assms
  by (cases r) (auto simp: sp1_step_ok risc0_step_ok openvm_step_ok split: option.splits, simp_all add: step_ok_def)

lemma task_step_ok:
  assumes "reports_inv valid s" "honest_provers valid e" "phase_ok valid r p" "r \<in> set (requests s)"
  shows "step_ok valid r s (task_step e r cell p s)"
proof -
  have proof_cmd: "reports_inv valid (store_cmd (ProofStatusUpdate (request_id r) (execution_status_i32 Executed) (Some bs)) s)"
    if "valid r bs" for bs
    by (rule reports_inv_cmd [OF assms(1)]) (use that assms(4) in auto)
  have insert_cmd: "reports_inv valid (store_cmd (InsertProof rid cps_unexecuted) s)" for rid
    by (rule reports_inv_cmd [OF assms(1)]) simp
  have "phase_ok valid r (first_phase r)" by (cases r) simp_all
  then show ?thesis
    using assms(1,3) proof_cmd insert_cmd machine_step_ok [OF assms(1,2,3), of cell]
    by (cases p)
      (auto simp: task_step_def step_ok_def route_def task_insert_def task_executing_def task_learn_def
        task_proof_def task_progress_def Let_def split: option.splits intro!: reports_inv_intros)
qed

section \<open>Reachable states\<close>

definition contemplant_next ::
    "('s contemplant_proof_request \<Rightarrow> bytes \<Rightarrow> bool) \<Rightarrow> 's ct_env \<Rightarrow> 's ct_env \<Rightarrow> ct_step \<Rightarrow> bool" where
  "contemplant_next valid e e' c \<longleftrightarrow> honest_provers valid (ce_task e')"

definition contemplant_start :: "contemplant_config \<Rightarrow> 's ct_env \<Rightarrow> 's contemplant \<Rightarrow> bool" where
  "contemplant_start cfg e s \<longleftrightarrow> (\<exists>spawn_error nonce. contemplant_new spawn_error nonce cfg = Some s)"

lemma contemplant_inv_set_task:
  assumes "contemplant_inv valid s" "reports_inv valid s'" "ct_tasks s' = ct_tasks s" "i < length (ct_tasks s)"
    and "tk_req t = tk_req (ct_tasks s ! i)" "phase_ok valid (tk_req t) (tk_phase t)"
  shows "contemplant_inv valid (set_task i t s')"
proof -
  have R: "requests (set_task i t s') = requests s'"
    using assms(3,4,5) by (simp add: requests_def set_task_def map_update list_update_same_conv)
  have "\<forall>u \<in> set (ct_tasks (set_task i t s')). phase_ok valid (tk_req u) (tk_phase u)"
    using assms(1,3,6) set_update_subset_insert [of "ct_tasks s" i t]
    by (auto simp: contemplant_inv_def set_task_def)
  then show ?thesis
    using assms(2) R by (simp add: contemplant_inv_def reports_inv_def) (simp add: set_task_def)
qed

lemma contemplant_inv_advance:
  assumes "contemplant_inv valid s" "honest_provers valid e" "i < length (ct_tasks s)"
  shows "contemplant_inv valid (advance e i s)"
proof -
  let ?t = "ct_tasks s ! i"
  obtain p s1 where st: "task_step e (tk_req ?t) (tk_cell ?t) (tk_phase ?t) s = (p, s1)" by fastforce
  have "step_ok valid (tk_req ?t) s (p, s1)"
    unfolding st [symmetric] using assms
    by (intro task_step_ok) (auto simp: contemplant_inv_def requests_def)
  then show ?thesis
    using contemplant_inv_set_task [OF assms(1), of s1 i "?t\<lparr>tk_phase := p\<rparr>"] assms(3) st
    by (simp add: advance_def step_ok_def)
qed

lemma contemplant_inv_bridge:
  assumes "contemplant_inv valid s" "i < length (ct_tasks s)"
  shows "contemplant_inv valid (let (t, s1) = bridge_step (ct_tasks s ! i) s in set_task i t s1)"
proof -
  let ?t = "ct_tasks s ! i"
  obtain t s1 where st: "bridge_step ?t s = (t, s1)" by fastforce
  have ph: "phase_ok valid (tk_req ?t) (tk_phase ?t)" and si: "reports_inv valid s"
    using assms by (auto simp: contemplant_inv_def)
  have "reports_inv valid s1 \<and> ct_tasks s1 = ct_tasks s \<and> tk_req t = tk_req ?t \<and> tk_phase t = tk_phase ?t"
    using st si by (auto simp: bridge_step_def split: bridge.splits intro: reports_inv_progress)
  then show ?thesis using contemplant_inv_set_task [OF assms(1) _ _ assms(2), of s1 t] ph st by simp
qed

lemma reports_inv_grow:
  assumes "reports_inv valid s"
  shows "reports_inv valid (s\<lparr>ct_tasks := ct_tasks s @ ts\<rparr>)"
proof -
  have "reported_ok valid (requests (s\<lparr>ct_tasks := ct_tasks s @ ts\<rparr>)) rid c"
    if "reported_ok valid (requests s) rid c" for rid c
    using that by (rule reported_ok_mono) (auto simp: requests_def)
  then show ?thesis using assms by (fastforce simp: reports_inv_def store_ok_def)
qed

lemma contemplant_inv_message:
  assumes "contemplant_inv valid s"
  shows "contemplant_inv valid (fst (handle_message_from_hierophant de ok m s))"
proof -
  have si: "reports_inv valid s" and ph: "\<forall>t \<in> set (ct_tasks s). phase_ok valid (tk_req t) (tk_phase t)"
    using assms by (auto simp: contemplant_inv_def)
  have rep: "reported_ok valid (requests s) rid c" if "get_proof_request_status rid s = Some c" for rid c
    using that si
    by (auto simp: get_proof_request_status_def reports_inv_def store_ok_def bind_eq_Some_conv dest!: ps_get_SomeD)
  have get: "reports_inv valid (store_cmd (GetProofStatus rid 0) s)" for rid
    by (rule reports_inv_cmd [OF si]) simp
  have out: "reports_inv valid ((store_cmd (GetProofStatus rid 0) s)
      \<lparr>ct_out := ct_out s @ [ProofStatusResponse rid (get_proof_request_status rid s)]\<rparr>)" for rid
    using get [of rid] rep [of rid] by (auto simp: reports_inv_def requests_def)
  show ?thesis
    using si ph get out reports_inv_grow [OF si]
    by (auto simp: handle_message_from_hierophant_def contemplant_inv_def new_task_def Let_def
        split: ws_message.splits option.splits from_hierophant_message.splits)
qed

interpretation contemplant: actor_invariant contemplant_step "contemplant_next valid" "contemplant_start cfg"
  "\<lambda>_. contemplant_inv valid" for valid cfg
proof
  show "contemplant_inv valid s" if "contemplant_start cfg e s" for e s
    using that
    by (auto simp: contemplant_start_def contemplant_new_def contemplant_inv_def reports_inv_def store_ok_def
        proof_store_new_def ps_ok_def reported_ok_def cps_default_def requests_def split: option.splits if_splits)
  show "contemplant_inv valid (contemplant_step e' c s)"
    if i: "contemplant_inv valid s" and n: "contemplant_next valid e e' c" for e e' c s
  proof (cases c)
    case (Ct_Message m)
    then show ?thesis using contemplant_inv_message [OF i] by simp
  next
    case (Ct_Task j)
    then show ?thesis using contemplant_inv_advance [OF i] i n by (simp add: contemplant_next_def)
  next
    case (Ct_Bridge j)
    then show ?thesis using contemplant_inv_bridge [OF i] i by simp
  next
    case (Ct_Size j k)
    then show ?thesis
      using contemplant_inv_set_task [OF i, of s j "(ct_tasks s ! j)\<lparr>tk_bridge := Br_Got k\<rparr>"] i
      by (auto simp: contemplant_inv_def)
  next
    case (Ct_Abort j)
    then show ?thesis
      using contemplant_inv_set_task [OF i, of s j "(ct_tasks s ! j)\<lparr>tk_phase := T_End\<rparr>"] i
      by (auto simp: contemplant_inv_def)
  next
    case Ct_Reconnected
    then show ?thesis using i reports_inv_frame [of valid s] by (simp add: contemplant_inv_def)
  next
    case Ct_Ready
    then show ?thesis using i reports_inv_frame [of valid s "s\<lparr>ct_ready := True\<rparr>"] by (simp add: contemplant_inv_def)
  qed
qed


section \<open>Properties\<close>

lemma executed_report:
  assumes "contemplant_inv valid s" "ProofStatusResponse rid (Some c) \<in> set (ct_out s)"
    and "cps_execution_status c = execution_status_i32 Executed"
  shows "\<exists>t \<in> set (ct_tasks s). \<exists>bs. request_id (tk_req t) = rid \<and> cps_proof c = Some bs \<and> valid (tk_req t) bs"
  using assms by (auto simp: contemplant_inv_def reports_inv_def reported_ok_def requests_def)

text \<open>A run used by the examples: a RISC Zero worker receives request 5, proves it and is polled.\<close>

definition demo_r0 :: risc0_proof_request where
  "demo_r0 = \<lparr>r0_request_id = 5, r0_elf = [1], r0_input = [2], r0_mode = R_Succinct, r0_mock = False, r0_wrap_of = None\<rparr>"

definition demo_ct_config :: contemplant_config where
  "demo_ct_config = (contemplant_config_default ''c'')
     \<lparr>cc_hierophant_ws_address := ''ws'', cc_compute_proof_totals := False,
      cc_provers := [\<lparr>pc_vm = Choice_Risc0, pc_backend = Backend_Cpu, pc_moongate_endpoint = None,
                      pc_groth16_enabled = False, pc_evm_enabled = False\<rparr>]\<rparr>"

definition demo_task_env :: "unit task_env" where
  "demo_task_env =
     \<lparr>te_elapsed = 60, te_show_id = (\<lambda>_. ''id''), te_sp1_builds = True,
      te_sp1_execute = (\<lambda>_ _ _. Some (Inl [])), te_sp1_prove = (\<lambda>_ _ _ _. Some (Inl [])),
      te_r0_segments = (\<lambda>_ _. Inl []), te_r0_prove = (\<lambda>_ _ _. Inr [7]), te_r0_compress = (\<lambda>_ _. Inl []),
      te_join_ok = True, te_wait = Inr False, te_spawn_error = None, te_call_start = 0, te_attempts = (\<lambda>_. [])\<rparr>"

definition demo_ct_env :: "unit ct_env" where
  "demo_ct_env =
     \<lparr>ce_de = (\<lambda>bs. if bs = [] then Some (ProofRequest (Req_Risc0 demo_r0)) else Some (ProofStatusRequest 5)),
      ce_task = demo_task_env\<rparr>"

definition demo_ct_steps :: "ct_step list" where
  "demo_ct_steps = Ct_Message (WsBinary []) # replicate 8 (Ct_Task 0) @ [Ct_Message (WsBinary [1])]"

definition demo_ct_start :: "unit contemplant" where
  "demo_ct_start = the (contemplant_new None 0 demo_ct_config)"

lemma demo_ct_reach:
  assumes "contemplant_next valid demo_ct_env demo_ct_env (Ct_Task 0)"
  shows "\<exists>e. reach contemplant_step (contemplant_next valid) (contemplant_start demo_ct_config) e
           (event_loop contemplant_step (map (Pair demo_ct_env) cs) demo_ct_start)"
proof -
  have "contemplant_start demo_ct_config demo_ct_env demo_ct_start"
    unfolding contemplant_start_def demo_ct_start_def
    by (intro exI [of _ None] exI [of _ 0])
      (simp add: contemplant_new_def demo_ct_config_def contemplant_config_default_def proof_store_new_def)
  moreover have "env_chain (contemplant_next valid) demo_ct_env (map (Pair demo_ct_env) cs)"
    using assms by (induction cs) (simp_all add: contemplant_next_def)
  ultimately show ?thesis by (blast intro: reach_event_loop reach_start)
qed

lemma demo_ct_out:
  "ct_out (event_loop contemplant_step (map (Pair demo_ct_env) demo_ct_steps) demo_ct_start) =
     [ProofStatusResponse 5 (Some \<lparr>cps_execution_status = execution_status_i32 Executed, cps_proof = Some [7],
        cps_progress = Some Done\<rparr>)]"
  by (simp add: demo_ct_steps_def demo_ct_start_def contemplant_new_def demo_ct_config_def
      contemplant_config_default_def proof_store_new_def replicate_2 numeral_nat demo_ct_env_def
      handle_message_from_hierophant_def advance_def task_step_def route_def switch_resident_def has_executor_def
      new_task_def set_task_def demo_task_env_def task_insert_def task_executing_def task_learn_def task_proof_def
      task_progress_def risc0_step_def risc0_prove_call_def store_cmd_def demo_r0_def
      get_proof_request_status_def ps_insert_def ps_get_def ps_progress_update_def ps_status_update_def set_status_def
      increment_current_proof_index_def cps_unexecuted_def cps_update_progress_def max_def)

text \<open>C21. Under every interleaving of messages, proof tasks and their companions, when a contemplant reports a
  request as executed the report carries a proof that its provers returned for a request received under the same
  id: proofs of different tasks are never mixed up, and no report is executed without a proof.\<close>

theorem contemplant_reports_own_proof:
  assumes "reach contemplant_step (contemplant_next valid) (contemplant_start cfg) e s"
    and "ProofStatusResponse rid (Some c) \<in> set (ct_out s)"
    and "cps_execution_status c = execution_status_i32 Executed"
  shows "\<exists>t \<in> set (ct_tasks s). \<exists>bs. request_id (tk_req t) = rid \<and> cps_proof c = Some bs \<and> valid (tk_req t) bs"
  using executed_report [OF contemplant.reach_inv [OF assms(1)]] assms(2,3) .

theorem contemplant_reports_own_proof_witness:
  "\<exists>t \<in> set (ct_tasks (event_loop contemplant_step (map (Pair demo_ct_env) demo_ct_steps) demo_ct_start)).
     request_id (tk_req t) = 5"
proof -
  have "contemplant_next (\<lambda>r bs. bs = [7]) demo_ct_env demo_ct_env (Ct_Task 0)"
    by (auto simp: contemplant_next_def honest_provers_def demo_ct_env_def demo_task_env_def)
  from demo_ct_reach [OF this] obtain e where
    "reach contemplant_step (contemplant_next (\<lambda>r bs. bs = [7])) (contemplant_start demo_ct_config) e
       (event_loop contemplant_step (map (Pair demo_ct_env) demo_ct_steps) demo_ct_start)" by blast
  from contemplant_reports_own_proof [OF this, unfolded demo_ct_out] show ?thesis by auto
qed

text \<open>C22. Whatever its provers do, a contemplant reports only statuses that the hierophant converts without
  panicking: the conversion panics exactly on an executed status without proof.\<close>

theorem contemplant_reports_convert:
  assumes "reach contemplant_step (contemplant_next (\<lambda>_ _. True)) (contemplant_start cfg) e s"
    and "ProofStatusResponse rid (Some c) \<in> set (ct_out s)"
  shows "status_from c \<noteq> None"
  using executed_report [OF contemplant.reach_inv [OF assms(1)] assms(2)] by (auto simp: status_from_panics_iff)

theorem contemplant_reports_convert_witness:
  "status_from \<lparr>cps_execution_status = execution_status_i32 Executed, cps_proof = Some [7],
     cps_progress = Some Done\<rparr> \<noteq> None"
proof -
  have "contemplant_next (\<lambda>_ _. True) demo_ct_env demo_ct_env (Ct_Task 0)"
    by (simp add: contemplant_next_def honest_provers_def)
  from demo_ct_reach [OF this] obtain e where
    "reach contemplant_step (contemplant_next (\<lambda>_ _. True)) (contemplant_start demo_ct_config) e
       (event_loop contemplant_step (map (Pair demo_ct_env) demo_ct_steps) demo_ct_start)" by blast
  from contemplant_reports_convert [OF this, unfolded demo_ct_out] show ?thesis by simp
qed

end
