(* ===== verification/Contemplant_Tasks.thy ===== *)
theory Contemplant_Tasks
  imports Contemplant_Props
begin

text \<open>
  Single tasks of the contemplant: a task that no other task disturbs settles its request, unless the library it
  calls panics or never returns; no interleaving makes a task use a prover that has been released; the residency
  rule itself; demotion of a dead backend and what the hierophant learns of it at the next registration.
\<close>

section \<open>The store under a task\<close>

definition ps_alive :: "'s contemplant \<Rightarrow> bool" where
  "ps_alive s \<longleftrightarrow> (\<exists>st. ct_store s = Some st \<and> ps_ok st)"

lemma ps_alive_cmd: "ps_alive s \<Longrightarrow> ps_alive (store_cmd c s)"
proof -
  assume "ps_alive s"
  then obtain st where st: "ct_store s = Some st" "ps_ok st" by (auto simp: ps_alive_def)
  have "\<exists>st'. proof_store_handle c st = Some st' \<and> ps_ok st'"
  proof (cases c)
    case (InsertProof rid d)
    show ?thesis
    proof (cases "ps_get st rid = None")
      case True
      then show ?thesis using st(2) InsertProof ps_insert_new [OF st(2) True, of d] by (simp add: ps_ok_def)
    qed (use st(2) InsertProof in \<open>simp add: ps_insert_def ps_ok_def\<close>)
  qed (use st(2) in \<open>simp_all add: ps_ok_def ps_progress_update_def ps_status_update_def\<close>)
  then show ?thesis using st by (auto simp: ps_alive_def store_cmd_def)
qed

abbreviation stored :: "b256 \<Rightarrow> 's contemplant \<Rightarrow> contemplant_proof_status option" where
  "stored \<equiv> get_proof_request_status"

lemma stored_insert:
  assumes "ps_alive s"
  shows "stored rid (store_cmd (InsertProof rid c) s) = Some c"
proof -
  obtain st where st: "ct_store s = Some st" "ps_ok st" using assms by (auto simp: ps_alive_def)
  have "\<exists>st'. ps_insert rid c st = Some st' \<and> ps_get st' rid = Some c"
  proof (cases "ps_get st rid = None")
    case True
    then have "ps_index st < length (ps_proofs st)" "rid \<notin> fst ` set (ps_proofs st)"
      using st(2) by (auto simp: ps_ok_def ps_get_None)
    from find_list_update_same [OF this] ps_insert_new [OF st(2) True] show ?thesis by (simp add: ps_get_def)
  qed (auto simp: ps_insert_def ps_get_mod_first)
  then show ?thesis using st(1) by (auto simp: get_proof_request_status_def store_cmd_def)
qed

lemma stored_progress:
  "stored rid (store_cmd (ProofProgressUpdate rid u) s) = map_option (cps_update_progress (Some u)) (stored rid s)"
  by (cases "ct_store s") (simp_all add: get_proof_request_status_def store_cmd_def ps_progress_update_def ps_get_mod_first)

lemma stored_status:
  "stored rid (store_cmd (ProofStatusUpdate rid ex pr) s) = map_option (set_status ex pr) (stored rid s)"
  by (cases "ct_store s") (simp_all add: get_proof_request_status_def store_cmd_def ps_status_update_def ps_get_mod_first)

lemma stored_frame:
  "ct_store s' = ct_store s \<Longrightarrow> stored rid s' = stored rid s"
  by (simp add: get_proof_request_status_def)

section \<open>A task left alone\<close>

fun task_rank :: "task_phase \<Rightarrow> nat" where
  "task_rank T_Route = 12"
| "task_rank T_Insert = 11"
| "task_rank T_Executing = 10"
| "task_rank Sp_Check = 9"
| "task_rank Sp_Rewarm = 8"
| "task_rank (Sp_Execute _) = 7"
| "task_rank (Sp_Estimate _ _) = 6"
| "task_rank (Sp_Publish _ _ _) = 5"
| "task_rank (Sp_Prove _ _) = 4"
| "task_rank R0_Size = 7"
| "task_rank (R0_Estimate _) = 6"
| "task_rank (R0_Publish _ _) = 5"
| "task_rank (R0_Prove _) = 4"
| "task_rank Ov_Call = 4"
| "task_rank (T_Learn _ _ _) = 3"
| "task_rank (T_Proof _) = 2"
| "task_rank T_Progress = 1"
| "task_rank (T_Fail _) = 3"
| "task_rank T_Death = 2"
| "task_rank T_Respawn = 1"
| "task_rank T_Alive = 1"
| "task_rank T_End = 0"
| "task_rank T_Panicked = 0"

text \<open>The phases of one task in sequence, each with its environment and the current segment count.\<close>

fun run_task ::
    "('s task_env \<times> u64) list \<Rightarrow> 's contemplant_proof_request \<Rightarrow> task_phase \<Rightarrow> 's contemplant \<Rightarrow>
     task_phase \<times> 's contemplant" where
  "run_task [] r p s = (p, s)"
| "run_task ((e, cell) # es) r p s = (let (p', s') = task_step e r cell p s in run_task es r p' s')"

definition settled :: "b256 \<Rightarrow> 's contemplant \<Rightarrow> bool" where
  "settled rid s \<longleftrightarrow> (\<exists>c. stored rid s = Some c \<and>
     cps_execution_status c \<in> {execution_status_i32 Executed, execution_status_i32 Unexecutable})"

definition known :: "b256 \<Rightarrow> 's contemplant \<Rightarrow> bool" where
  "known rid s \<longleftrightarrow> stored rid s \<noteq> None"

definition warm :: "'s contemplant_proof_request \<Rightarrow> active_sp1_prover \<Rightarrow> bool" where
  "warm r a \<longleftrightarrow> request_vm r = Vm_Sp1 \<and> (\<not> is_mock r \<longrightarrow> a \<noteq> Sp1_Cold)"

text \<open>What holds in each phase of a task that runs alone.\<close>

definition solo :: "'s contemplant_proof_request \<Rightarrow> task_phase \<Rightarrow> 's contemplant \<Rightarrow> bool" where
  "solo r p s \<longleftrightarrow> ps_alive s \<and> has_executor (request_vm r) s \<and>
     (case p of
        T_Route \<Rightarrow> True
      | T_Insert \<Rightarrow> True
      | T_Executing \<Rightarrow> known (request_id r) s
      | Sp_Check \<Rightarrow> request_vm r = Vm_Sp1 \<and> known (request_id r) s
      | Sp_Rewarm \<Rightarrow> request_vm r = Vm_Sp1 \<and> known (request_id r) s
      | Sp_Execute a \<Rightarrow> warm r a \<and> \<not> is_mock r \<and> known (request_id r) s
      | Sp_Estimate a _ \<Rightarrow> warm r a \<and> known (request_id r) s
      | Sp_Publish a _ _ \<Rightarrow> warm r a \<and> known (request_id r) s
      | Sp_Prove a _ \<Rightarrow> warm r a \<and> known (request_id r) s
      | R0_Size \<Rightarrow> request_vm r = Vm_Risc0 \<and> known (request_id r) s
      | R0_Estimate _ \<Rightarrow> request_vm r = Vm_Risc0 \<and> known (request_id r) s
      | R0_Publish _ _ \<Rightarrow> request_vm r = Vm_Risc0 \<and> known (request_id r) s
      | R0_Prove _ \<Rightarrow> request_vm r = Vm_Risc0 \<and> known (request_id r) s
      | Ov_Call \<Rightarrow> request_vm r = Vm_OpenVm \<and> known (request_id r) s
      | T_Learn _ _ _ \<Rightarrow> known (request_id r) s
      | T_Proof _ \<Rightarrow> known (request_id r) s
      | T_Fail _ \<Rightarrow> known (request_id r) s
      | T_Progress \<Rightarrow> settled (request_id r) s
      | T_Death \<Rightarrow> request_vm r \<noteq> Vm_Risc0 \<and> settled (request_id r) s
      | T_Respawn \<Rightarrow> request_vm r = Vm_Sp1 \<and> settled (request_id r) s
      | T_Alive \<Rightarrow> request_vm r = Vm_OpenVm \<and> settled (request_id r) s
      | T_End \<Rightarrow> settled (request_id r) s
      | T_Panicked \<Rightarrow> False)"

text \<open>
  What a task may wait for or die of. The call to the OpenVM worker returns: its retries end within 241 attempts
  (\<open>Worker_Proto\<close>), but an attempt itself lasts for ever when the prover of the worker panics (\<open>Worker_Server\<close>).
  The SP1 library returns, with a result or an error, where it might panic.
\<close>

definition call_returns :: "'s task_env \<Rightarrow> bool" where
  "call_returns e \<longleftrightarrow> (\<forall>req c. call_blocking (te_wait e) (te_spawn_error e) (te_call_start e) (te_attempts e req) c \<noteq> None)"

definition sp1_returns :: "'s task_env \<Rightarrow> bool" where
  "sp1_returns e \<longleftrightarrow> te_sp1_builds e \<and> (\<forall>a elf st. te_sp1_execute e a elf st \<noteq> None) \<and>
     (\<forall>u elf st m. te_sp1_prove e u elf st m \<noteq> None)"

definition prover_returns :: "vm_kind \<Rightarrow> 's task_env \<Rightarrow> bool" where
  "prover_returns vm e = (case vm of Vm_Sp1 \<Rightarrow> sp1_returns e | Vm_Risc0 \<Rightarrow> True | Vm_OpenVm \<Rightarrow> call_returns e)"

lemma set_status_fields: "cps_execution_status (set_status ex pr c) = ex" "cps_proof (set_status ex pr c) = pr"
  by (simp_all add: set_status_def Let_def)

lemma known_settled_cmds:
  "known rid (store_cmd (ProofProgressUpdate rid u) s) \<longleftrightarrow> known rid s"
  "settled rid (store_cmd (ProofProgressUpdate rid u) s) \<longleftrightarrow> settled rid s"
  "settled rid (store_cmd (ProofStatusUpdate rid (execution_status_i32 Executed) pr) s) \<longleftrightarrow> known rid s"
  "settled rid (store_cmd (ProofStatusUpdate rid (execution_status_i32 Unexecutable) pr) s) \<longleftrightarrow> known rid s"
  by (cases "stored rid s"; simp add: known_def settled_def stored_progress stored_status set_status_fields)+

lemma alive_frame: "ct_store s' = ct_store s \<Longrightarrow> ps_alive s' = ps_alive s"
  "ct_store s' = ct_store s \<Longrightarrow> known rid s' = known rid s"
  "ct_store s' = ct_store s \<Longrightarrow> settled rid s' = settled rid s"
  using stored_frame [of s' s rid] by (simp_all add: ps_alive_def known_def settled_def)

lemma executor_frame [simp]:
  "ct_sp1 (sp1_mod f s) = map_option f (ct_sp1 s)"
  "ct_sp1 (store_cmd c s) = ct_sp1 s" "ct_risc0 (store_cmd c s) = ct_risc0 s" "ct_openvm (store_cmd c s) = ct_openvm s"
  "has_executor vm (store_cmd c s) = has_executor vm s"
  "has_executor vm (sp1_mod f s) = has_executor vm s" "has_executor vm (openvm_mod g s) = has_executor vm s"
  "has_executor vm (switch_resident vm' s) = has_executor vm s"
  "has_executor vm (s\<lparr>ct_reconnect := b\<rparr>) = has_executor vm s"
  "has_executor vm (s\<lparr>ct_rate_model := m\<rparr>) = has_executor vm s"
  by (auto simp: has_executor_def store_cmd_def sp1_mod_def openvm_mod_def switch_resident_def Let_def
      split: vm_kind.splits option.splits)

lemma alive_frames [simp]:
  "ps_alive (sp1_mod f s) = ps_alive s" "known rid (sp1_mod f s) = known rid s" "settled rid (sp1_mod f s) = settled rid s"
  "ps_alive (openvm_mod g s) = ps_alive s" "known rid (openvm_mod g s) = known rid s"
  "settled rid (openvm_mod g s) = settled rid s"
  "ps_alive (s\<lparr>ct_reconnect := b\<rparr>) = ps_alive s" "settled rid (s\<lparr>ct_reconnect := b\<rparr>) = settled rid s"
  "ps_alive (s\<lparr>ct_rate_model := m\<rparr>) = ps_alive s" "known rid (s\<lparr>ct_rate_model := m\<rparr>) = known rid s"
  "ps_alive (switch_resident vm s) = ps_alive s"
  by (rule alive_frame; simp)+

lemmas solo_simps = solo_def known_settled_cmds known_settled_cmds [simplified] ps_alive_cmd

text \<open>Every step keeps the assertion and brings the end closer.\<close>

definition progresses :: "'s contemplant_proof_request \<Rightarrow> task_phase \<Rightarrow> task_phase \<times> 's contemplant \<Rightarrow> bool" where
  "progresses r p res \<longleftrightarrow> solo r (fst res) (snd res) \<and> (task_rank p = 0 \<or> task_rank (fst res) < task_rank p)"

text \<open>The phases that belong to the machines' own parts.\<close>

definition machine_phase :: "task_phase \<Rightarrow> bool" where
  "machine_phase p \<longleftrightarrow> \<not> in_handler p \<and> p \<notin> {T_Progress, T_End, T_Panicked} \<and>
     (\<forall>c bs el. p \<noteq> T_Learn c bs el) \<and> (\<forall>bs. p \<noteq> T_Proof bs)"

lemma sp1_prove_call_returns:
  "sp1_returns e \<Longrightarrow> warm (Req_Sp1 r) a \<Longrightarrow> sp1_prove_call e r a \<noteq> None"
  by (auto simp: warm_def sp1_returns_def sp1_prove_call_def split: active_sp1_prover.splits)

lemma solo_cloned:
  assumes "ps_alive s" "ct_sp1 s \<noteq> None" "known (sp1_request_id r) s" "warm (Req_Sp1 r) (se_active_prover x)"
  shows "solo (Req_Sp1 r) (sp1_cloned r x) s" "task_rank (sp1_cloned r x) < 8"
  using assms by (auto simp: sp1_cloned_def solo_def has_executor_def)

lemma sp1_step_progresses:
  assumes "solo (Req_Sp1 r) p s" "ct_sp1 s = Some x" "machine_phase p" "sp1_returns e"
  shows "progresses (Req_Sp1 r) p (sp1_step e r x p s)"
proof -
  have alive: "ps_alive s" using assms(1) by (simp add: solo_def)
  have b: "sp1_rebuild e = Some Sp1_Cuda" using assms(4) by (simp add: sp1_rebuild_def sp1_returns_def build_sp1_active_def)
  note C = solo_cloned [of _ r]
  consider "p = Sp_Check" | "p = Sp_Rewarm" | "p \<noteq> Sp_Check" "p \<noteq> Sp_Rewarm" by blast
  then show ?thesis
  proof cases
    case 1
    then have k: "known (sp1_request_id r) s" using assms(1) by (simp add: solo_def)
    show ?thesis
    proof (cases "\<not> sp1_mock r \<and> se_active_prover x = Sp1_Cold")
      case True
      then show ?thesis using 1 assms(1) by (simp add: progresses_def sp1_step_def solo_def)
    next
      case False
      then have "warm (Req_Sp1 r) (se_active_prover x)" by (auto simp: warm_def)
      from C [OF alive _ k this] False 1 assms(2) show ?thesis by (auto simp: progresses_def sp1_step_def)
    qed
  next
    case 2
    let ?s = "sp1_mod (\<lambda>x. x\<lparr>se_active_prover := Sp1_Cuda\<rparr>) s" and ?x = "x\<lparr>se_active_prover := Sp1_Cuda\<rparr>"
    have "ps_alive ?s" "ct_sp1 ?s \<noteq> None" "known (sp1_request_id r) ?s" "warm (Req_Sp1 r) (se_active_prover ?x)"
      using 2 assms(1,2) by (simp_all add: solo_def warm_def)
    from C [OF this] 2 show ?thesis by (simp add: progresses_def sp1_step_def b)
  next
    case 3
    then show ?thesis
      using assms b sp1_prove_call_returns [OF assms(4), of r]
      by (cases p)
        (auto simp: progresses_def solo_simps sp1_step_def task_fail_def warm_def sp1_returns_def Let_def
          machine_phase_def in_handler_def split: option.splits sum.splits)
  qed
qed

lemma risc0_step_progresses:
  assumes "solo (Req_Risc0 r) p s" "ct_risc0 s = Some x" "machine_phase p"
  shows "progresses (Req_Risc0 r) p (risc0_step e r x p s)"
  using assms
  by (cases p)
    (auto simp: progresses_def solo_simps risc0_step_def task_fail_def warm_def machine_phase_def in_handler_def
      split: sum.splits)

lemma openvm_step_progresses:
  assumes "solo (Req_OpenVm r) p s" "ct_openvm s = Some x" "machine_phase p" "call_returns e"
  shows "progresses (Req_OpenVm r) p (openvm_step e r x cell p s)"
proof -
  obtain res c where "call_blocking (te_wait e) (te_spawn_error e) (te_call_start e)
      (te_attempts e (prove_request e x r)) (ox_child x) = Some (res, c)"
    using assms(4) by (fastforce simp: call_returns_def)
  then show ?thesis
    using assms
    by (cases p)
      (auto simp: progresses_def solo_simps openvm_step_def task_fail_def warm_def Let_def
        machine_phase_def in_handler_def split: sum.splits)
qed

lemma machine_step_progresses:
  assumes "solo r p s" "machine_phase p" "prover_returns (request_vm r) e"
  shows "progresses r p (machine_step e r cell p s)"
proof (cases r)
  case (Req_Sp1 x)
  then obtain y where "ct_sp1 s = Some y" using assms(1) by (auto simp: solo_def has_executor_def)
  then show ?thesis using sp1_step_progresses assms Req_Sp1 by (fastforce simp: prover_returns_def)
next
  case (Req_Risc0 x)
  then obtain y where "ct_risc0 s = Some y" using assms(1) by (auto simp: solo_def has_executor_def)
  then show ?thesis using risc0_step_progresses assms Req_Risc0 by fastforce
next
  case (Req_OpenVm x)
  then obtain y where "ct_openvm s = Some y" using assms(1) by (auto simp: solo_def has_executor_def)
  then show ?thesis using openvm_step_progresses assms Req_OpenVm by (fastforce simp: prover_returns_def)
qed

lemma task_step_progresses:
  assumes "solo r p s" "prover_returns (request_vm r) e"
  shows "progresses r p (task_step e r cell p s)"
proof (cases "machine_phase p")
  case True
  then show ?thesis
    using machine_step_progresses [OF assms(1) True assms(2), of cell]
    by (cases p) (simp_all add: task_step_def machine_phase_def in_handler_def)
next
  case False
  have k: "known rid (store_cmd (InsertProof rid c) s)" for rid c
    using stored_insert [of s rid c] assms(1) by (simp add: known_def solo_def)
  have first: "solo r (first_phase r) s' \<longleftrightarrow> ps_alive s' \<and> has_executor (request_vm r) s' \<and> known (request_id r) s'" for s'
    by (cases r) (auto simp: solo_def)
  have rank: "task_rank (first_phase r) < 10" by (cases r) simp_all
  show ?thesis
  proof (cases "p = T_Executing")
    case True
    then show ?thesis
      using assms(1) rank
      by (simp add: progresses_def task_step_def task_executing_def first)
        (simp add: solo_simps)
  next
    case no: False
    then show ?thesis
      using assms(1) False k
      by (cases p)
        (auto simp: progresses_def task_step_def machine_phase_def in_handler_def route_def task_insert_def
          task_learn_def task_proof_def task_progress_def Let_def solo_simps split: option.splits)
  qed
qed

lemma run_task_settles:
  assumes "solo r p s" "\<forall>(e, cell) \<in> set es. prover_returns (request_vm r) e" "task_rank p \<le> length es"
  shows "fst (run_task es r p s) = T_End \<and> settled (request_id r) (snd (run_task es r p s))"
  using assms
proof (induction es arbitrary: p s)
  case Nil
  then have "p = T_End" by (cases p) (simp_all add: solo_def)
  with Nil show ?case by (simp add: solo_def)
next
  case (Cons ec es)
  obtain e cell where ec: "ec = (e, cell)" by fastforce
  obtain p' s' where st: "task_step e r cell p s = (p', s')" by fastforce
  have pr: "progresses r p (p', s')"
    using task_step_progresses [OF Cons.prems(1), of e cell] Cons.prems(2) st ec by simp
  have "task_rank p' \<le> length es"
  proof (cases "task_rank p = 0")
    case True
    then have "p = T_End" using Cons.prems(1) by (cases p) (simp_all add: solo_def)
    then show ?thesis using st by (simp add: task_step_def)
  next
    case False
    then show ?thesis using pr Cons.prems(3) by (simp add: progresses_def)
  qed
  then show ?case using Cons.IH [of p' s'] pr Cons.prems(2) st ec by (simp add: progresses_def)
qed

section \<open>Properties of single tasks\<close>

text \<open>C23. A request that reaches a contemplant serving its machine, and whose task no other task disturbs, is
  settled: after at most 12 steps the task has ended, without panic, and the store reports the request as
  executed or as unexecutable, never as still running. For RISC Zero that is unconditional. For SP1 the exception
  is a panic of the library inside the task, for OpenVM a call to the worker that does not return: in any other
  case the request is settled.\<close>

theorem undisturbed_task_settles:
  assumes "ps_alive s" "has_executor (request_vm r) s" "12 \<le> length es"
  shows "(\<exists>s'. run_task es r T_Route s = (T_End, s') \<and> settled (request_id r) s') \<or>
         request_vm r = Vm_Sp1 \<and> (\<exists>(e, cell) \<in> set es. \<not> sp1_returns e) \<or>
         request_vm r = Vm_OpenVm \<and> (\<exists>(e, cell) \<in> set es. \<not> call_returns e)"
proof (cases "\<forall>(e, cell) \<in> set es. prover_returns (request_vm r) e")
  case True
  have "solo r T_Route s" using assms(1,2) by (simp add: solo_def)
  from run_task_settles [OF this True] assms(3) show ?thesis
    by (cases "run_task es r T_Route s") simp
next
  case False
  then show ?thesis by (cases "request_vm r") (auto simp: prover_returns_def)
qed

lemma demo_ct_start_alive: "ps_alive demo_ct_start" "has_executor Vm_Risc0 demo_ct_start"
  by (simp_all add: ps_alive_def has_executor_def demo_ct_start_def contemplant_new_def demo_ct_config_def
      contemplant_config_default_def proof_store_new_def ps_ok_def)

theorem undisturbed_task_settles_witness:
  "\<exists>s'. run_task (replicate 12 (demo_task_env, 0)) (Req_Risc0 demo_r0) T_Route demo_ct_start = (T_End, s') \<and>
     settled (request_id (Req_Risc0 demo_r0 :: unit contemplant_proof_request)) s'"
  using undisturbed_task_settles [of demo_ct_start "Req_Risc0 demo_r0" "replicate 12 (demo_task_env, 0)"]
    demo_ct_start_alive by simp

section \<open>No task uses a released prover\<close>

text \<open>
  The copied handle of an SP1 task is warm unless the proof is a mock; the marks \<^verbatim>\<open>unreachable!\<close> of the task are on
  the other handles.
\<close>

fun handle_of :: "task_phase \<Rightarrow> active_sp1_prover option" where
  "handle_of (Sp_Execute a) = Some a"
| "handle_of (Sp_Estimate a _) = Some a"
| "handle_of (Sp_Publish a _ _) = Some a"
| "handle_of (Sp_Prove a _) = Some a"
| "handle_of _ = None"

definition handle_ok :: "'s contemplant_proof_request \<Rightarrow> task_phase \<Rightarrow> bool" where
  "handle_ok r p \<longleftrightarrow> p \<noteq> T_Panicked \<and> (handle_of p = Some Sp1_Cold \<longrightarrow> is_mock r \<and> (\<forall>a. p \<noteq> Sp_Execute a))"

lemma handle_ok_cloned: "sp1_mock r \<or> se_active_prover x \<noteq> Sp1_Cold \<Longrightarrow> handle_ok (Req_Sp1 r) (sp1_cloned r x)"
  by (auto simp: handle_ok_def sp1_cloned_def)

lemma sp1_step_handle:
  assumes "handle_ok (Req_Sp1 r) p" "sp1_returns e"
  shows "handle_ok (Req_Sp1 r) (fst (sp1_step e r x p s))"
proof -
  have b: "sp1_rebuild e = Some Sp1_Cuda" using assms(2) by (simp add: sp1_rebuild_def sp1_returns_def build_sp1_active_def)
  have ok: "sp1_prove_call e r a \<noteq> None" if "a \<noteq> Sp1_Cold \<or> sp1_mock r" for a
    using that assms(2) by (cases a) (auto simp: sp1_returns_def sp1_prove_call_def)
  show ?thesis
  proof (cases p)
    case (Sp_Prove a c)
    then have "sp1_prove_call e r a \<noteq> None" using assms(1) ok by (cases a) (auto simp: handle_ok_def)
    then show ?thesis using Sp_Prove by (auto simp: sp1_step_def handle_ok_def split: option.split sum.split)
  next
    case (Sp_Execute a)
    then show ?thesis
      using assms by (auto simp: sp1_step_def handle_ok_def sp1_returns_def split: option.split sum.split)
  next
    case Sp_Check
    then show ?thesis using handle_ok_cloned [of r x] by (auto simp: sp1_step_def handle_ok_def)
  next
    case Sp_Rewarm
    then show ?thesis using handle_ok_cloned [of r "x\<lparr>se_active_prover := Sp1_Cuda\<rparr>"] b by (simp add: sp1_step_def)
  qed (use assms(1) b in \<open>auto simp: sp1_step_def task_fail_def handle_ok_def Let_def\<close>)
qed

lemma task_step_handle:
  assumes "handle_ok r p" "sp1_returns e"
  shows "handle_ok r (fst (task_step e r cell p s))"
proof -
  have "handle_ok r (fst (machine_step e r cell p s))"
  proof (cases r)
    case (Req_Sp1 x)
    then show ?thesis using sp1_step_handle [of x p e] assms by (auto simp: handle_ok_def split: option.split)
  next
    case (Req_Risc0 x)
    then show ?thesis
      using assms(1) by (cases p) (auto simp: handle_ok_def risc0_step_def task_fail_def split: option.split sum.split)
  next
    case (Req_OpenVm x)
    then show ?thesis
      using assms(1)
      by (cases p) (auto simp: handle_ok_def openvm_step_def task_fail_def Let_def split: option.split sum.split)
  qed
  moreover have "handle_ok r (first_phase r)" by (cases r) (simp_all add: handle_ok_def)
  ultimately show ?thesis
    using assms(1)
    by (cases p) (auto simp: task_step_def route_def task_insert_def task_executing_def task_learn_def task_proof_def
        task_progress_def handle_ok_def Let_def)
qed

definition sdk_next :: "'s ct_env \<Rightarrow> 's ct_env \<Rightarrow> ct_step \<Rightarrow> bool" where
  "sdk_next e e' c \<longleftrightarrow> sp1_returns (ce_task e')"

definition handles_ok :: "'s contemplant \<Rightarrow> bool" where
  "handles_ok s \<longleftrightarrow> (\<forall>t \<in> set (ct_tasks s). handle_ok (tk_req t) (tk_phase t))"

lemma handles_ok_set_task:
  assumes "handles_ok s" "ct_tasks s' = ct_tasks s" "handle_ok (tk_req t) (tk_phase t)"
  shows "handles_ok (set_task i t s')"
  using assms set_update_subset_insert [of "ct_tasks s" i t] by (auto simp: handles_ok_def set_task_def)

lemma task_step_tasks: "ct_tasks (snd (task_step e r cell p s)) = ct_tasks s"
proof -
  have "ct_tasks (snd (machine_step e r cell p s)) = ct_tasks s"
    by (cases r; cases p)
      (auto simp: sp1_step_def risc0_step_def openvm_step_def task_fail_def Let_def split: option.split sum.split)
  then show ?thesis
    by (cases p) (auto simp: task_step_def route_def task_insert_def task_executing_def task_learn_def task_proof_def
        task_progress_def Let_def split: option.split)
qed

lemma contemplant_new_tasks: "contemplant_new se n cfg = Some s \<Longrightarrow> ct_tasks s = []"
  unfolding contemplant_new_def by (auto split: option.split_asm prod.split_asm)

interpretation handles: actor_invariant contemplant_step sdk_next "contemplant_start cfg" "\<lambda>_. handles_ok" for cfg
proof
  show "handles_ok s" if "contemplant_start cfg e s" for e s
    using that by (auto simp: contemplant_start_def handles_ok_def dest: contemplant_new_tasks)
  show "handles_ok (contemplant_step e' c s)" if i: "handles_ok s" and n: "sdk_next e e' c" for e e' c s
  proof (cases c)
    case (Ct_Message m)
    then show ?thesis
      using i by (auto simp: handle_message_from_hierophant_def handles_ok_def new_task_def handle_ok_def Let_def
          split: ws_message.split option.split from_hierophant_message.split)
  next
    case (Ct_Task j)
    show ?thesis
    proof (cases "j < length (ct_tasks s)")
      case True
      let ?t = "ct_tasks s ! j"
      obtain p s1 where st: "task_step (ce_task e') (tk_req ?t) (tk_cell ?t) (tk_phase ?t) s = (p, s1)" by fastforce
      have "handle_ok (tk_req ?t) (tk_phase ?t)" using i True by (simp add: handles_ok_def)
      from task_step_handle [OF this, of "ce_task e'" "tk_cell ?t" s] n have "handle_ok (tk_req ?t) p"
        by (simp add: sdk_next_def st)
      moreover have "ct_tasks s1 = ct_tasks s"
        using task_step_tasks [of "ce_task e'" "tk_req ?t" "tk_cell ?t" "tk_phase ?t" s] st by simp
      ultimately show ?thesis
        using handles_ok_set_task [OF i, of s1 "?t\<lparr>tk_phase := p\<rparr>" j] Ct_Task True st by (simp add: advance_def)
    qed (use i Ct_Task in simp)
  next
    case (Ct_Bridge j)
    show ?thesis
    proof (cases "j < length (ct_tasks s)")
      case True
      let ?t = "ct_tasks s ! j"
      obtain t s1 where st: "bridge_step ?t s = (t, s1)" by fastforce
      have "handle_ok (tk_req ?t) (tk_phase ?t)" using i True by (simp add: handles_ok_def)
      moreover have "tk_req t = tk_req ?t \<and> tk_phase t = tk_phase ?t \<and> ct_tasks s1 = ct_tasks s"
        using st by (auto simp: bridge_step_def split: bridge.splits)
      ultimately show ?thesis
        using handles_ok_set_task [OF i, of s1 t j] Ct_Bridge True st by simp
    qed (use i Ct_Bridge in simp)
  next
    case (Ct_Size j k)
    then show ?thesis
      using handles_ok_set_task [OF i, of s "(ct_tasks s ! j)\<lparr>tk_bridge := Br_Got k\<rparr>" j] i
      by (auto simp: handle_ok_def)
  next
    case (Ct_Abort j)
    then show ?thesis
      using handles_ok_set_task [OF i, of s "(ct_tasks s ! j)\<lparr>tk_phase := T_End\<rparr>" j] i
      by (auto simp: handle_ok_def)
  qed (use i in \<open>simp_all add: handles_ok_def\<close>)
qed

text \<open>C24. Whatever messages, evictions and other tasks run in between, an SP1 task never proves or executes with a
  prover handle that was released to another machine: the handle it copied is warm (or the proof is a mock, which
  uses none), so the \<^verbatim>\<open>unreachable!\<close> branches are not reached, and no task panics as long as the SP1 library
  itself does not.\<close>

theorem sp1_task_never_cold:
  assumes "reach contemplant_step sdk_next (contemplant_start cfg) e s" "t \<in> set (ct_tasks s)"
  shows "tk_phase t \<noteq> T_Panicked \<and> tk_phase t \<noteq> Sp_Execute Sp1_Cold \<and>
         (\<forall>c. tk_phase t = Sp_Prove Sp1_Cold c \<longrightarrow> is_mock (tk_req t))"
  using handles.reach_inv [OF assms(1)] assms(2) by (auto simp: handles_ok_def handle_ok_def)

definition demo_sp1 :: "unit sp1_proof_request" where
  "demo_sp1 = \<lparr>sp1_request_id = 9, sp1_elf = [], sp1_mock = False, sp1_mode = Plonk, sp1_stdin = ()\<rparr>"

definition demo_cuda :: sp1_executor where
  "demo_cuda = \<lparr>se_active_prover = Sp1_Cuda, se_cuda_deaths = 0, se_compute_totals = True\<rparr>"

text \<open>A contemplant for SP1 and RISC Zero: an SP1 task is about to copy its prover when a RISC Zero request evicts it.\<close>

definition demo_evict_env :: "unit ct_env" where
  "demo_evict_env =
     \<lparr>ce_de = (\<lambda>bs. if bs = [] then Some (ProofRequest (Req_Sp1 demo_sp1)) else Some (ProofRequest (Req_Risc0 demo_r0))),
      ce_task = demo_task_env\<rparr>"

definition demo_evict_config :: contemplant_config where
  "demo_evict_config = demo_ct_config\<lparr>cc_provers :=
     [\<lparr>pc_vm = Choice_Sp1, pc_backend = Backend_Cuda, pc_moongate_endpoint = None, pc_groth16_enabled = False, pc_evm_enabled = False\<rparr>,
      \<lparr>pc_vm = Choice_Risc0, pc_backend = Backend_Cpu, pc_moongate_endpoint = None, pc_groth16_enabled = False, pc_evm_enabled = False\<rparr>]\<rparr>"

definition demo_evict_run :: "unit contemplant" where
  "demo_evict_run = event_loop contemplant_step (map (Pair demo_evict_env)
     [Ct_Message (WsBinary []), Ct_Task 0, Ct_Task 0, Ct_Task 0, Ct_Message (WsBinary [1]), Ct_Task 1, Ct_Task 0, Ct_Task 0])
     (the (contemplant_new None 0 demo_evict_config))"

theorem sp1_task_never_cold_witness:
  "\<exists>t. ct_tasks demo_evict_run ! 0 = t \<and> tk_phase t = Sp_Prove Sp1_Cuda None \<and> tk_phase t \<noteq> T_Panicked"
proof -
  have "contemplant_new None 0 demo_evict_config \<noteq> (None :: unit contemplant option)"
    by (simp add: contemplant_new_def demo_evict_config_def demo_ct_config_def contemplant_config_default_def
        build_sp1_active_def proof_store_new_def)
  then obtain s0 :: "unit contemplant" where s0: "contemplant_new None 0 demo_evict_config = Some s0" by blast
  have c: "env_chain sdk_next demo_evict_env (map (Pair demo_evict_env) cs)" for cs
    by (induction cs) (simp_all add: sdk_next_def sp1_returns_def demo_evict_env_def demo_task_env_def)
  have "reach contemplant_step sdk_next (contemplant_start demo_evict_config) demo_evict_env s0"
    using s0 by (intro reach_start) (auto simp: contemplant_start_def)
  from reach_event_loop [OF this c] obtain e where
    r: "reach contemplant_step sdk_next (contemplant_start demo_evict_config) e demo_evict_run"
    unfolding demo_evict_run_def s0 option.sel by blast
  have t: "length (ct_tasks demo_evict_run) = 2" "tk_phase (ct_tasks demo_evict_run ! 0) = Sp_Prove Sp1_Cuda None"
    by (simp_all add: demo_evict_run_def contemplant_new_def demo_evict_config_def demo_ct_config_def
      contemplant_config_default_def build_sp1_active_def proof_store_new_def demo_evict_env_def
      handle_message_from_hierophant_def advance_def task_step_def route_def switch_resident_def has_executor_def
      new_task_def set_task_def demo_task_env_def task_insert_def task_executing_def sp1_step_def sp1_cloned_def
      sp1_release_gpu_def sp1_mod_def sp1_rebuild_def store_cmd_def demo_sp1_def)
  then have "ct_tasks demo_evict_run ! 0 \<in> set (ct_tasks demo_evict_run)" by (intro nth_mem) simp
  from sp1_task_never_cold [OF r this] t(2) show ?thesis by simp
qed

section \<open>Residency\<close>

text \<open>The machine holds a prover on the GPU between proofs; RISC Zero keeps none.\<close>

definition holds_gpu :: "vm_kind \<Rightarrow> 's contemplant \<Rightarrow> bool" where
  "holds_gpu vm s = (case vm of
       Vm_Sp1 \<Rightarrow> (case ct_sp1 s of Some x \<Rightarrow> se_active_prover x = Sp1_Cuda | None \<Rightarrow> False)
     | Vm_Risc0 \<Rightarrow> False
     | Vm_OpenVm \<Rightarrow> (case ct_openvm s of Some x \<Rightarrow> ox_child x = Spawned | None \<Rightarrow> False))"

text \<open>Routing a request makes its machine the resident one; the machine that was resident before, if it is
  another, no longer holds a prover, and no other machine is touched.\<close>

theorem route_evicts_previous:
  "ct_resident_vm (snd (route e r s)) = Some (request_vm r) \<and>
   holds_gpu vm (snd (route e r s)) =
     (holds_gpu vm s \<and> \<not> (ct_resident_vm s = Some vm \<and> vm \<noteq> request_vm r))"
proof -
  have "ct_sp1 (snd (route e r s)) = ct_sp1 (switch_resident (request_vm r) s)"
    "ct_openvm (snd (route e r s)) = ct_openvm (switch_resident (request_vm r) s)"
    "ct_resident_vm (snd (route e r s)) = ct_resident_vm (switch_resident (request_vm r) s)"
    by (simp_all add: route_def Let_def)
  then show ?thesis
    by (cases vm)
      (auto simp: holds_gpu_def switch_resident_def sp1_release_gpu_def openvm_release_gpu_def mark_dead_def Let_def
        split: option.splits vm_kind.splits)
qed

text \<open>At start-up the SP1 server and the OpenVM worker are both started while no machine counts as resident, so
  the first request evicts neither: a contemplant configured for both then holds both provers on the GPU.\<close>

theorem first_request_evicts_nothing:
  assumes "contemplant_new None nonce cfg = Some s" "cc_provers cfg = [p, q]"
    and "pc_vm p = Choice_Sp1" "pc_backend p = Backend_Cuda" "pc_vm q = Choice_OpenVm"
  shows "holds_gpu Vm_Sp1 (snd (route e r s)) \<and> holds_gpu Vm_OpenVm (snd (route e r s))"
proof -
  have s: "holds_gpu Vm_Sp1 s" "holds_gpu Vm_OpenVm s" "ct_resident_vm s = None"
    using assms
    by (auto simp: contemplant_new_def build_sp1_active_def openvm_executor_new_def ensure_running_def holds_gpu_def
        split: option.splits)
  then show ?thesis
    by (simp add: route_def Let_def switch_resident_def holds_gpu_def)
qed

definition demo_gpu_config :: contemplant_config where
  "demo_gpu_config = demo_ct_config\<lparr>cc_provers :=
     [\<lparr>pc_vm = Choice_Sp1, pc_backend = Backend_Cuda, pc_moongate_endpoint = None, pc_groth16_enabled = False, pc_evm_enabled = False\<rparr>,
      \<lparr>pc_vm = Choice_OpenVm, pc_backend = Backend_Cuda, pc_moongate_endpoint = None, pc_groth16_enabled = False, pc_evm_enabled = True\<rparr>]\<rparr>"

theorem first_request_evicts_nothing_witness:
  "\<exists>s. contemplant_new None 0 demo_gpu_config = Some s \<and> holds_gpu Vm_Sp1 (snd (route demo_task_env (Req_Sp1 demo_sp1) s))"
proof -
  obtain s :: "unit contemplant" where s: "contemplant_new None 0 demo_gpu_config = Some s"
    by (auto simp: contemplant_new_def demo_gpu_config_def demo_ct_config_def contemplant_config_default_def
        build_sp1_active_def proof_store_new_def)
  from first_request_evicts_nothing [OF s] s show ?thesis by (auto simp: demo_gpu_config_def)
qed

section \<open>Demotion\<close>

text \<open>When the SP1 library can be started again, a death of its server is followed by a respawn until the third in a row, which instead drops SP1 from
  the machines the worker advertises and asks for a re-registration.\<close>

theorem third_death_demotes_sp1:
  assumes "ct_sp1 s = Some x" "se_cuda_deaths x < MAX_CONSECUTIVE_CUDA_DEATHS" "te_sp1_builds e2"
    and "run_task [(e1, c1), (e2, c2)] (Req_Sp1 r) T_Death s = (p', s')"
  shows "p' = T_End \<and> (Vm_Sp1 \<in> set (supported_vms s') \<longleftrightarrow> se_cuda_deaths x < 2) \<and>
     (ct_reconnect s' \<longleftrightarrow> ct_reconnect s \<or> se_cuda_deaths x = 2) \<and>
     (se_cuda_deaths x < 2 \<longrightarrow> holds_gpu Vm_Sp1 s')"
proof -
  have "se_cuda_deaths x = 0 \<or> se_cuda_deaths x = 1 \<or> se_cuda_deaths x = 2"
  proof -
    have "unat (se_cuda_deaths x) < 3"
      using assms(2) by (simp add: MAX_CONSECUTIVE_CUDA_DEATHS_def word_less_nat_alt)
    then have "unat (se_cuda_deaths x) = 0 \<or> unat (se_cuda_deaths x) = 1 \<or> unat (se_cuda_deaths x) = 2" by linarith
    then show ?thesis by (simp add: word_eq_iff_unsigned [where ?'a = nat])
  qed
  moreover have "\<not> (3 :: u32) \<le> 1" by (simp add: word_le_nat_alt)
  ultimately show ?thesis
    using assms
    by (auto simp: task_step_def sp1_step_def Let_def MAX_CONSECUTIVE_CUDA_DEATHS_def build_sp1_active_def
        supported_vms_def backend_permanently_dead_def holds_gpu_def sp1_mod_def sp1_rebuild_def)
qed

theorem third_death_demotes_sp1_witness:
  "\<exists>s'. run_task [(demo_task_env, 0), (demo_task_env, 0)] (Req_Sp1 demo_sp1) T_Death
      (demo_ct_start\<lparr>ct_sp1 := Some (demo_cuda\<lparr>se_cuda_deaths := 2\<rparr>)\<rparr>) = (T_End, s') \<and>
     Vm_Sp1 \<notin> set (supported_vms s') \<and> ct_reconnect s'"
proof -
  let ?x = "demo_cuda\<lparr>se_cuda_deaths := 2\<rparr>" let ?s = "demo_ct_start\<lparr>ct_sp1 := Some ?x\<rparr>"
  obtain p' s' where run: "run_task [(demo_task_env, 0), (demo_task_env, 0)] (Req_Sp1 demo_sp1) T_Death ?s = (p', s')"
    by fastforce
  have "ct_sp1 ?s = Some ?x" "se_cuda_deaths ?x < MAX_CONSECUTIVE_CUDA_DEATHS"
    "te_sp1_builds demo_task_env"
    by (simp_all add: MAX_CONSECUTIVE_CUDA_DEATHS_def demo_task_env_def)
  from third_death_demotes_sp1 [OF this run] run show ?thesis by simp
qed

end
