(* ===== verification/Contemplant_Link.thy ===== *)
theory Contemplant_Link
  imports Contemplant_Tasks
begin

text \<open>
  The contemplant's connection to the hierophant (\<^verbatim>\<open>api/connect_to_hierophant.rs\<close>), the loop that renews it
  (\<^verbatim>\<open>main.rs\<close>) and the health endpoint (\<^verbatim>\<open>api/http.rs\<close>): registration, the sending task with its two queues,
  which tasks survive a connection, and the reconnect backoff.
\<close>

section \<open>Registration\<close>

definition register_info :: "contemplant_config \<Rightarrow> 's contemplant \<Rightarrow> worker_register_info" where
  "register_info cfg s =
     \<lparr>wri_name = cc_contemplant_name cfg, wri_contemplant_version = CONTEMPLANT_VERSION,
      wri_supported_vms = supported_vms s, wri_groth16_enabled = groth16_enabled s,
      wri_openvm_evm_enabled = openvm_evm_enabled s,
      wri_magister_drop_endpoint = cc_magister_drop_endpoint cfg, wri_instance_nonce = ct_instance_nonce s\<rparr>"

text \<open>\<^verbatim>\<open>str::replace\<close>: every non-overlapping occurrence, from the left.\<close>

function str_replace :: "string \<Rightarrow> string \<Rightarrow> string \<Rightarrow> string" where
  "str_replace pat rep [] = []"
| "str_replace pat rep (c # cs) =
     (if pat \<noteq> [] \<and> take (length pat) (c # cs) = pat then rep @ str_replace pat rep (drop (length pat) (c # cs))
      else c # str_replace pat rep cs)"
  by pat_completeness auto
termination
proof (relation "measure (\<lambda>(_, _, s). length s)")
  fix pat rep cs :: string and c
  assume "pat \<noteq> [] \<and> take (length pat) (c # cs) = pat"
  then show "((pat, rep, drop (length pat) (c # cs)), pat, rep, c # cs) \<in> measure (\<lambda>(_, _, s). length s)"
    by (cases pat) auto
qed auto

text \<open>\<open>get\<close> is the outcome of the HTTP request: \<open>None\<close> when it could not be sent, else the status code.\<close>

datatype link_error = HandshakeFailed | SerializeFailed | RegisterFailed | MagisterUnreachable | MagisterRefused

definition verify_with_magister :: "(string \<Rightarrow> nat option) \<Rightarrow> string \<Rightarrow> link_error + unit" where
  "verify_with_magister get drop_endpoint = (case get (str_replace ''drop'' ''verify'' drop_endpoint) of
       None \<Rightarrow> Inl MagisterUnreachable
     | Some code \<Rightarrow> (if 400 \<le> code \<and> code < 600 then Inl MagisterRefused else Inr ()))"

section \<open>The sending task\<close>

text \<open>
  Heartbeats ride a channel of their connection, responses the channel that outlives it. A frame sent is logged
  with its origin (\<open>True\<close>: the response channel), \<open>None\<close> is the close frame.
\<close>

record send_state =
  ss_shutdown :: bool
  ss_heartbeats :: "from_contemplant_message list"
  ss_heartbeats_closed :: bool
  ss_responses :: "from_contemplant_message list"
  ss_responses_closed :: bool
  ss_frames :: "(bool \<times> from_contemplant_message) option list"
  ss_stopped :: bool

definition send_stop :: "send_state \<Rightarrow> send_state" where
  "send_stop s = s\<lparr>ss_frames := ss_frames s @ [None], ss_stopped := True\<rparr>"

text \<open>\<open>ser\<close> says whether the message serialises, \<open>ok\<close> whether the write succeeds.\<close>

definition transmit ::
    "(from_contemplant_message \<Rightarrow> bool) \<Rightarrow> bool \<Rightarrow> bool \<Rightarrow> from_contemplant_message \<Rightarrow> send_state \<Rightarrow> send_state" where
  "transmit ser ok origin m s =
     (if \<not> ser m then s
      else if ok then s\<lparr>ss_frames := ss_frames s @ [Some (origin, m)]\<rparr>
      else send_stop s)"

definition send_turn :: "(from_contemplant_message \<Rightarrow> bool) \<Rightarrow> bool \<Rightarrow> send_state \<Rightarrow> send_state" where
  "send_turn ser ok s =
     (if ss_stopped s then s
      else if ss_shutdown s then send_stop s
      else (case ss_heartbeats s of
              hb # hbs \<Rightarrow> transmit ser ok False hb (s\<lparr>ss_heartbeats := hbs\<rparr>)
            | [] \<Rightarrow>
                (if ss_heartbeats_closed s then send_stop s
                 else (case ss_responses s of
                         m # ms \<Rightarrow> transmit ser ok True m (s\<lparr>ss_responses := ms\<rparr>)
                       | [] \<Rightarrow> (if ss_responses_closed s then send_stop s else s)))))"

datatype send_event =
    Send_Turn bool
  | Send_Heartbeat
  | Send_Heartbeats_Close
  | Send_Response from_contemplant_message
  | Send_Shutdown

text \<open>The heartbeat channel holds eight messages; a full one makes its sender wait.\<close>

fun send_event_step :: "(from_contemplant_message \<Rightarrow> bool) \<Rightarrow> send_event \<Rightarrow> send_state \<Rightarrow> send_state" where
  "send_event_step ser (Send_Turn ok) s = send_turn ser ok s"
| "send_event_step ser Send_Heartbeat s =
     (if length (ss_heartbeats s) < 8 \<and> \<not> ss_heartbeats_closed s
      then s\<lparr>ss_heartbeats := ss_heartbeats s @ [Heartbeat]\<rparr> else s)"
| "send_event_step ser Send_Heartbeats_Close s = s\<lparr>ss_heartbeats_closed := True\<rparr>"
| "send_event_step ser (Send_Response m) s = s\<lparr>ss_responses := ss_responses s @ [m]\<rparr>"
| "send_event_step ser Send_Shutdown s = s\<lparr>ss_shutdown := True\<rparr>"

definition send_start :: "from_contemplant_message list \<Rightarrow> send_state" where
  "send_start q =
     \<lparr>ss_shutdown = False, ss_heartbeats = [], ss_heartbeats_closed = False, ss_responses = q,
      ss_responses_closed = False, ss_frames = [], ss_stopped = False\<rparr>"

definition send_run :: "(from_contemplant_message \<Rightarrow> bool) \<Rightarrow> send_event list \<Rightarrow> send_state \<Rightarrow> send_state" where
  "send_run ser evs s = fold (send_event_step ser) evs s"

section \<open>The receiving task\<close>

text \<open>On the messages that arrive until the socket ends; \<open>None\<close> is a receive error.\<close>

fun ws_recv_task ::
    "(bytes \<Rightarrow> 's from_hierophant_message option) \<Rightarrow> bool \<Rightarrow> ws_message option list \<Rightarrow> 's contemplant \<Rightarrow> 's contemplant" where
  "ws_recv_task de resp_ok [] s = s"
| "ws_recv_task de resp_ok (None # ms) s = s"
| "ws_recv_task de resp_ok (Some m # ms) s =
     (case handle_message_from_hierophant de resp_ok m s of
        (s', Break) \<Rightarrow> s'
      | (s', Continue) \<Rightarrow> ws_recv_task de resp_ok ms s')"

section \<open>The heartbeat task\<close>

text \<open>One tick: whether the timer fired so late that starvation is reported.\<close>

definition heartbeat_starved :: "duration \<Rightarrow> duration \<Rightarrow> bool" where
  "heartbeat_starved interval since_last \<longleftrightarrow> since_last - interval > interval"

section \<open>A connection\<close>

datatype link_task = Send_Task | Recv_Task | Heartbeat_Task | Exit_Task

text \<open>The branch of the final \<^verbatim>\<open>select!\<close>; on shutdown, whether the sending task ends within three seconds.\<close>

datatype link_end = End_Reconnect | End_Send | End_Recv | End_Heartbeat | End_Exit | End_Shutdown bool

definition all_tasks :: "link_task list" where
  "all_tasks = [Send_Task, Recv_Task, Heartbeat_Task, Exit_Task]"

fun completed_task :: "link_end \<Rightarrow> link_task list" where
  "completed_task End_Reconnect = []"
| "completed_task End_Send = [Send_Task]"
| "completed_task End_Recv = [Recv_Task]"
| "completed_task End_Heartbeat = [Heartbeat_Task]"
| "completed_task End_Exit = [Exit_Task]"
| "completed_task (End_Shutdown finished) = (if finished then [Send_Task] else [])"

fun aborted_tasks :: "link_end \<Rightarrow> link_task list" where
  "aborted_tasks End_Reconnect = [Recv_Task, Send_Task, Heartbeat_Task, Exit_Task]"
| "aborted_tasks End_Send = [Recv_Task, Heartbeat_Task, Exit_Task]"
| "aborted_tasks End_Recv = [Send_Task, Heartbeat_Task, Exit_Task]"
| "aborted_tasks End_Heartbeat = [Recv_Task, Send_Task, Exit_Task]"
| "aborted_tasks End_Exit = [Recv_Task, Send_Task, Heartbeat_Task]"
| "aborted_tasks (End_Shutdown finished) =
     [Recv_Task, Heartbeat_Task, Exit_Task] @ (if finished then [] else [Send_Task])"

record 's link_env =
  le_handshake_ok :: bool
  le_ser :: "from_contemplant_message \<Rightarrow> bytes option"
  le_register_ok :: bool
  le_magister :: "string \<Rightarrow> nat option"
  le_end :: link_end
  le_life :: "'s contemplant \<Rightarrow> 's contemplant"

text \<open>
  The result, the state, the tasks of the connection still running when the function returns, and the
  registration sent. \<open>le_life\<close> is what happens to the shared state while the connection is up. Dropping the
  handle of a spawned task does not stop the task.
\<close>

definition connect_to_hierophant ::
    "contemplant_config \<Rightarrow> 's link_env \<Rightarrow> 's contemplant \<Rightarrow>
     (link_error + unit) \<times> 's contemplant \<times> link_task list \<times> worker_register_info option" where
  "connect_to_hierophant cfg le s =
     (if \<not> le_handshake_ok le then (Inl HandshakeFailed, s, [], None)
      else (let info = register_info cfg s in
        case le_ser le (Register info) of
          None \<Rightarrow> (Inl SerializeFailed, s, [], None)
        | Some _ \<Rightarrow>
            (if \<not> le_register_ok le then (Inl RegisterFailed, s, [], None)
             else (case (case cc_magister_drop_endpoint cfg of
                           None \<Rightarrow> Inr ()
                         | Some ep \<Rightarrow> verify_with_magister (le_magister le) ep) of
                     Inl err \<Rightarrow> (Inl err, s, all_tasks, Some info)
                   | Inr _ \<Rightarrow>
                       (let s1 = le_life le (s\<lparr>ct_ready := True\<rparr>);
                            s2 = (if le_end le = End_Reconnect then s1\<lparr>ct_reconnect := False\<rparr> else s1);
                            gone = completed_task (le_end le) @ aborted_tasks (le_end le)
                        in (Inr (), s2, filter (\<lambda>t. t \<notin> set gone) all_tasks, Some info))))))"

definition handle_health :: "'s contemplant \<Rightarrow> bool" where
  "handle_health s = ct_ready s"

section \<open>The reconnect loop\<close>

text \<open>
  What the loop sees after each connection: how long it lasted, whether a shutdown was broadcast, and the
  machines still advertised. The result is the sleeps, in seconds, and how the loop ended; \<open>None\<close>: it goes on.
\<close>

record round =
  rd_elapsed :: duration
  rd_shutdown :: bool
  rd_supported :: "vm_kind list"

datatype loop_end = Stopped | Parked

fun ws_loop :: "round list \<Rightarrow> nat \<Rightarrow> nat list \<times> loop_end option" where
  "ws_loop [] backoff_secs = ([], None)"
| "ws_loop (r # rs) backoff_secs =
     (if rd_shutdown r then ([], Some Stopped)
      else if rd_supported r = [] then ([], Some Parked)
      else (let b = (if rd_elapsed r > from_secs 60 then 5 else backoff_secs);
                (sleeps, out) = ws_loop rs (min (b * 2) 60)
            in (b # sleeps, out)))"

definition connection_loop :: "round list \<Rightarrow> nat list \<times> loop_end option" where
  "connection_loop rs = ws_loop rs 5"

text \<open>The default of \<^verbatim>\<open>RAYON_NUM_THREADS\<close>; \<open>cores\<close> is \<open>None\<close> when the parallelism is unknown.\<close>

definition rayon_threads :: "nat option \<Rightarrow> nat" where
  "rayon_threads cores = max ((case cores of Some n \<Rightarrow> n | None \<Rightarrow> 4) - 2) 1"

section \<open>Facts\<close>

text \<open>The responses among the frames sent, and those an event adds to the queue.\<close>

definition sent_responses :: "send_state \<Rightarrow> from_contemplant_message list" where
  "sent_responses s = concat (map (\<lambda>f. case f of Some (True, m) \<Rightarrow> [m] | _ \<Rightarrow> []) (ss_frames s))"

fun enqueued :: "send_event \<Rightarrow> from_contemplant_message list" where
  "enqueued (Send_Response m) = [m]"
| "enqueued _ = []"

definition accounted ::
    "(from_contemplant_message \<Rightarrow> bool) \<Rightarrow> from_contemplant_message list \<Rightarrow> send_state \<Rightarrow> bool" where
  "accounted ser T s \<longleftrightarrow> (\<exists>lost. filter ser T = sent_responses s @ lost @ filter ser (ss_responses s) \<and>
     length lost \<le> 1 \<and> (lost \<noteq> [] \<longrightarrow> ss_stopped s))"

lemma sent_responses_simps [simp]:
  "sent_responses (s\<lparr>ss_frames := ss_frames s @ [f]\<rparr>) = sent_responses s @ (case f of Some (True, m) \<Rightarrow> [m] | _ \<Rightarrow> [])"
  "sent_responses (s\<lparr>ss_heartbeats := h\<rparr>) = sent_responses s" "sent_responses (s\<lparr>ss_responses := r\<rparr>) = sent_responses s"
  "sent_responses (s\<lparr>ss_heartbeats_closed := b\<rparr>) = sent_responses s" "sent_responses (s\<lparr>ss_shutdown := b\<rparr>) = sent_responses s"
  "sent_responses (send_stop s) = sent_responses s"
  by (simp_all add: sent_responses_def send_stop_def split: option.splits)

lemma accounted_stop: "accounted ser T s \<Longrightarrow> accounted ser T (send_stop s)"
  unfolding accounted_def by (auto simp: send_stop_def sent_responses_def)

lemma accounted_turn:
  assumes "accounted ser T s"
  shows "accounted ser T (send_turn ser ok s)"
proof (cases "ss_stopped s \<or> ss_shutdown s")
  case True
  then show ?thesis using assms accounted_stop [OF assms] by (auto simp: send_turn_def)
next
  case False
  then have T: "filter ser T = sent_responses s @ filter ser (ss_responses s)"
    using assms by (auto simp: accounted_def)
  have acc: "accounted ser T s'"
    if "filter ser T = sent_responses s' @ filter ser (ss_responses s')" for s'
    using that by (auto simp: accounted_def intro: exI [of _ "[]"])
  show ?thesis
  proof (cases "ss_heartbeats s")
    case (Cons hb hbs)
    have "accounted ser T (transmit ser ok False hb (s\<lparr>ss_heartbeats := hbs\<rparr>))"
      using T by (auto simp: transmit_def sent_responses_def intro!: acc accounted_stop)
    then show ?thesis using False Cons by (simp add: send_turn_def)
  next
    case Nil
    show ?thesis
    proof (cases "ss_responses s")
      case Nil': Nil
      then show ?thesis using False Nil assms accounted_stop [OF assms] by (simp add: send_turn_def)
    next
      case (Cons m ms)
      have "accounted ser T (transmit ser ok True m (s\<lparr>ss_responses := ms\<rparr>))"
      proof (cases "ser m \<and> \<not> ok")
        case True
        then have "filter ser T = sent_responses s @ [m] @ filter ser ms" using T Cons by simp
        then show ?thesis
          using True by (auto simp: accounted_def transmit_def sent_responses_def send_stop_def intro!: exI [of _ "[m]"])
      next
        case no: False
        then show ?thesis using T Cons by (auto simp: transmit_def sent_responses_def intro!: acc)
      qed
      then show ?thesis using False Nil Cons assms accounted_stop [OF assms] by (simp add: send_turn_def)
    qed
  qed
qed

lemma accounted_step:
  assumes "accounted ser T s"
  shows "accounted ser (T @ enqueued ev) (send_event_step ser ev s)"
  using assms accounted_turn [OF assms]
  by (cases ev) (auto simp: accounted_def)

lemma accounted_run:
  "accounted ser T s \<Longrightarrow> accounted ser (T @ concat (map enqueued evs)) (send_run ser evs s)"
proof (induction evs arbitrary: T s)
  case (Cons ev evs)
  from Cons.IH [OF accounted_step [OF Cons.prems]] show ?case by (simp add: send_run_def)
qed (simp add: send_run_def)

section \<open>Properties\<close>

text \<open>C25. A connection loses at most one response, the one whose write fails and ends it: of the serialisable
  responses queued before or during the connection, those sent come first and in order, and all others but that
  one are still queued for the next connection.\<close>

theorem responses_survive_connection:
  "\<exists>lost. filter ser (q @ concat (map enqueued evs)) =
       sent_responses (send_run ser evs (send_start q)) @ lost @ filter ser (ss_responses (send_run ser evs (send_start q))) \<and>
     length lost \<le> 1"
proof -
  have "accounted ser q (send_start q)" by (auto simp: accounted_def send_start_def sent_responses_def)
  from accounted_run [OF this] show ?thesis by (auto simp: accounted_def)
qed

text \<open>C26. When a connection ends, none of its tasks keeps running, with one exception: if the Magister cannot be
  asked or refuses, the function returns before the tasks it started are stopped, and all four go on.\<close>

theorem connection_tasks_end:
  assumes "connect_to_hierophant cfg le s = (res, s', running, info)"
  shows "running = (if res = Inl MagisterUnreachable \<or> res = Inl MagisterRefused then all_tasks else [])"
proof -
  have v: "err = MagisterUnreachable \<or> err = MagisterRefused" if "Inl err = verify_with_magister g ep" for g ep err
    using that by (auto simp: verify_with_magister_def split: option.splits if_splits)
  have f: "filter (\<lambda>t. t \<notin> set (completed_task x) \<and> t \<notin> set (aborted_tasks x)) all_tasks = []" for x
    by (cases x) (simp_all add: all_tasks_def)
  show ?thesis
    using assms
    by (auto simp: connect_to_hierophant_def Let_def f split: if_splits option.splits sum.splits dest: v) (metis v)
qed

definition demo_link :: "unit link_env" where
  "demo_link =
     \<lparr>le_handshake_ok = True, le_ser = (\<lambda>_. Some []), le_register_ok = True, le_magister = (\<lambda>_. Some 500),
      le_end = End_Recv, le_life = (\<lambda>s. s)\<rparr>"

theorem connection_tasks_end_witness:
  "\<exists>res s' info. connect_to_hierophant (demo_ct_config\<lparr>cc_magister_drop_endpoint := Some ''m/drop''\<rparr>) demo_link demo_ct_start
     = (res, s', all_tasks, info)"
proof -
  obtain res s' running info where
    c: "connect_to_hierophant (demo_ct_config\<lparr>cc_magister_drop_endpoint := Some ''m/drop''\<rparr>) demo_link demo_ct_start
      = (res, s', running, info)" by (metis surj_pair)
  moreover have "res = Inl MagisterRefused"
    using c by (auto simp: connect_to_hierophant_def demo_link_def verify_with_magister_def Let_def)
  ultimately show ?thesis using connection_tasks_end [OF c] by auto
qed

text \<open>While connections keep failing within a minute, the waits before reconnecting double from five seconds up
  to one minute.\<close>

theorem reconnect_backoff:
  assumes "\<forall>r \<in> set rs. \<not> rd_shutdown r \<and> rd_supported r \<noteq> [] \<and> rd_elapsed r \<le> from_secs 60"
  shows "connection_loop rs = (map (\<lambda>k. min (5 * 2 ^ k) 60) [0..<length rs], None)"
proof -
  have "ws_loop rs (min (5 * 2 ^ n) 60) = (map (\<lambda>k. min (5 * 2 ^ k) 60) [n..<n + length rs], None)" for n
    using assms
  proof (induction rs arbitrary: n)
    case (Cons r rs)
    have "min (min (5 * 2 ^ n) 60 * 2) 60 = min (5 * 2 ^ Suc n) (60 :: nat)" by auto
    moreover have "[n..<n + length (r # rs)] = n # [Suc n..<Suc n + length rs]"
      by (simp add: upt_conv_Cons del: upt_Suc)
    ultimately show ?case using Cons.IH [of "Suc n"] Cons.prems by (simp add: Let_def)
  qed simp
  from this [of 0] show ?thesis by (simp add: connection_loop_def)
qed

theorem reconnect_backoff_witness:
  "connection_loop (replicate 6 \<lparr>rd_elapsed = 1, rd_shutdown = False, rd_supported = [Vm_Sp1]\<rparr>) =
     ([5, 10, 20, 40, 60, 60], None)"
  using reconnect_backoff [of "replicate 6 \<lparr>rd_elapsed = 1, rd_shutdown = False, rd_supported = [Vm_Sp1]\<rparr>"]
  by (simp add: from_secs_def nanos_per_sec_def upt_rec)

lemma map_of_amap_insert: "amap_ok m \<Longrightarrow> map_of (amap_insert k v m) k = Some v"
  by (simp add: amap_get_iff in_amap_insert)

lemma register_worker_capabilities:
  assumes "amap_ok (rg_workers rg)"
    and "map_of (rg_workers (register_worker e addr nm vms g ov mg nonce ch rg)) addr = Some w"
  shows "ws_capabilities w = \<lparr>cap_vms = vms, cap_risc0_groth16 = g, cap_openvm_evm = ov\<rparr>"
  using assms
  by (auto simp: register_worker_def Let_def map_of_amap_insert worker_new_def split: option.splits)

lemma supported_has_executor: "vm \<in> set (supported_vms s) \<Longrightarrow> has_executor vm s"
  by (cases vm; cases "ct_sp1 s"; cases "ct_openvm s")
    (auto simp: supported_vms_def has_executor_def split: if_splits)

text \<open>C27. What a contemplant registers is what it can do: if the hierophant, after registering it, considers the worker
  able to serve a request, then the contemplant routes the request to an executor instead of leaving the
  connection, its backend is not given up, and an opt-in toolchain the request needs is enabled.\<close>

theorem registered_worker_can_execute:
  assumes "info = register_info cfg s"
    and "map_of (rg_workers (register_worker e addr (wri_name info) (wri_supported_vms info) (wri_groth16_enabled info)
           (wri_openvm_evm_enabled info) (wri_magister_drop_endpoint info) (wri_instance_nonce info) ch rg)) addr = Some w"
    and "amap_ok (rg_workers rg)" "can_serve r w"
  shows "fst (route te r s) = T_Insert \<and> request_vm r \<in> set (supported_vms s) \<and>
     (needs_groth16 r \<longrightarrow> groth16_enabled s) \<and> (needs_openvm_evm r \<longrightarrow> openvm_evm_enabled s)"
proof -
  from register_worker_capabilities [OF assms(3,2)] assms(1,4)
  have vm: "request_vm r \<in> set (supported_vms s)"
    and opt: "needs_groth16 r \<longrightarrow> groth16_enabled s" "needs_openvm_evm r \<longrightarrow> openvm_evm_enabled s"
    by (auto simp: can_serve_def supports_def register_info_def split: if_splits)
  then show ?thesis using supported_has_executor [OF vm] by (simp add: route_def Let_def)
qed

definition demo_reg_env :: env where
  "demo_reg_env = \<lparr>now_i = 0, now_s = 0, chan_open = (\<lambda>_. True), iter_order = (\<lambda>ks. ks)\<rparr>"

theorem registered_worker_can_execute_witness:
  "fst (route demo_task_env (Req_Risc0 demo_r0) demo_ct_start) = T_Insert"
proof -
  let ?i = "register_info demo_ct_config demo_ct_start"
  let ?rg = "register_worker demo_reg_env ''a'' (wri_name ?i) (wri_supported_vms ?i) (wri_groth16_enabled ?i)
    (wri_openvm_evm_enabled ?i) (wri_magister_drop_endpoint ?i) (wri_instance_nonce ?i) 0
    (registry_init default_worker_registry_config)"
  let ?w = "worker_new demo_reg_env (wri_name ?i) (wri_supported_vms ?i) (wri_groth16_enabled ?i)
    (wri_openvm_evm_enabled ?i) (wri_magister_drop_endpoint ?i) (wri_instance_nonce ?i) 0"
  have ok: "amap_ok (rg_workers (registry_init default_worker_registry_config))"
    by (simp add: registry_init_def amap_ok_def)
  have w: "map_of (rg_workers ?rg) ''a'' = Some ?w"
    by (simp add: register_worker_def registry_init_def stale_key_def entries_def demo_reg_env_def amap_insert_def)
  have "set (supported_vms demo_ct_start) = {Vm_Risc0}"
    by (simp add: supported_vms_def demo_ct_start_def contemplant_new_def demo_ct_config_def
        contemplant_config_default_def proof_store_new_def)
  then have "can_serve (Req_Risc0 demo_r0 :: unit contemplant_proof_request) ?w"
    by (simp add: can_serve_def supports_def worker_new_def register_info_def demo_r0_def)
  from registered_worker_can_execute [OF refl w ok this] show ?thesis by blast
qed

definition bad_moongate :: "prover_config \<Rightarrow> bool" where
  "bad_moongate p \<longleftrightarrow> pc_vm p = Choice_Sp1 \<and> pc_backend p = Backend_Cuda \<and> pc_moongate_endpoint p \<noteq> None"

definition fresh_executors :: "executors \<Rightarrow> bool" where
  "fresh_executors x \<longleftrightarrow> (case x of (sp, r0, ov) \<Rightarrow>
     (\<forall>y. sp = Some y \<longrightarrow> se_cuda_deaths y = 0) \<and> (\<forall>y. ov = Some y \<longrightarrow> ox_worker_deaths y = 0))"

fun executor_vms :: "executors \<Rightarrow> vm_kind set" where
  "executor_vms (sp, r0, ov) =
     (if sp = None then {} else {Vm_Sp1}) \<union> (if r0 = None then {} else {Vm_Risc0}) \<union>
     (if ov = None then {} else {Vm_OpenVm})"

lemma build_executors_None: "build_executors se t ps x = None \<longleftrightarrow> (\<exists>p \<in> set ps. bad_moongate p)"
proof (induction se t ps x rule: build_executors.induct)
  case (2 se t p ps sp r0 ov)
  then show ?case
    by (cases "pc_vm p"; cases "pc_backend p"; cases "pc_moongate_endpoint p")
      (simp_all add: bad_moongate_def build_sp1_active_def)
qed simp

lemma build_executors_Some:
  "build_executors se t ps x = Some y \<Longrightarrow> fresh_executors x \<Longrightarrow>
   fresh_executors y \<and> executor_vms y = executor_vms x \<union> vm_choice_kind ` pc_vm ` set ps"
proof (induction se t ps x rule: build_executors.induct)
  case (2 se t p ps sp r0 ov)
  then show ?case
    by (cases "pc_vm p")
      (auto simp: fresh_executors_def openvm_executor_new_def split: option.splits)
qed simp

lemma supported_vms_fresh:
  "fresh_executors (ct_sp1 s, ct_risc0 s, ct_openvm s) \<Longrightarrow>
   set (supported_vms s) = executor_vms (ct_sp1 s, ct_risc0 s, ct_openvm s)"
  by (auto simp: fresh_executors_def supported_vms_def backend_permanently_dead_def worker_permanently_dead_def
      MAX_CONSECUTIVE_CUDA_DEATHS_def MAX_CONSECUTIVE_WORKER_DEATHS_def split: option.splits)

text \<open>C28. A configuration that loads gives a contemplant that serves exactly the machines it names, at least one; the
  process panics at start-up only for a store without slots or an SP1 CUDA prover with a moongate endpoint.\<close>

theorem loaded_config_serves:
  assumes "contemplant_config_load risc0_cuda nm toml f env = Inr cfg"
  shows "(contemplant_new se nonce cfg = (None :: 's contemplant option) \<longleftrightarrow>
       cc_max_proofs_stored cfg = 0 \<or> (\<exists>p \<in> set (cc_provers cfg). bad_moongate p)) \<and>
     (\<forall>s. contemplant_new se nonce cfg = Some (s :: 's contemplant) \<longrightarrow>
       set (supported_vms s) = vm_choice_kind ` pc_vm ` set (cc_provers cfg) \<and> supported_vms s \<noteq> [])"
proof (intro conjI allI impI)
  show "contemplant_new se nonce cfg = (None :: 's contemplant option) \<longleftrightarrow>
      cc_max_proofs_stored cfg = 0 \<or> (\<exists>p \<in> set (cc_provers cfg). bad_moongate p)"
    using build_executors_None [of se "cc_compute_proof_totals cfg" "cc_provers cfg" "(None, None, None)"]
    by (auto simp: contemplant_new_def proof_store_new_def split: option.splits)
  fix s :: "'s contemplant" assume new: "contemplant_new se nonce cfg = Some s"
  have fresh: "fresh_executors (None, None, None)" by (simp add: fresh_executors_def)
  from new have "build_executors se (cc_compute_proof_totals cfg) (cc_provers cfg) (None, None, None) =
      Some (ct_sp1 s, ct_risc0 s, ct_openvm s)"
    by (auto simp: contemplant_new_def split: option.splits)
  from build_executors_Some [OF this fresh] supported_vms_fresh [of s]
  show vms: "set (supported_vms s) = vm_choice_kind ` pc_vm ` set (cc_provers cfg)" by simp
  have "cc_provers cfg \<noteq> []"
    using assms by (auto simp: contemplant_config_load_def sbind_Inr split: if_splits)
  then show "supported_vms s \<noteq> []" using vms by auto
qed

theorem loaded_config_serves_witness:
  "\<exists>s :: unit contemplant. contemplant_new None 0 demo_ct_config = Some s \<and> supported_vms s \<noteq> []"
proof -
  have "contemplant_config_load False ''c'' (\<lambda>_. Some demo_ct_config) (FileText []) (\<lambda>_. None) = Inr demo_ct_config"
    by (simp add: contemplant_config_load_def load_base_def contemplant_overrides_def env_set_def provers_from_env_def
        demo_ct_config_def contemplant_config_default_def)
  moreover have "contemplant_new None 0 demo_ct_config = Some demo_ct_start"
    by (simp add: demo_ct_start_def contemplant_new_def demo_ct_config_def contemplant_config_default_def proof_store_new_def)
  ultimately show ?thesis using loaded_config_serves by blast
qed

end
