(* ===== verification/Entry_Points.thy ===== *)
theory Entry_Points
  imports Contemplant_Link
begin

text \<open>
  The two processes from the loaded configuration to their end: \<^verbatim>\<open>hierophant/src/main.rs\<close> and
  \<^verbatim>\<open>contemplant/src/main.rs\<close>. Each is a machine whose events are the progress of the main function, of the signal
  task, of the servers and of the connection thread, in any order. A broadcast reaches the receivers subscribed by
  then; a signal handler, once installed, stays installed for the life of the process.
\<close>

section \<open>Signals and servers\<close>

datatype unix_signal = SIGINT | SIGTERM

text \<open>
  The signal task: not yet run, waiting, or done after its broadcast. The flag says that the handler of \<open>SIGTERM\<close>
  was installed.
\<close>

datatype signal_phase = Sig_Starting | Sig_Waiting bool | Sig_Done bool

datatype signal_effect = Sig_Ignored | Sig_Broadcast | Sig_Killed

fun on_signal :: "unix_signal \<Rightarrow> signal_phase \<Rightarrow> signal_phase \<times> signal_effect" where
  "on_signal sig Sig_Starting = (Sig_Starting, Sig_Killed)"
| "on_signal sig (Sig_Waiting sigterm) =
     (if sig = SIGTERM \<and> \<not> sigterm then (Sig_Waiting sigterm, Sig_Killed) else (Sig_Done sigterm, Sig_Broadcast))"
| "on_signal sig (Sig_Done sigterm) =
     (Sig_Done sigterm, if sig = SIGTERM \<and> \<not> sigterm then Sig_Killed else Sig_Ignored)"

text \<open>An error of the \<open>SIGINT\<close> future also leads to the broadcast.\<close>

fun on_sigint_error :: "signal_phase \<Rightarrow> signal_phase \<times> signal_effect" where
  "on_sigint_error (Sig_Waiting sigterm) = (Sig_Done sigterm, Sig_Broadcast)"
| "on_sigint_error p = (p, Sig_Ignored)"

text \<open>\<open>sv_told\<close>: the broadcast has reached the server, which then finishes the open connections.\<close>

datatype server_end = Server_Finished | Server_Failed

record server =
  sv_subscribed :: bool
  sv_told :: bool
  sv_end :: "server_end option"

definition new_server :: server where
  "new_server = \<lparr>sv_subscribed = False, sv_told = False, sv_end = None\<rparr>"

definition broadcast_to :: "server \<Rightarrow> server" where
  "broadcast_to sv = sv\<lparr>sv_told := sv_told sv \<or> sv_subscribed sv\<rparr>"

text \<open>A server ends regularly only after it was told to; it may fail at any time (binding, serving).\<close>

definition end_server :: "server_end \<Rightarrow> server \<Rightarrow> server" where
  "end_server r sv =
     (if sv_end sv \<noteq> None \<or> (r = Server_Finished \<and> \<not> sv_told sv) then sv else sv\<lparr>sv_end := Some r\<rparr>)"

datatype exit_status = Exit_Success | Exit_Failure | Exit_Killed

section \<open>The hierophant\<close>

text \<open>Where the main function is: before its subscriptions, between them, in the final \<^verbatim>\<open>select!\<close>.\<close>

datatype main_phase = Main_Starting | Main_Halfway | Main_Select

record hierophant_process =
  hp_main :: main_phase
  hp_signal :: signal_phase
  hp_grpc :: server
  hp_http :: server
  hp_exit :: "exit_status option"

datatype hierophant_event =
    H_Main
  | H_Signal_Task bool
  | H_Signal unix_signal
  | H_Sigint_Error
  | H_Grpc_End server_end
  | H_Http_End server_end

text \<open>Start-up: a configuration that does not load ends the process with an error.\<close>

definition hierophant_start :: "config_error + 'a hierophant_config \<Rightarrow> hierophant_process" where
  "hierophant_start config =
     \<lparr>hp_main = Main_Starting, hp_signal = Sig_Starting, hp_grpc = new_server, hp_http = new_server,
      hp_exit = (case config of Inl _ \<Rightarrow> Some Exit_Failure | Inr _ \<Rightarrow> None)\<rparr>"

text \<open>The final \<^verbatim>\<open>select!\<close>: whichever server ends first ends the process, whatever its result.\<close>

definition hierophant_select :: "hierophant_process \<Rightarrow> hierophant_process" where
  "hierophant_select s =
     (if hp_main s = Main_Select \<and> (sv_end (hp_grpc s) \<noteq> None \<or> sv_end (hp_http s) \<noteq> None)
      then s\<lparr>hp_exit := Some Exit_Success\<rparr> else s)"

definition hierophant_broadcast :: "signal_phase \<times> signal_effect \<Rightarrow> hierophant_process \<Rightarrow> hierophant_process" where
  "hierophant_broadcast pe s = (case snd pe of
       Sig_Ignored \<Rightarrow> s\<lparr>hp_signal := fst pe\<rparr>
     | Sig_Broadcast \<Rightarrow>
         s\<lparr>hp_signal := fst pe, hp_grpc := broadcast_to (hp_grpc s), hp_http := broadcast_to (hp_http s)\<rparr>
     | Sig_Killed \<Rightarrow> s\<lparr>hp_exit := Some Exit_Killed\<rparr>)"

text \<open>The gRPC server runs inside the \<^verbatim>\<open>select!\<close>; the HTTP server is spawned after its subscription.\<close>

fun hierophant_event_step :: "hierophant_event \<Rightarrow> hierophant_process \<Rightarrow> hierophant_process" where
  "hierophant_event_step H_Main s = (case hp_main s of
       Main_Starting \<Rightarrow> s\<lparr>hp_main := Main_Halfway, hp_grpc := (hp_grpc s)\<lparr>sv_subscribed := True\<rparr>\<rparr>
     | Main_Halfway \<Rightarrow> s\<lparr>hp_main := Main_Select, hp_http := (hp_http s)\<lparr>sv_subscribed := True\<rparr>\<rparr>
     | Main_Select \<Rightarrow> s)"
| "hierophant_event_step (H_Signal_Task sigterm) s =
     (if hp_signal s = Sig_Starting then s\<lparr>hp_signal := Sig_Waiting sigterm\<rparr> else s)"
| "hierophant_event_step (H_Signal sig) s = hierophant_broadcast (on_signal sig (hp_signal s)) s"
| "hierophant_event_step H_Sigint_Error s = hierophant_broadcast (on_sigint_error (hp_signal s)) s"
| "hierophant_event_step (H_Grpc_End r) s =
     (if hp_main s = Main_Select then s\<lparr>hp_grpc := end_server r (hp_grpc s)\<rparr> else s)"
| "hierophant_event_step (H_Http_End r) s =
     (if hp_main s = Main_Select then s\<lparr>hp_http := end_server r (hp_http s)\<rparr> else s)"

definition hierophant_step :: "hierophant_event \<Rightarrow> hierophant_process \<Rightarrow> hierophant_process" where
  "hierophant_step ev s =
     (if hp_exit s \<noteq> None then s
      else (let s' = hierophant_event_step ev s in if hp_exit s' \<noteq> None then s' else hierophant_select s'))"

definition hierophant_run :: "hierophant_event list \<Rightarrow> hierophant_process \<Rightarrow> hierophant_process" where
  "hierophant_run evs s = fold hierophant_step evs s"

section \<open>The contemplant\<close>

text \<open>
  The thread of the connection: not yet at its loop; in the loop with the next backoff and whether the broadcast has
  reached the receiver of the loop; ended, which the main function is told through a channel.
\<close>

datatype ws_thread = Ws_Not_Spawned | Ws_Starting | Ws_Looping nat bool | Ws_Ended "loop_end option"

record contemplant_process =
  cp_main :: main_phase
  cp_signal :: signal_phase
  cp_ws :: ws_thread
  cp_http :: server
  cp_exit :: "exit_status option"

datatype contemplant_main_event =
    C_Spawn_Ws bool
  | C_Main
  | C_Signal_Task bool
  | C_Signal unix_signal
  | C_Sigint_Error
  | C_Ws_Start bool
  | C_Ws_Round duration "vm_kind list"
  | C_Http_End server_end

text \<open>Start-up ends with an error if the configuration does not load or \<^verbatim>\<open>WorkerState::new\<close> panics (\<open>None\<close>).\<close>

definition contemplant_main_start :: "config_error + contemplant_config \<Rightarrow> 's contemplant option \<Rightarrow> contemplant_process" where
  "contemplant_main_start config state =
     \<lparr>cp_main = Main_Starting, cp_signal = Sig_Starting, cp_ws = Ws_Not_Spawned, cp_http = new_server,
      cp_exit = (case (config, state) of (Inr _, Some _) \<Rightarrow> None | _ \<Rightarrow> Some Exit_Failure)\<rparr>"

fun ws_ended :: "ws_thread \<Rightarrow> bool" where
  "ws_ended (Ws_Ended _) = True"
| "ws_ended _ = False"

definition contemplant_main_select :: "contemplant_process \<Rightarrow> contemplant_process" where
  "contemplant_main_select s =
     (if cp_main s = Main_Select \<and> (ws_ended (cp_ws s) \<or> sv_end (cp_http s) \<noteq> None)
      then s\<lparr>cp_exit := Some Exit_Success\<rparr> else s)"

fun broadcast_to_ws :: "ws_thread \<Rightarrow> ws_thread" where
  "broadcast_to_ws (Ws_Looping backoff _) = Ws_Looping backoff True"
| "broadcast_to_ws w = w"

definition contemplant_broadcast :: "signal_phase \<times> signal_effect \<Rightarrow> contemplant_process \<Rightarrow> contemplant_process" where
  "contemplant_broadcast pe s = (case snd pe of
       Sig_Ignored \<Rightarrow> s\<lparr>cp_signal := fst pe\<rparr>
     | Sig_Broadcast \<Rightarrow>
         s\<lparr>cp_signal := fst pe, cp_ws := broadcast_to_ws (cp_ws s), cp_http := broadcast_to (cp_http s)\<rparr>
     | Sig_Killed \<Rightarrow> s\<lparr>cp_exit := Some Exit_Killed\<rparr>)"

text \<open>One pass of the reconnect loop after a connection of the given duration.\<close>

fun ws_round :: "duration \<Rightarrow> vm_kind list \<Rightarrow> ws_thread \<Rightarrow> ws_thread" where
  "ws_round lasted supported (Ws_Looping backoff told) =
     (case ws_loop [\<lparr>rd_elapsed = lasted, rd_shutdown = told, rd_supported = supported\<rparr>] backoff of
        (_, Some e) \<Rightarrow> Ws_Ended (Some e)
      | (sleeps, None) \<Rightarrow> Ws_Looping (min (hd sleeps * 2) 60) told)"
| "ws_round lasted supported w = w"

text \<open>\<open>C_Spawn_Ws\<close>: the thread is spawned, or the operating system refuses, which \<^verbatim>\<open>?\<close> returns.\<close>

fun contemplant_main_event_step :: "contemplant_main_event \<Rightarrow> contemplant_process \<Rightarrow> contemplant_process" where
  "contemplant_main_event_step (C_Spawn_Ws ok) s =
     (if cp_main s = Main_Starting
      then (if ok then s\<lparr>cp_main := Main_Halfway, cp_ws := Ws_Starting\<rparr> else s\<lparr>cp_exit := Some Exit_Failure\<rparr>)
      else s)"
| "contemplant_main_event_step C_Main s =
     (if cp_main s = Main_Halfway
      then s\<lparr>cp_main := Main_Select, cp_http := (cp_http s)\<lparr>sv_subscribed := True\<rparr>\<rparr> else s)"
| "contemplant_main_event_step (C_Signal_Task sigterm) s =
     (if cp_signal s = Sig_Starting then s\<lparr>cp_signal := Sig_Waiting sigterm\<rparr> else s)"
| "contemplant_main_event_step (C_Signal sig) s = contemplant_broadcast (on_signal sig (cp_signal s)) s"
| "contemplant_main_event_step C_Sigint_Error s = contemplant_broadcast (on_sigint_error (cp_signal s)) s"
| "contemplant_main_event_step (C_Ws_Start runtime_ok) s =
     (if cp_ws s = Ws_Starting then s\<lparr>cp_ws := (if runtime_ok then Ws_Looping 5 False else Ws_Ended None)\<rparr> else s)"
| "contemplant_main_event_step (C_Ws_Round lasted supported) s = s\<lparr>cp_ws := ws_round lasted supported (cp_ws s)\<rparr>"
| "contemplant_main_event_step (C_Http_End r) s =
     (if cp_main s = Main_Select then s\<lparr>cp_http := end_server r (cp_http s)\<rparr> else s)"

definition contemplant_main_step :: "contemplant_main_event \<Rightarrow> contemplant_process \<Rightarrow> contemplant_process" where
  "contemplant_main_step ev s =
     (if cp_exit s \<noteq> None then s
      else (let s' = contemplant_main_event_step ev s in if cp_exit s' \<noteq> None then s' else contemplant_main_select s'))"

definition contemplant_main_run :: "contemplant_main_event list \<Rightarrow> contemplant_process \<Rightarrow> contemplant_process" where
  "contemplant_main_run evs s = fold contemplant_main_step evs s"

section \<open>What the processes share\<close>

text \<open>A process does nothing after its end, and every event keeps its invariant.\<close>

locale process =
  fixes step :: "'e \<Rightarrow> 's \<Rightarrow> 's"
    and exited :: "'s \<Rightarrow> exit_status option"
    and inv :: "'s \<Rightarrow> bool"
  assumes exited_step: "exited s \<noteq> None \<Longrightarrow> step ev s = s"
    and inv_step: "inv s \<Longrightarrow> inv (step ev s)"
begin

lemma run_inv: "inv s \<Longrightarrow> inv (fold step evs s)"
  by (induction evs arbitrary: s) (simp_all add: inv_step)

lemma run_exited: "exited s \<noteq> None \<Longrightarrow> fold step evs s = s"
  by (induction evs) (simp_all add: exited_step)

text \<open>A property kept by the allowed events of a running process.\<close>

lemma run_while:
  assumes "P s" "\<And>ev s. P s \<Longrightarrow> ev \<in> E \<Longrightarrow> P (step ev s)" "set evs \<subseteq> E"
  shows "P (fold step evs s)"
  using assms(1,3) by (induction evs arbitrary: s) (auto intro: assms(2))

end

fun server_ok :: "signal_phase \<Rightarrow> server \<Rightarrow> bool" where
  "server_ok p sv \<longleftrightarrow> (sv_end sv = Some Server_Finished \<longrightarrow> sv_told sv) \<and> (sv_told sv \<longrightarrow> (\<exists>b. p = Sig_Done b))"

definition hierophant_inv :: "hierophant_process \<Rightarrow> bool" where
  "hierophant_inv s \<longleftrightarrow>
     hp_exit s \<noteq> Some Exit_Failure \<and>
     (hp_exit s = Some Exit_Success \<longleftrightarrow> sv_end (hp_grpc s) \<noteq> None \<or> sv_end (hp_http s) \<noteq> None) \<and>
     (sv_end (hp_grpc s) \<noteq> None \<or> sv_end (hp_http s) \<noteq> None \<longrightarrow> hp_main s = Main_Select) \<and>
     server_ok (hp_signal s) (hp_grpc s) \<and> server_ok (hp_signal s) (hp_http s)"

lemma server_ok_subscribe [simp]: "server_ok p (sv\<lparr>sv_subscribed := b\<rparr>) = server_ok p sv"
  by simp

lemma server_ok_done: "server_ok p sv \<Longrightarrow> server_ok (Sig_Done b) (broadcast_to sv)"
  by (auto simp: broadcast_to_def)

lemma server_ok_end: "server_ok p sv \<Longrightarrow> server_ok p (end_server r sv)"
  by (auto simp: end_server_def)

lemma server_ok_starting: "server_ok Sig_Starting sv \<Longrightarrow> server_ok p sv"
  by auto

lemma server_ok_new: "server_ok p new_server"
  by (simp add: new_server_def)

declare server_ok.simps [simp del]

lemma broadcast_to_end [simp]: "sv_end (broadcast_to sv) = sv_end sv"
  by (simp add: broadcast_to_def)

text \<open>After a signal: nothing, the broadcast and the end of the task, or the end of the process.\<close>

lemma on_signal_effects:
  "snd (on_signal sig p) = Sig_Killed \<or> on_signal sig p = (p, Sig_Ignored) \<or>
     (\<exists>b. on_signal sig p = (Sig_Done b, Sig_Broadcast))"
  by (cases p) simp_all

lemma on_sigint_error_effects:
  "on_sigint_error p = (p, Sig_Ignored) \<or> (\<exists>b. on_sigint_error p = (Sig_Done b, Sig_Broadcast))"
  by (cases p) simp_all

text \<open>Between an event and the \<^verbatim>\<open>select!\<close> that follows it.\<close>

definition hierophant_mid :: "hierophant_process \<Rightarrow> bool" where
  "hierophant_mid s \<longleftrightarrow>
     (hp_exit s = None \<or> hp_exit s = Some Exit_Killed \<and> sv_end (hp_grpc s) = None \<and> sv_end (hp_http s) = None) \<and>
     (sv_end (hp_grpc s) \<noteq> None \<or> sv_end (hp_http s) \<noteq> None \<longrightarrow> hp_main s = Main_Select) \<and>
     server_ok (hp_signal s) (hp_grpc s) \<and> server_ok (hp_signal s) (hp_http s)"

lemma hierophant_mid_select:
  assumes "hierophant_mid s"
  shows "hierophant_inv (if hp_exit s \<noteq> None then s else hierophant_select s)"
proof (cases "hp_exit s")
  case None
  show ?thesis
  proof (cases "sv_end (hp_grpc s) = None \<and> sv_end (hp_http s) = None")
    case True
    with None assms show ?thesis by (simp add: hierophant_mid_def hierophant_select_def hierophant_inv_def)
  next
    case False
    then have "hp_main s = Main_Select" using assms unfolding hierophant_mid_def by blast
    with False None assms show ?thesis by (simp add: hierophant_mid_def hierophant_select_def hierophant_inv_def)
  qed
qed (use assms in \<open>simp add: hierophant_mid_def hierophant_inv_def\<close>)

lemma hierophant_broadcast_mid:
  assumes "hp_exit s = None" "sv_end (hp_grpc s) = None" "sv_end (hp_http s) = None"
    "server_ok (hp_signal s) (hp_grpc s)" "server_ok (hp_signal s) (hp_http s)"
    "snd pe = Sig_Killed \<or> pe = (hp_signal s, Sig_Ignored) \<or> (\<exists>b. pe = (Sig_Done b, Sig_Broadcast))"
  shows "hierophant_mid (hierophant_broadcast pe s)"
  using assms(6) assms(1-3) server_ok_done [OF assms(4)] server_ok_done [OF assms(5)] assms(4,5)
  by (elim disjE exE) (simp_all add: hierophant_broadcast_def hierophant_mid_def)

lemma hierophant_event_mid:
  assumes "hierophant_inv s" "hp_exit s = None"
  shows "hierophant_mid (hierophant_event_step ev s)"
proof -
  have s: "sv_end (hp_grpc s) = None" "sv_end (hp_http s) = None" "server_ok (hp_signal s) (hp_grpc s)"
    "server_ok (hp_signal s) (hp_http s)"
    using assms by (simp_all add: hierophant_inv_def)
  show ?thesis
  proof (cases ev)
    case H_Main
    with assms(2) s show ?thesis by (cases "hp_main s") (simp_all add: hierophant_mid_def)
  next
    case (H_Signal_Task b)
    with assms(2) s show ?thesis
      using server_ok_starting [of "hp_grpc s"] server_ok_starting [of "hp_http s"] by (auto simp: hierophant_mid_def)
  next
    case (H_Signal sig)
    then show ?thesis using hierophant_broadcast_mid [OF assms(2) s on_signal_effects] by simp
  next
    case H_Sigint_Error
    then show ?thesis using hierophant_broadcast_mid [OF assms(2) s disjI2 [OF on_sigint_error_effects]] by simp
  qed (use assms(2) s server_ok_end in \<open>auto simp: hierophant_mid_def\<close>)
qed

interpretation hierophant_proc: process hierophant_step hp_exit hierophant_inv
proof
  fix s ev
  show "hp_exit s \<noteq> None \<Longrightarrow> hierophant_step ev s = s" by (simp add: hierophant_step_def)
  assume "hierophant_inv s"
  then show "hierophant_inv (hierophant_step ev s)"
    using hierophant_mid_select [OF hierophant_event_mid [of s ev]] by (cases "hp_exit s") (simp_all add: hierophant_step_def Let_def)
qed

lemma hierophant_start_inv: "hierophant_inv (hierophant_start (Inr cfg))"
  by (simp add: hierophant_inv_def hierophant_start_def server_ok_new) (simp add: new_server_def)

text \<open>The contemplant: the main function is in its \<^verbatim>\<open>select!\<close> with neither part ended, or before it, or over.\<close>

definition contemplant_main_inv :: "contemplant_process \<Rightarrow> bool" where
  "contemplant_main_inv s \<longleftrightarrow>
     (cp_main s = Main_Starting \<longrightarrow> cp_ws s = Ws_Not_Spawned) \<and> (cp_main s \<noteq> Main_Select \<longrightarrow> sv_end (cp_http s) = None) \<and>
     (cp_exit s = None \<and> cp_main s = Main_Select \<longrightarrow> \<not> ws_ended (cp_ws s) \<and> sv_end (cp_http s) = None)"

definition contemplant_main_mid :: "contemplant_process \<Rightarrow> bool" where
  "contemplant_main_mid s \<longleftrightarrow> (cp_main s = Main_Starting \<longrightarrow> cp_ws s = Ws_Not_Spawned) \<and>
     (cp_main s \<noteq> Main_Select \<longrightarrow> sv_end (cp_http s) = None)"

lemma contemplant_main_mid_select:
  "contemplant_main_mid s \<Longrightarrow> contemplant_main_inv (if cp_exit s \<noteq> None then s else contemplant_main_select s)"
  by (auto simp: contemplant_main_mid_def contemplant_main_select_def contemplant_main_inv_def)

lemma ws_round_not_spawned [simp]: "ws_round d vms Ws_Not_Spawned = Ws_Not_Spawned"
  by simp

lemma contemplant_main_event_mid:
  assumes "contemplant_main_inv s"
  shows "contemplant_main_mid (contemplant_main_event_step ev s)"
  using assms by (cases ev) (auto simp: contemplant_main_inv_def contemplant_main_mid_def contemplant_broadcast_def split: signal_effect.splits)

interpretation contemplant_proc: process contemplant_main_step cp_exit contemplant_main_inv
proof
  fix s ev
  show "cp_exit s \<noteq> None \<Longrightarrow> contemplant_main_step ev s = s" by (simp add: contemplant_main_step_def)
  assume "contemplant_main_inv s"
  then show "contemplant_main_inv (contemplant_main_step ev s)"
    using contemplant_main_mid_select [OF contemplant_main_event_mid [of s ev]]
    by (cases "cp_exit s") (simp_all add: contemplant_main_step_def Let_def)
qed

lemma contemplant_main_start_inv: "contemplant_main_inv (contemplant_main_start (Inr cfg) (Some c0))"
  by (simp add: contemplant_main_inv_def contemplant_main_start_def new_server_def)

section \<open>Properties\<close>

text \<open>Once its configuration is loaded the hierophant never reports a failure: it ends with success exactly when
  one of its two servers has ended, also when that server could not bind its port or failed while serving.\<close>

theorem hierophant_exit_exact:
  "hp_exit (hierophant_run evs (hierophant_start (Inr cfg))) \<noteq> Some Exit_Failure \<and>
   (hp_exit (hierophant_run evs (hierophant_start (Inr cfg))) = Some Exit_Success \<longleftrightarrow>
    \<not> (sv_end (hp_grpc (hierophant_run evs (hierophant_start (Inr cfg)))) = None \<and>
       sv_end (hp_http (hierophant_run evs (hierophant_start (Inr cfg)))) = None))"
  using hierophant_proc.run_inv [OF hierophant_start_inv, of evs cfg] unfolding hierophant_run_def hierophant_inv_def by blast

text \<open>A signal handled before the servers have subscribed leaves nothing that could still stop them.\<close>

definition unstoppable :: "hierophant_process \<Rightarrow> bool" where
  "unstoppable s \<longleftrightarrow> hp_signal s = Sig_Done True \<and> \<not> sv_told (hp_grpc s) \<and> \<not> sv_told (hp_http s) \<and>
     sv_end (hp_grpc s) = None \<and> sv_end (hp_http s) = None \<and> hp_exit s = None"

lemma unstoppable_step:
  assumes "unstoppable s" "ev \<in> - {H_Grpc_End Server_Failed, H_Http_End Server_Failed}"
  shows "unstoppable (hierophant_step ev s)"
proof -
  have "unstoppable (hierophant_event_step ev s)"
  proof (cases ev)
    case H_Main
    with assms(1) show ?thesis by (cases "hp_main s") (simp_all add: unstoppable_def)
  next
    case (H_Grpc_End r)
    with assms show ?thesis by (cases r) (simp_all add: unstoppable_def end_server_def)
  next
    case (H_Http_End r)
    with assms show ?thesis by (cases r) (simp_all add: unstoppable_def end_server_def)
  qed (use assms(1) in \<open>simp_all add: unstoppable_def hierophant_broadcast_def\<close>)
  then show ?thesis using assms(1) by (simp add: hierophant_step_def Let_def hierophant_select_def unstoppable_def)
qed

text \<open>A signal that arrives after the signal task has started but before the servers have subscribed to the
  shutdown is lost for good: the process then survives every later signal, until a server fails.\<close>

theorem early_signal_lost:
  assumes "H_Grpc_End Server_Failed \<notin> set evs" "H_Http_End Server_Failed \<notin> set evs"
  shows "hp_exit (hierophant_run ([H_Signal_Task True, H_Signal sig] @ evs) (hierophant_start (Inr cfg))) = None"
proof -
  have start: "unstoppable (hierophant_run [H_Signal_Task True, H_Signal sig] (hierophant_start (Inr cfg)))"
    by (simp add: unstoppable_def hierophant_run_def hierophant_start_def hierophant_step_def hierophant_select_def Let_def
        hierophant_broadcast_def broadcast_to_def new_server_def)
  have "unstoppable (fold hierophant_step evs (hierophant_run [H_Signal_Task True, H_Signal sig] (hierophant_start (Inr cfg))))"
    by (rule hierophant_proc.run_while [where P = unstoppable, OF start unstoppable_step]) (use assms in auto)
  then show ?thesis by (simp add: unstoppable_def hierophant_run_def)
qed

theorem early_signal_lost_witness:
  "hp_exit (hierophant_run ([H_Signal_Task True, H_Signal SIGTERM] @ [H_Main, H_Main, H_Signal SIGTERM, H_Signal SIGINT])
     (hierophant_start (Inr (hierophant_config_default [])))) = None"
  by (rule early_signal_lost) simp_all

text \<open>A signal during normal operation tells both servers to finish; the process ends as soon as one of them has,
  while the other may still have open connections.\<close>

theorem shutdown_waits_for_one_server:
  assumes "hp_main s = Main_Select" "hp_exit s = None" "hp_signal s = Sig_Waiting sigterm" "sig = SIGINT \<or> sigterm"
    "sv_subscribed (hp_grpc s)" "sv_subscribed (hp_http s)" "sv_end (hp_grpc s) = None" "sv_end (hp_http s) = None"
  shows "sv_told (hp_grpc (hierophant_step (H_Signal sig) s)) \<and> sv_told (hp_http (hierophant_step (H_Signal sig) s)) \<and>
     hp_exit (hierophant_step (H_Signal sig) s) = None \<and>
     hp_exit (hierophant_run [H_Signal sig, H_Http_End Server_Finished] s) = Some Exit_Success \<and>
     sv_end (hp_grpc (hierophant_run [H_Signal sig, H_Http_End Server_Finished] s)) = None"
proof -
  have "on_signal sig (hp_signal s) = (Sig_Done sigterm, Sig_Broadcast)" using assms(3,4) by auto
  then show ?thesis using assms
    by (simp add: hierophant_run_def hierophant_step_def Let_def hierophant_broadcast_def hierophant_select_def
        broadcast_to_def end_server_def)
qed

theorem shutdown_waits_for_one_server_witness:
  "hp_exit (hierophant_run [H_Signal SIGTERM, H_Http_End Server_Finished]
     (hierophant_run [H_Signal_Task True, H_Main, H_Main] (hierophant_start (Inr (hierophant_config_default []))))) = Some Exit_Success"
  by (rule shutdown_waits_for_one_server [where sigterm = True and sig = SIGTERM, THEN conjunct2, THEN conjunct2,
        THEN conjunct2, THEN conjunct1])
    (simp_all add: hierophant_run_def hierophant_step_def Let_def hierophant_start_def hierophant_select_def new_server_def)

text \<open>C40. A contemplant with no proving capability left does not stay parked: when its connection loop ends for that
  reason, the process ends at the latest when its main function gets to its final select.\<close>

theorem parked_contemplant_exits:
  assumes "cp_ws (contemplant_main_run evs (contemplant_main_start (Inr cfg) (Some c0))) = Ws_Looping backoff told" "supported_vms c = []"
  shows "cp_exit (contemplant_main_run [C_Ws_Round lasted (supported_vms c), C_Main]
     (contemplant_main_run evs (contemplant_main_start (Inr cfg) (Some c0)))) \<noteq> None"
proof -
  define s where "s = contemplant_main_run evs (contemplant_main_start (Inr cfg) (Some c0))"
  have inv: "contemplant_main_inv s"
    using contemplant_proc.run_inv [OF contemplant_main_start_inv, of evs cfg c0] by (simp add: s_def contemplant_main_run_def)
  have ws: "cp_ws s = Ws_Looping backoff told" using assms(1) by (simp add: s_def)
  show ?thesis
  proof (cases "cp_exit s")
    case None
    have ended: "ws_ended (ws_round lasted [] (Ws_Looping backoff told))" by simp
    have "cp_main s = Main_Halfway \<or> cp_main s = Main_Select"
      using inv ws by (cases "cp_main s") (simp_all add: contemplant_main_inv_def)
    then have "cp_exit (contemplant_main_run [C_Ws_Round lasted [], C_Main] s) \<noteq> None"
      using None ws ended
      by (elim disjE) (simp_all add: contemplant_main_run_def contemplant_main_step_def Let_def contemplant_main_select_def del: ws_round.simps)
    then show ?thesis using assms(2) by (simp add: s_def)
  next
    case (Some x)
    then show ?thesis using contemplant_proc.run_exited [of s "[C_Ws_Round lasted (supported_vms c), C_Main]"]
      unfolding s_def contemplant_main_run_def by simp
  qed
qed

theorem parked_contemplant_exits_witness:
  "cp_exit (contemplant_main_run [C_Ws_Round 0 (supported_vms (demo_ct_start\<lparr>ct_sp1 := Some (demo_cuda\<lparr>se_cuda_deaths := 3\<rparr>),
       ct_risc0 := None, ct_openvm := None\<rparr>)), C_Main]
     (contemplant_main_run [C_Spawn_Ws True, C_Ws_Start True] (contemplant_main_start (Inr demo_ct_config) (Some demo_ct_start)))) \<noteq> None"
  by (rule parked_contemplant_exits [where backoff = 5 and told = False])
    (simp_all add: contemplant_main_run_def contemplant_main_step_def Let_def contemplant_main_start_def contemplant_main_select_def new_server_def
      supported_vms_def backend_permanently_dead_def MAX_CONSECUTIVE_CUDA_DEATHS_def)

end
