(* ===== verification/Worker_Socket.thy ===== *)
theory Worker_Socket
  imports Contemplant_Link
begin

text \<open>
  A websocket of a contemplant at the hierophant as a whole (\<^verbatim>\<open>ws_handler\<close> of \<^verbatim>\<open>api/http.rs\<close> and \<^verbatim>\<open>handle_socket\<close> of
  \<^verbatim>\<open>api/websocket.rs\<close>): the two tasks interleave, and the one that ends first aborts the other. Each task alone is in
  \<open>Registry_Client\<close> (\<open>recv_task\<close>, \<open>send_task\<close>).
\<close>

section \<open>Definitions\<close>

definition one_hundred_mb :: nat where
  "one_hundred_mb = 100 * 1024 * 1024"

text \<open>What the receiver yields for a message, with the limits set at the upgrade: an error (\<open>None\<close>) above them.\<close>

definition ws_handler :: "ws_message \<Rightarrow> ws_message option" where
  "ws_handler msg = (case msg of
       WsBinary bs \<Rightarrow> if length bs > one_hundred_mb then None else Some msg
     | _ \<Rightarrow> Some msg)"

datatype task_state = Task_Running | Task_Finished | Task_Aborted

record 's socket_session =
  sk_recv :: task_state
  sk_send :: task_state
  sk_commands :: "'s cmds"
  sk_frames :: "bytes option list"

text \<open>
  A message arrives, the stream fails, or it ends; a message of the registry is taken from the channel and written, or
  the write fails. The receiving task holds a sender of the channel, so the channel stays open while it runs.
\<close>

datatype 's socket_event =
    Sk_Message ws_env ws_message
  | Sk_Error
  | Sk_End
  | Sk_Outgoing "'s from_hierophant_message" bool

definition session_start :: "'s socket_session" where
  "session_start = \<lparr>sk_recv = Task_Running, sk_send = Task_Running, sk_commands = [], sk_frames = []\<rparr>"

definition on_message ::
    "(bytes \<Rightarrow> from_contemplant_message option) \<Rightarrow> string \<Rightarrow> chan \<Rightarrow> ws_env \<Rightarrow> ws_message \<Rightarrow> 's socket_session \<Rightarrow>
     's socket_session" where
  "on_message de addr c we msg s = (case ws_handler msg of
       None \<Rightarrow> s\<lparr>sk_recv := Task_Finished\<rparr>
     | Some m \<Rightarrow> (case handle_message_from_contemplant de we addr c m of
           (cs, flow) \<Rightarrow> s\<lparr>sk_commands := sk_commands s @ cs, sk_recv := (if flow = Break then Task_Finished else Task_Running)\<rparr>))"

definition on_outgoing ::
    "('s from_hierophant_message \<Rightarrow> bytes option) \<Rightarrow> 's from_hierophant_message \<Rightarrow> bool \<Rightarrow> 's socket_session \<Rightarrow> 's socket_session" where
  "on_outgoing ser m ok s = (case ser m of
       None \<Rightarrow> s
     | Some bs \<Rightarrow> (if ok then s\<lparr>sk_frames := sk_frames s @ [Some bs]\<rparr>
                   else s\<lparr>sk_frames := sk_frames s @ [None], sk_send := Task_Finished\<rparr>))"

fun task_event ::
    "(bytes \<Rightarrow> from_contemplant_message option) \<Rightarrow> ('s from_hierophant_message \<Rightarrow> bytes option) \<Rightarrow> string \<Rightarrow> chan \<Rightarrow>
     's socket_event \<Rightarrow> 's socket_session \<Rightarrow> 's socket_session" where
  "task_event de ser addr c (Sk_Message we msg) s = (if sk_recv s = Task_Running then on_message de addr c we msg s else s)"
| "task_event de ser addr c Sk_Error s = (if sk_recv s = Task_Running then s\<lparr>sk_recv := Task_Finished\<rparr> else s)"
| "task_event de ser addr c Sk_End s = (if sk_recv s = Task_Running then s\<lparr>sk_recv := Task_Finished\<rparr> else s)"
| "task_event de ser addr c (Sk_Outgoing m ok) s = (if sk_send s = Task_Running then on_outgoing ser m ok s else s)"

text \<open>The \<^verbatim>\<open>select!\<close>: the task that has ended makes the other one be aborted.\<close>

definition socket_select :: "'s socket_session \<Rightarrow> 's socket_session" where
  "socket_select s =
     (if sk_send s = Task_Finished \<and> sk_recv s = Task_Running then s\<lparr>sk_recv := Task_Aborted\<rparr>
      else if sk_recv s = Task_Finished \<and> sk_send s = Task_Running then s\<lparr>sk_send := Task_Aborted\<rparr>
      else s)"

definition socket_step ::
    "(bytes \<Rightarrow> from_contemplant_message option) \<Rightarrow> ('s from_hierophant_message \<Rightarrow> bytes option) \<Rightarrow> string \<Rightarrow> chan \<Rightarrow>
     's socket_event \<Rightarrow> 's socket_session \<Rightarrow> 's socket_session" where
  "socket_step de ser addr c ev s = socket_select (task_event de ser addr c ev s)"

definition handle_socket ::
    "(bytes \<Rightarrow> from_contemplant_message option) \<Rightarrow> ('s from_hierophant_message \<Rightarrow> bytes option) \<Rightarrow> string \<Rightarrow> chan \<Rightarrow>
     's socket_event list \<Rightarrow> 's socket_session" where
  "handle_socket de ser addr c evs = fold (socket_step de ser addr c) evs session_start"

section \<open>Facts\<close>

text \<open>What arrived and what was queued, as the tasks alone take them.\<close>

fun arrived :: "'s socket_event \<Rightarrow> (ws_env \<times> ws_message option) list" where
  "arrived (Sk_Message we msg) = [(we, ws_handler msg)]"
| "arrived Sk_Error = [(\<lparr>we_up = False, we_resp = 0, we_heartbeat = TimedOut\<rparr>, None)]"
| "arrived Sk_End = [(\<lparr>we_up = False, we_resp = 0, we_heartbeat = TimedOut\<rparr>, None)]"
| "arrived (Sk_Outgoing m ok) = []"

fun outgoing :: "'s socket_event \<Rightarrow> ('s from_hierophant_message \<times> bool) list" where
  "outgoing (Sk_Outgoing m ok) = [(m, ok)]"
| "outgoing _ = []"

text \<open>
  A task that runs has done what it does alone on its input so far, and would go on with the rest; a task that ended
  has done what it does alone on its input; an aborted one, on a part of its input.
\<close>

definition recv_inv ::
    "(bytes \<Rightarrow> from_contemplant_message option) \<Rightarrow> string \<Rightarrow> chan \<Rightarrow> (ws_env \<times> ws_message option) list \<Rightarrow> 's socket_session \<Rightarrow> bool" where
  "recv_inv de addr c xs s \<longleftrightarrow> (case sk_recv s of
       Task_Running \<Rightarrow> \<forall>ys. recv_task de addr c (xs @ ys) = sk_commands s @ recv_task de addr c ys
     | Task_Finished \<Rightarrow> \<forall>ys. recv_task de addr c (xs @ ys) = sk_commands s
     | Task_Aborted \<Rightarrow> \<exists>n. recv_task de addr c (take n xs) = sk_commands s)"

definition send_inv ::
    "('s from_hierophant_message \<Rightarrow> bytes option) \<Rightarrow> ('s from_hierophant_message \<times> bool) list \<Rightarrow> 's socket_session \<Rightarrow> bool" where
  "send_inv ser xs s \<longleftrightarrow> (case sk_send s of
       Task_Running \<Rightarrow> \<forall>ys. send_task ser (xs @ ys) = sk_frames s @ send_task ser ys
     | Task_Finished \<Rightarrow> \<forall>ys. send_task ser (xs @ ys) = sk_frames s
     | Task_Aborted \<Rightarrow> \<exists>n. send_task ser (take n xs) = sk_frames s @ [None])"

definition session_inv where
  "session_inv de ser addr c evs s \<longleftrightarrow>
     recv_inv de addr c (concat (map arrived evs)) s \<and> send_inv ser (concat (map outgoing evs)) s \<and>
     (sk_recv s = Task_Running \<longleftrightarrow> sk_send s = Task_Running) \<and> \<not> (sk_recv s = Task_Aborted \<and> sk_send s = Task_Aborted)"

lemma recv_inv_frame: "sk_recv t = sk_recv s \<Longrightarrow> sk_commands t = sk_commands s \<Longrightarrow> recv_inv de addr c xs t = recv_inv de addr c xs s"
  by (simp add: recv_inv_def split: task_state.split)

lemma send_inv_frame: "sk_send t = sk_send s \<Longrightarrow> sk_frames t = sk_frames s \<Longrightarrow> send_inv ser xs t = send_inv ser xs s"
  by (simp add: send_inv_def split: task_state.split)

lemma recv_inv_abort: "recv_inv de addr c xs s \<Longrightarrow> sk_recv s = Task_Running \<Longrightarrow> recv_inv de addr c xs (s\<lparr>sk_recv := Task_Aborted\<rparr>)"
  by (auto simp: recv_inv_def dest: spec [of _ "[]"] intro!: exI [of _ "length xs"])

lemma send_inv_abort: "send_inv ser xs s \<Longrightarrow> sk_send s = Task_Running \<Longrightarrow> send_inv ser xs (s\<lparr>sk_send := Task_Aborted\<rparr>)"
  by (auto simp: send_inv_def dest: spec [of _ "[]"] intro!: exI [of _ "length xs"])

lemma recv_inv_stopped:
  assumes "recv_inv de addr c xs s" "sk_recv s \<noteq> Task_Running"
  shows "recv_inv de addr c (xs @ ys) s"
proof (cases "sk_recv s")
  case Task_Aborted
  then obtain n where "recv_task de addr c (take n xs) = sk_commands s" using assms(1) by (auto simp: recv_inv_def)
  moreover have "take (min n (length xs)) (xs @ ys) = take n xs" by (cases "n \<le> length xs") simp_all
  ultimately have "recv_task de addr c (take (min n (length xs)) (xs @ ys)) = sk_commands s" by simp
  with Task_Aborted show ?thesis by (simp add: recv_inv_def del: take_append) blast
qed (use assms in \<open>auto simp: recv_inv_def\<close>)

lemma send_inv_stopped:
  assumes "send_inv ser xs s" "sk_send s \<noteq> Task_Running"
  shows "send_inv ser (xs @ ys) s"
proof (cases "sk_send s")
  case Task_Aborted
  then obtain n where "send_task ser (take n xs) = sk_frames s @ [None]" using assms(1) by (auto simp: send_inv_def)
  moreover have "take (min n (length xs)) (xs @ ys) = take n xs" by (cases "n \<le> length xs") simp_all
  ultimately have "send_task ser (take (min n (length xs)) (xs @ ys)) = sk_frames s @ [None]" by simp
  with Task_Aborted show ?thesis by (simp add: send_inv_def del: take_append) blast
qed (use assms in \<open>auto simp: send_inv_def\<close>)

lemma recv_inv_message:
  assumes "recv_inv de addr c xs s" "sk_recv s = Task_Running"
  shows "recv_inv de addr c (xs @ [(we, ws_handler msg)]) (on_message de addr c we msg s)"
  using assms
  by (cases "ws_handler msg") (auto simp: recv_inv_def on_message_def split: prod.split control_flow.split)

lemma send_inv_outgoing:
  assumes "send_inv ser xs s" "sk_send s = Task_Running"
  shows "send_inv ser (xs @ [(m, ok)]) (on_outgoing ser m ok s)"
  using assms by (cases "ser m") (auto simp: send_inv_def on_outgoing_def)

lemma on_message_send [simp]: "sk_send (on_message de addr c we msg s) = sk_send s" "sk_frames (on_message de addr c we msg s) = sk_frames s"
  by (simp_all add: on_message_def split: option.split prod.split)

lemma on_outgoing_recv [simp]: "sk_recv (on_outgoing ser m ok s) = sk_recv s" "sk_commands (on_outgoing ser m ok s) = sk_commands s"
  by (simp_all add: on_outgoing_def split: option.split)

lemma on_message_recv: "sk_recv (on_message de addr c we msg s) \<noteq> Task_Aborted"
  by (simp add: on_message_def split: option.split prod.split)

lemma on_outgoing_send: "sk_send s = Task_Running \<Longrightarrow> sk_send (on_outgoing ser m ok s) \<noteq> Task_Aborted"
  by (simp add: on_outgoing_def split: option.split)

text \<open>Between an event and the \<^verbatim>\<open>select!\<close>.\<close>

lemma select_inv:
  assumes "recv_inv de addr c xs s" "send_inv ser ys s" "\<not> (sk_recv s = Task_Aborted \<and> sk_send s = Task_Aborted)"
    "sk_recv s = Task_Aborted \<Longrightarrow> sk_send s \<noteq> Task_Running" "sk_send s = Task_Aborted \<Longrightarrow> sk_recv s \<noteq> Task_Running"
  shows "recv_inv de addr c xs (socket_select s) \<and> send_inv ser ys (socket_select s) \<and>
     (sk_recv (socket_select s) = Task_Running \<longleftrightarrow> sk_send (socket_select s) = Task_Running) \<and>
     \<not> (sk_recv (socket_select s) = Task_Aborted \<and> sk_send (socket_select s) = Task_Aborted)"
proof -
  have frame: "send_inv ser ys (s\<lparr>sk_recv := Task_Aborted\<rparr>)" "recv_inv de addr c xs (s\<lparr>sk_send := Task_Aborted\<rparr>)"
    using assms(1,2) recv_inv_frame [of "s\<lparr>sk_send := Task_Aborted\<rparr>" s] send_inv_frame [of "s\<lparr>sk_recv := Task_Aborted\<rparr>" s] by simp_all
  show ?thesis
    using assms frame recv_inv_abort [OF assms(1)] send_inv_abort [OF assms(2)]
    by (cases "sk_recv s"; cases "sk_send s") (simp_all add: socket_select_def)
qed

lemma session_inv_step:
  assumes "session_inv de ser addr c evs s"
  shows "session_inv de ser addr c (evs @ [ev]) (socket_step de ser addr c ev s)"
proof -
  let ?t = "task_event de ser addr c ev s"
  have I: "recv_inv de addr c (concat (map arrived evs)) s" "send_inv ser (concat (map outgoing evs)) s"
    "sk_recv s = Task_Running \<longleftrightarrow> sk_send s = Task_Running" "\<not> (sk_recv s = Task_Aborted \<and> sk_send s = Task_Aborted)"
    using assms by (simp_all add: session_inv_def)
  have "recv_inv de addr c (concat (map arrived (evs @ [ev]))) ?t \<and> send_inv ser (concat (map outgoing (evs @ [ev]))) ?t \<and>
     \<not> (sk_recv ?t = Task_Aborted \<and> sk_send ?t = Task_Aborted) \<and>
     (sk_recv ?t = Task_Aborted \<longrightarrow> sk_send ?t \<noteq> Task_Running) \<and> (sk_send ?t = Task_Aborted \<longrightarrow> sk_recv ?t \<noteq> Task_Running)"
  proof (cases "sk_recv s = Task_Running")
    case True
    note running = True I(3) [THEN iffD1, OF True]
    show ?thesis
    proof (cases ev)
      case (Sk_Message we msg)
      have "send_inv ser (concat (map outgoing evs)) (on_message de addr c we msg s)"
        using I(2) send_inv_frame [of "on_message de addr c we msg s" s] by simp
      with Sk_Message running recv_inv_message [OF I(1) True, of we msg] show ?thesis
        using on_message_recv [of de addr c we msg s] by simp
    next
      case (Sk_Outgoing m ok)
      have "recv_inv de addr c (concat (map arrived evs)) (on_outgoing ser m ok s)"
        using I(1) recv_inv_frame [of "on_outgoing ser m ok s" s] by simp
      with Sk_Outgoing running send_inv_outgoing [OF I(2) running(2), of m ok] show ?thesis
        using on_outgoing_send [OF running(2), of ser m ok] by simp
    qed (use I(1,2) running in \<open>auto simp: recv_inv_def send_inv_def\<close>)
  next
    case False
    then have stopped: "sk_recv s \<noteq> Task_Running" "sk_send s \<noteq> Task_Running" using I(3) by auto
    then have "?t = s" by (cases ev) simp_all
    with stopped I(4) recv_inv_stopped [OF I(1) stopped(1)] send_inv_stopped [OF I(2) stopped(2)] show ?thesis by simp
  qed
  then show ?thesis
    unfolding session_inv_def socket_step_def by (intro select_inv) blast+
qed

lemma session_inv_run: "session_inv de ser addr c evs (handle_socket de ser addr c evs)"
proof (induction evs rule: rev_induct)
  case Nil
  show ?case by (simp add: handle_socket_def session_inv_def session_start_def recv_inv_def send_inv_def)
next
  case (snoc ev evs)
  from session_inv_step [OF snoc] show ?case by (simp add: handle_socket_def)
qed

lemma session_commands:
  "\<exists>n. sk_commands (handle_socket de ser addr c evs) = recv_task de addr c (take n (concat (map arrived evs)))"
proof -
  let ?s = "handle_socket de ser addr c evs" and ?in = "concat (map arrived evs)"
  have I: "recv_inv de addr c ?in ?s" using session_inv_run [of de ser addr c evs] by (simp add: session_inv_def)
  show ?thesis
  proof (cases "sk_recv ?s")
    case Task_Aborted
    then show ?thesis using I by (auto simp: recv_inv_def) metis
  qed (use I in \<open>auto simp: recv_inv_def dest!: spec [of _ "[]"] intro!: exI [of _ "length ?in"]\<close>)
qed

section \<open>Properties\<close>

text \<open>C34. A websocket session is its two tasks run alone: however messages from the contemplant and messages of the
  registry interleave, the registry gets the commands of the receiving task on a first part of what arrived, the
  contemplant gets the frames of the sending task on a first part of what was queued, without the close frame when
  the sending task was aborted; both tasks run or neither does.\<close>

theorem socket_session_exact:
  "let s = handle_socket de ser addr c evs in
   (\<exists>n. sk_commands s = recv_task de addr c (take n (concat (map arrived evs)))) \<and>
   (\<exists>k. sk_frames s @ (if sk_send s = Task_Finished then [] else [None]) = send_task ser (take k (concat (map outgoing evs)))) \<and>
   (sk_recv s = Task_Running \<longleftrightarrow> sk_send s = Task_Running)"
proof -
  let ?s = "handle_socket de ser addr c evs"
  let ?out = "concat (map outgoing evs)"
  have I: "send_inv ser ?out ?s" "sk_recv ?s = Task_Running \<longleftrightarrow> sk_send ?s = Task_Running"
    using session_inv_run [of de ser addr c evs] by (simp_all add: session_inv_def)
  have "\<exists>k. sk_frames ?s @ (if sk_send ?s = Task_Finished then [] else [None]) = send_task ser (take k ?out)"
  proof (cases "sk_send ?s")
    case Task_Aborted
    then show ?thesis using I(1) by (auto simp: send_inv_def) metis
  qed (use I(1) in \<open>auto simp: send_inv_def dest!: spec [of _ "[]"] intro!: exI [of _ "length ?out"]\<close>)
  then show ?thesis using I(2) session_commands by (simp add: Let_def)
qed

lemma socket_stopped:
  assumes "sk_recv s \<noteq> Task_Running" "sk_send s \<noteq> Task_Running"
  shows "fold (socket_step de ser addr c) evs s = s"
proof (induction evs)
  case (Cons ev evs)
  have "socket_step de ser addr c ev s = s" using assms by (cases ev) (simp_all add: socket_step_def socket_select_def)
  with Cons show ?case by simp
qed simp

text \<open>A report that reached the registry came in a message within the limit.\<close>

lemma message_report:
  assumes "Cmd_ProofStatusResponse rid st \<in> set (fst (handle_message_from_contemplant de we addr c msg :: 's cmds \<times> control_flow))"
  shows "\<exists>bs. msg = WsBinary bs \<and> de bs = Some (ProofStatusResponse rid st)"
  using assms
  by (auto simp: handle_message_from_contemplant_def client_worker_ready_def client_proof_status_response_def
      client_heartbeat_def split: ws_message.splits option.splits from_contemplant_message.splits if_splits)

lemma ws_handler_Some: "ws_handler m = Some (WsBinary bs) \<longleftrightarrow> m = WsBinary bs \<and> length bs \<le> one_hundred_mb"
  by (auto simp: ws_handler_def not_less split: ws_message.splits)

lemma arrived_message: "(we, Some msg) \<in> set (arrived ev) \<Longrightarrow> \<exists>m. ev = Sk_Message we m \<and> ws_handler m = Some msg"
  by (cases ev) auto

lemma report_within_limit:
  fixes evs :: "'s socket_event list"
  assumes "Cmd_ProofStatusResponse rid st \<in> set (sk_commands (handle_socket de ser addr c evs))"
  shows "\<exists>we bs. Sk_Message we (WsBinary bs) \<in> set evs \<and> de bs = Some (ProofStatusResponse rid st) \<and>
    length bs \<le> one_hundred_mb"
proof -
  obtain n where "sk_commands (handle_socket de ser addr c evs) = recv_task de addr c (take n (concat (map arrived evs)))"
    using session_commands by blast
  with assms recv_task_source [of "Cmd_ProofStatusResponse rid st" de addr c "take n (concat (map arrived evs))"]
  obtain we msg where m: "(we, Some msg) \<in> set (take n (concat (map arrived evs)))"
    "Cmd_ProofStatusResponse rid st \<in> set (fst (handle_message_from_contemplant de we addr c msg :: 's cmds \<times> control_flow))"
    by auto
  then have "(we, Some msg) \<in> set (concat (map arrived evs))" by (meson in_set_takeD)
  then obtain m' where "Sk_Message we m' \<in> set evs" "ws_handler m' = Some msg"
    using arrived_message by fastforce
  moreover obtain bs where "msg = WsBinary bs" "de bs = Some (ProofStatusResponse rid st)"
    using message_report [OF m(2)] by blast
  ultimately show ?thesis by (auto simp: ws_handler_Some)
qed

text \<open>C35. No report of more than 100 MB reaches the registry: whatever happens on a session, a status report among its
  commands was decoded from a message within the limit, so a report whose messages are all larger is never
  delivered. Such a message ends a running session at once, the sending task with it: it adds no command, and
  nothing that arrives on the session later is handled.\<close>

theorem oversized_report_lost:
  fixes evs later :: "'s socket_event list"
  shows "((\<forall>we bs. Sk_Message we (WsBinary bs) \<in> set evs \<and> de bs = Some (ProofStatusResponse rid st) \<longrightarrow>
            one_hundred_mb < length bs) \<longrightarrow>
          Cmd_ProofStatusResponse rid st \<notin> set (sk_commands (handle_socket de ser addr c evs))) \<and>
         (one_hundred_mb < length big \<and> sk_recv (handle_socket de ser addr c evs) = Task_Running \<longrightarrow>
          handle_socket de ser addr c (evs @ Sk_Message we (WsBinary big) # later) =
            (handle_socket de ser addr c evs)\<lparr>sk_recv := Task_Finished, sk_send := Task_Aborted\<rparr>)"
proof (intro conjI impI)
  assume "\<forall>we bs. Sk_Message we (WsBinary bs) \<in> set evs \<and> de bs = Some (ProofStatusResponse rid st) \<longrightarrow>
            one_hundred_mb < length bs"
  then show "Cmd_ProofStatusResponse rid st \<notin> set (sk_commands (handle_socket de ser addr c evs))"
    using report_within_limit [of rid st de ser addr c evs] by (auto simp: not_less [symmetric])
next
  let ?s = "handle_socket de ser addr c evs"
  assume big: "one_hundred_mb < length big \<and> sk_recv ?s = Task_Running"
  have running: "sk_send ?s = Task_Running" using big session_inv_run [of de ser addr c evs] by (simp add: session_inv_def)
  have killed: "socket_step de ser addr c (Sk_Message we (WsBinary big)) ?s = ?s\<lparr>sk_recv := Task_Finished, sk_send := Task_Aborted\<rparr>"
    using big running by (simp add: socket_step_def socket_select_def on_message_def ws_handler_def)
  then show "handle_socket de ser addr c (evs @ Sk_Message we (WsBinary big) # later) =
      ?s\<lparr>sk_recv := Task_Finished, sk_send := Task_Aborted\<rparr>"
    using socket_stopped [of "?s\<lparr>sk_recv := Task_Finished, sk_send := Task_Aborted\<rparr>" de ser addr c later]
    by (simp add: handle_socket_def)
qed

theorem oversized_report_lost_witness:
  "\<exists>bs. one_hundred_mb < length bs \<and>
     Cmd_ProofStatusResponse 1 None \<notin> set (sk_commands (handle_socket (\<lambda>_. Some (ProofStatusResponse 1 None)) (\<lambda>_. None) ''a'' 0
       [Sk_Message \<lparr>we_up = True, we_resp = 0, we_heartbeat = TimedOut\<rparr> (WsBinary bs)] :: unit socket_session)) \<and>
     sk_recv (handle_socket (\<lambda>_. Some (ProofStatusResponse 1 None)) (\<lambda>_. None) ''a'' 0
       [Sk_Message \<lparr>we_up = True, we_resp = 0, we_heartbeat = TimedOut\<rparr> (WsBinary bs)] :: unit socket_session) = Task_Finished"
proof -
  let ?we = "\<lparr>we_up = True, we_resp = 0, we_heartbeat = TimedOut\<rparr>" and ?bs = "replicate (Suc one_hundred_mb) 0 :: bytes"
  have "sk_recv (handle_socket (\<lambda>_. Some (ProofStatusResponse 1 None)) (\<lambda>_. None) ''a'' 0 [] :: unit socket_session) = Task_Running"
    by (simp add: handle_socket_def session_start_def)
  then show ?thesis
    using oversized_report_lost [of "[Sk_Message ?we (WsBinary ?bs)]" "\<lambda>_. Some (ProofStatusResponse 1 None)" 1 None
        "\<lambda>_ :: unit from_hierophant_message. None" "''a''" 0]
      oversized_report_lost [of "[]" "\<lambda>_. Some (ProofStatusResponse 1 None)" 1 None
        "\<lambda>_ :: unit from_hierophant_message. None" "''a''" 0 ?bs ?we "[]"]
    by (intro exI [of _ ?bs]) simp
qed

end
