(* ===== verification/Status_Poll.thy ===== *)
theory Status_Poll
  imports Registry_Client
begin

text \<open>
  What the REST surfaces for OpenVM (\<^verbatim>\<open>openvm/router.rs\<close>) and Bonsai (\<^verbatim>\<open>bonsai/router.rs\<close>) share. A status
  handler holds the surface's lock only for single look-ups and updates, and awaits the registry in between,
  so concurrent polls of one job interleave. A handler in flight is a \<open>phase\<close>; each step is one critical
  section or one await. The locale \<open>status_surface\<close> is the rule for interleaved polls: an invariant of the
  shared state together with assertions on every phase, each kept by every step of every handler.
\<close>

section \<open>Phases of a status handler\<close>

datatype 'a http_result = HttpOk 'a | HttpErr nat string

record status_response =
  sr_status :: string
  sr_url :: "string option"
  sr_error_msg :: "string option"
  sr_state :: "string option"

definition response_failed :: "string \<Rightarrow> status_response" where
  "response_failed err = \<lparr>sr_status = ''FAILED'', sr_url = None, sr_error_msg = Some err, sr_state = None\<rparr>"

definition response_succeeded :: "string \<Rightarrow> status_response" where
  "response_succeeded url = \<lparr>sr_status = ''SUCCEEDED'', sr_url = Some url, sr_error_msg = None, sr_state = None\<rparr>"

definition response_running :: "string option \<Rightarrow> status_response" where
  "response_running st = \<lparr>sr_status = ''RUNNING'', sr_url = None, sr_error_msg = None, sr_state = st\<rparr>"

text \<open>
  \<open>'j\<close> is what the handler copied from the job, \<open>'p\<close> what it verifies the proof against.
\<close>

datatype ('j, 'p) phase =
    Ph_Job
  | Ph_Stash 'j
  | Ph_Poll 'j
  | Ph_Unfulfillable 'j
  | Ph_Program 'j bytes
  | Ph_Verify 'j bytes 'p
  | Ph_Drop 'j string
  | Ph_Invalid 'j string
  | Ph_Complete 'j bytes
  | Ph_Store 'j bytes
  | Ph_Done "status_response http_result"
  | Ph_Panicked

fun finished :: "('j, 'p) phase \<Rightarrow> bool" where
  "finished (Ph_Done _) = True"
| "finished Ph_Panicked = True"
| "finished _ = False"

text \<open>Steps left before the handler has answered, at most.\<close>

fun phase_rank :: "('j, 'p) phase \<Rightarrow> nat" where
  "phase_rank Ph_Job = 7"
| "phase_rank (Ph_Stash _) = 6"
| "phase_rank (Ph_Poll _) = 5"
| "phase_rank (Ph_Program _ _) = 4"
| "phase_rank (Ph_Verify _ _ _) = 3"
| "phase_rank (Ph_Drop _ _) = 2"
| "phase_rank (Ph_Complete _ _) = 2"
| "phase_rank (Ph_Invalid _ _) = 1"
| "phase_rank (Ph_Unfulfillable _) = 1"
| "phase_rank (Ph_Store _ _) = 1"
| "phase_rank (Ph_Done _) = 0"
| "phase_rank Ph_Panicked = 0"

text \<open>A handler that runs with nothing in between; it consumes one environment per step.\<close>

fun run_phases ::
    "('e \<Rightarrow> ('j, 'p) phase \<Rightarrow> 's \<Rightarrow> ('j, 'p) phase \<times> 's \<times> 'c list) \<Rightarrow> 'e list \<Rightarrow> ('j, 'p) phase \<Rightarrow> 's \<Rightarrow>
     ('j, 'p) phase \<times> 's \<times> 'c list" where
  "run_phases step [] p s = (p, s, [])"
| "run_phases step (e # es) p s =
     (if finished p then (p, s, [])
      else (let (p1, s1, cs1) = step e p s; (p2, s2, cs2) = run_phases step es p1 s1
            in (p2, s2, cs1 @ cs2)))"

lemma rank_0_finished: "phase_rank p = 0 \<longleftrightarrow> finished p"
  by (cases p) simp_all

lemma run_phases_finishes:
  assumes "\<And>e p s p' s' cs. step e p s = (p', s', cs) \<Longrightarrow> \<not> finished p \<Longrightarrow> phase_rank p' < phase_rank p"
    and "phase_rank p \<le> length es"
  shows "finished (fst (run_phases step es p s))"
  using assms(2)
proof (induction es arbitrary: p s)
  case Nil
  then show ?case by (simp add: rank_0_finished)
next
  case (Cons e es)
  show ?case
  proof (cases "finished p")
    case False
    obtain p1 s1 cs1 where st: "step e p s = (p1, s1, cs1)" by (cases "step e p s")
    have "phase_rank p1 \<le> length es" using assms(1) [OF st False] Cons.prems by simp
    from Cons.IH [OF this, of s1] show ?thesis using False st by (auto split: prod.splits)
  qed simp
qed

lemma run_phases_panic:
  assumes "run_phases step es p s = (Ph_Panicked, s', cs)"
    and "\<And>e p s s' cs. step e p s = (Ph_Panicked, s', cs) \<Longrightarrow> p \<noteq> Ph_Panicked \<Longrightarrow> cond e"
    and "p \<noteq> Ph_Panicked"
  shows "\<exists>e \<in> set es. cond e"
  using assms(1,3)
proof (induction es arbitrary: p s cs)
  case (Cons e es)
  show ?case
  proof (cases "finished p")
    case True
    with Cons.prems show ?thesis by simp
  next
    case False
    obtain p1 s1 cs1 where st: "step e p s = (p1, s1, cs1)" by (cases "step e p s")
    obtain cs2 where "run_phases step es p1 s1 = (Ph_Panicked, s', cs2)"
      using Cons.prems(1) False st by (auto split: prod.splits)
    with Cons.IH [of p1 s1] assms(2) [of e p s] st Cons.prems(2) show ?thesis
      by (cases "p1 = Ph_Panicked") auto
  qed
qed simp

section \<open>Interleaved polls\<close>

text \<open>
  The polls in flight and the shared state. \<open>other e op\<close> is any other handler of the surface, taken as one
  step; \<open>ok_e\<close> and \<open>ok_o\<close> are the environments and operations considered.
\<close>

inductive polls ::
    "('e \<Rightarrow> 'k \<Rightarrow> ('j, 'p) phase \<Rightarrow> 's \<Rightarrow> ('j, 'p) phase \<times> 's \<times> 'c list) \<Rightarrow> ('o \<Rightarrow> 's \<Rightarrow> 's) \<Rightarrow>
     ('e \<Rightarrow> bool) \<Rightarrow> ('o \<Rightarrow> 's \<Rightarrow> bool) \<Rightarrow> 's \<Rightarrow> ('k \<times> ('j, 'p) phase) list \<Rightarrow> 's \<Rightarrow> bool"
  for step other ok_e ok_o s0 where
  polls_start: "polls step other ok_e ok_o s0 [] s0"
| polls_arrive: "polls step other ok_e ok_o s0 hs s \<Longrightarrow> polls step other ok_e ok_o s0 (hs @ [(k, Ph_Job)]) s"
| polls_advance:
    "polls step other ok_e ok_o s0 hs s \<Longrightarrow> i < length hs \<Longrightarrow> hs ! i = (k, p) \<Longrightarrow> \<not> finished p \<Longrightarrow> ok_e e \<Longrightarrow>
     step e k p s = (p', s', cs) \<Longrightarrow> polls step other ok_e ok_o s0 (hs[i := (k, p')]) s'"
| polls_other: "polls step other ok_e ok_o s0 hs s \<Longrightarrow> ok_o op s \<Longrightarrow> polls step other ok_e ok_o s0 hs (other op s)"

text \<open>A given interleaving, computed: which poll advances next, and in which environment.\<close>

fun schedule ::
    "('e \<Rightarrow> 'k \<Rightarrow> ('j, 'p) phase \<Rightarrow> 's \<Rightarrow> ('j, 'p) phase \<times> 's \<times> 'c list) \<Rightarrow> (nat \<times> 'e) list \<Rightarrow>
     ('k \<times> ('j, 'p) phase) list \<Rightarrow> 's \<Rightarrow> ('k \<times> ('j, 'p) phase) list \<times> 's" where
  "schedule step [] hs s = (hs, s)"
| "schedule step ((i, e) # sc) hs s =
     (let (k, p) = hs ! i in
      if finished p then schedule step sc hs s
      else (let (p', s', _) = step e k p s in schedule step sc (hs[i := (k, p')]) s'))"

lemma schedule_polls:
  "polls step other ok_e ok_o s0 hs s \<Longrightarrow> list_all (\<lambda>(i, e). i < length hs \<and> ok_e e) sc \<Longrightarrow>
   schedule step sc hs s = (hs', s') \<Longrightarrow> polls step other ok_e ok_o s0 hs' s'"
proof (induction step sc hs s rule: schedule.induct)
  case (2 step i e sc hs s)
  obtain k p where hp: "hs ! i = (k, p)" by (cases "hs ! i")
  obtain p1 s1 cs where st: "step e k p s = (p1, s1, cs)" by (cases "step e k p s")
  show ?case
  proof (cases "finished p")
    case True
    with 2 hp show ?thesis by simp
  next
    case False
    have "polls step other ok_e ok_o s0 (hs[i := (k, p1)]) s1"
      by (rule polls_advance [OF 2(3) _ hp False _ st]) (use 2(4) in auto)
    with 2(2) [OF hp [symmetric] refl False st [symmetric] refl] 2(4,5) hp st False show ?thesis by simp
  qed
qed simp

locale status_surface =
  fixes step :: "'e \<Rightarrow> 'k \<Rightarrow> ('j, 'p) phase \<Rightarrow> 's \<Rightarrow> ('j, 'p) phase \<times> 's \<times> 'c list"
    and other :: "'o \<Rightarrow> 's \<Rightarrow> 's"
    and ok_e :: "'e \<Rightarrow> bool"
    and ok_o :: "'o \<Rightarrow> 's \<Rightarrow> bool"
    and sinv :: "'s \<Rightarrow> bool"
    and pinv :: "'k \<Rightarrow> ('j, 'p) phase \<Rightarrow> 's \<Rightarrow> bool"
  assumes pinv_start: "sinv s \<Longrightarrow> pinv k Ph_Job s"
    and own_step: "sinv s \<Longrightarrow> pinv k p s \<Longrightarrow> ok_e e \<Longrightarrow> step e k p s = (p', s', cs) \<Longrightarrow> sinv s' \<and> pinv k p' s'"
    and no_interference:
      "sinv s \<Longrightarrow> pinv k p s \<Longrightarrow> pinv k2 p2 s \<Longrightarrow> ok_e e \<Longrightarrow> step e k p s = (p', s', cs) \<Longrightarrow> pinv k2 p2 s'"
    and other_sinv: "sinv s \<Longrightarrow> ok_o op s \<Longrightarrow> sinv (other op s)"
    and other_pinv: "sinv s \<Longrightarrow> ok_o op s \<Longrightarrow> pinv k p s \<Longrightarrow> pinv k p (other op s)"
begin

lemma polls_inv:
  "polls step other ok_e ok_o s0 hs s \<Longrightarrow> sinv s0 \<Longrightarrow>
   sinv s \<and> (\<forall>k p. (k, p) \<in> set hs \<longrightarrow> pinv k p s)"
proof (induction rule: polls.induct)
  case polls_start
  then show ?case by simp
next
  case (polls_arrive hs s k)
  then show ?case by (auto intro: pinv_start)
next
  case (polls_advance hs s i k p e p' s' cs)
  then have s: "sinv s" and all: "\<And>k p. (k, p) \<in> set hs \<Longrightarrow> pinv k p s" by auto
  have own: "pinv k p s" using all polls_advance.hyps by (metis nth_mem)
  note s' = own_step [OF s own polls_advance.hyps(5,6)]
  have "pinv k2 p2 s'" if "(k2, p2) \<in> set (hs[i := (k, p')])" for k2 p2
  proof -
    have "(k2, p2) = (k, p') \<or> (k2, p2) \<in> set hs"
      using that set_update_subset_insert [of hs i "(k, p')"] by auto
    then show ?thesis
      using s' no_interference [OF s own _ polls_advance.hyps(5,6)] all by auto
  qed
  then show ?case using s' by blast
next
  case (polls_other hs s op)
  then show ?case by (auto intro: other_sinv other_pinv)
qed

end

section \<open>Shared helpers of the routers\<close>

definition client_error_text :: "string \<Rightarrow> client_error \<Rightarrow> string" where
  "client_error_text cmd e = (case e of
       SendFailed \<Rightarrow> ''Failed to send command '' @ cmd @ '': channel closed''
     | RecvFailed \<Rightarrow> ''channel closed'')"

definition strip_0x :: "string \<Rightarrow> string" where
  "strip_0x s = (if take 2 s = ''0x'' then drop 2 s else s)"

definition execution_state_text :: "proof_status \<Rightarrow> string" where
  "execution_state_text st = ''execution_status='' @ (case execution_status_of (ps_execution_status st) of
       Some x \<Rightarrow> execution_status_name x | None \<Rightarrow> ''UNSPECIFIED'')"

record surface_config =
  sc_ip :: string
  sc_http_port :: nat
  sc_mock_mode :: bool

end
