(* ===== verification/OpenVm.thy ===== *)
theory OpenVm
  imports Status_Poll Worker_Proto
begin

text \<open>
  The OpenVM REST surface (\<^verbatim>\<open>openvm/router.rs\<close>, \<^verbatim>\<open>openvm/state.rs\<close>, \<^verbatim>\<open>openvm/types.rs\<close>): uploads, job creation,
  the status poll that verifies a returned proof with the local worker, and the download. The status
  handler is a phase machine over the shared \<^verbatim>\<open>OpenVmInner\<close>; the whole handler runs its phases in order.
\<close>

section \<open>State\<close>

record openvm_job =
  oj_request_id :: b256
  oj_program_id :: string
  oj_app_config_toml :: "string option"
  oj_mode :: openvm_proof_mode
  oj_terminal_error :: "string option"

record openvm_inner =
  ov_programs :: "string \<rightharpoonup> bytes"
  ov_inputs :: "string \<rightharpoonup> bytes list"
  ov_jobs :: "string \<rightharpoonup> openvm_job"
  ov_proofs :: "string \<rightharpoonup> bytes"

definition openvm_state_new :: openvm_inner where
  "openvm_state_new = \<lparr>ov_programs = Map.empty, ov_inputs = Map.empty, ov_jobs = Map.empty, ov_proofs = Map.empty\<rparr>"

record proof_create_request =
  pc_program :: string
  pc_input :: string
  pc_proof_mode :: "string option"
  pc_app_config_toml :: "string option"

text \<open>
  What a handler meets outside the surface: its poll of the registry, whether the registry's channel accepts
  its commands, the calls to the local worker, whether the verification task is joined, and the random ids.
\<close>

record openvm_env =
  oe_poll :: poll_env
  oe_up :: bool
  oe_calls :: "worker_request \<Rightarrow> nat \<Rightarrow> io_error + worker_response"
  oe_join_ok :: bool
  oe_request_id :: b256
  oe_uuid :: string

section \<open>Uploads and job creation\<close>

definition presigned_url :: "surface_config \<Rightarrow> string \<Rightarrow> string" where
  "presigned_url cfg path =
     ''http://'' @ sc_ip cfg @ '':'' @ show_nat (sc_http_port cfg) @ ''/openvm'' @ path"

definition normalize_program_id :: "string \<Rightarrow> string" where
  "normalize_program_id raw = to_ascii_lowercase (strip_0x (trim_str raw))"

definition handle_program_upload_url :: "surface_config \<Rightarrow> string \<Rightarrow> string" where
  "handle_program_upload_url cfg program_id =
     presigned_url cfg (''/programs/'' @ normalize_program_id program_id)"

text \<open>A digest that does not match the id is only logged.\<close>

definition handle_program_put :: "string \<Rightarrow> bytes \<Rightarrow> openvm_inner \<Rightarrow> openvm_inner" where
  "handle_program_put program_id body s =
     s\<lparr>ov_programs := (ov_programs s)(normalize_program_id program_id \<mapsto> body)\<rparr>"

definition handle_input_upload_url :: "surface_config \<Rightarrow> openvm_env \<Rightarrow> string \<times> string" where
  "handle_input_upload_url cfg e = (oe_uuid e, presigned_url cfg (''/inputs/'' @ oe_uuid e))"

definition handle_input_put ::
    "(bytes \<Rightarrow> bytes list option) \<Rightarrow> string \<Rightarrow> bytes \<Rightarrow> openvm_inner \<Rightarrow> unit http_result \<times> openvm_inner" where
  "handle_input_put de input_id body s = (case de body of
       None \<Rightarrow> (HttpErr 400 ''input body must be a bincode-serialized Vec<Vec<u8>> of stdin streams'', s)
     | Some streams \<Rightarrow> (HttpOk (), s\<lparr>ov_inputs := (ov_inputs s)(input_id \<mapsto> streams)\<rparr>))"

definition parse_openvm_proof_mode :: "string option \<Rightarrow> string + openvm_proof_mode" where
  "parse_openvm_proof_mode raw = (case map_option to_ascii_lowercase raw of
       None \<Rightarrow> Inr O_App
     | Some m \<Rightarrow>
         (if m = ''app'' then Inr O_App
          else if m = ''stark'' then Inr O_Stark
          else if m = ''evm'' then Inr O_Evm
          else Inl (''unsupported proof_mode '' @ CHR 0x27 # m @ CHR 0x27 # '' (expected app|stark|evm)'')))"

definition handle_proof_create ::
    "surface_config \<Rightarrow> openvm_env \<Rightarrow> proof_create_request \<Rightarrow> openvm_inner \<Rightarrow>
     string http_result \<times> openvm_inner \<times> 's cmds" where
  "handle_proof_create cfg e req s =
     (let program_id = normalize_program_id (pc_program req); input_id = pc_input req in
      case ov_programs s program_id of
        None \<Rightarrow> (HttpErr 400 (''unknown program_id '' @ program_id), s, [])
      | Some elf \<Rightarrow> (case ov_inputs s input_id of
          None \<Rightarrow> (HttpErr 400 (''unknown input_id '' @ input_id), s, [])
        | Some input \<Rightarrow> (case parse_openvm_proof_mode (pc_proof_mode req) of
            Inl err \<Rightarrow> (HttpErr 400 err, s, [])
          | Inr mode \<Rightarrow>
              (let job = \<lparr>oj_request_id = oe_request_id e, oj_program_id = program_id,
                          oj_app_config_toml = pc_app_config_toml req, oj_mode = mode, oj_terminal_error = None\<rparr>;
                   s' = s\<lparr>ov_jobs := (ov_jobs s)(oe_uuid e \<mapsto> job)\<rparr>;
                   (cs, res) = route_openvm_proof (oe_up e) (sc_mock_mode cfg) (oe_request_id e) elf
                                 (pc_app_config_toml req) input mode
               in (case res of
                     Inl err \<Rightarrow> (HttpErr 500 (''route proof: '' @ client_error_text ''AssignProofRequest'' err), s', cs)
                   | Inr _ \<Rightarrow> (HttpOk (oe_uuid e), s', cs))))))"

section \<open>The status poll\<close>

definition to_proto_mode :: "openvm_proof_mode \<Rightarrow> worker_proof_mode" where
  "to_proto_mode m = (case m of O_App \<Rightarrow> W_App | O_Stark \<Rightarrow> W_Stark | O_Evm \<Rightarrow> W_Evm)"

definition verify_request :: "openvm_job \<Rightarrow> bytes \<Rightarrow> bytes \<Rightarrow> worker_request" where
  "verify_request j elf proof = Verify (to_proto_mode (oj_mode j)) elf (oj_app_config_toml j) proof"

definition set_job_error :: "string \<Rightarrow> string \<Rightarrow> openvm_inner \<Rightarrow> openvm_inner" where
  "set_job_error proof_id err s = (case ov_jobs s proof_id of
       None \<Rightarrow> s
     | Some j \<Rightarrow> s\<lparr>ov_jobs := (ov_jobs s)(proof_id \<mapsto> j\<lparr>oj_terminal_error := Some err\<rparr>)\<rparr>)"

definition openvm_unfulfillable :: string where
  "openvm_unfulfillable = ''proof reported unfulfillable by worker registry''"

definition openvm_succeeded :: "surface_config \<Rightarrow> string \<Rightarrow> status_response http_result" where
  "openvm_succeeded cfg proof_id =
     HttpOk (response_succeeded (presigned_url cfg (''/proofs/'' @ proof_id @ ''/download'')))"

type_synonym openvm_phase = "(openvm_job, bytes) phase"

fun openvm_status_step ::
    "surface_config \<Rightarrow> openvm_env \<Rightarrow> string \<Rightarrow> openvm_phase \<Rightarrow> openvm_inner \<Rightarrow>
     openvm_phase \<times> openvm_inner \<times> 's cmds" where
  "openvm_status_step cfg e pid Ph_Job s = (case ov_jobs s pid of
       None \<Rightarrow> (Ph_Done (HttpErr 404 (''unknown proof '' @ pid)), s, [])
     | Some j \<Rightarrow> (case oj_terminal_error j of
           Some err \<Rightarrow> (Ph_Done (HttpOk (response_failed err)), s, [])
         | None \<Rightarrow> (Ph_Stash j, s, [])))"
| "openvm_status_step cfg e pid (Ph_Stash j) s =
     (if ov_proofs s pid \<noteq> None then (Ph_Done (openvm_succeeded cfg pid), s, []) else (Ph_Poll j, s, []))"
| "openvm_status_step cfg e pid (Ph_Poll j) s = (case get_proof_status (oe_poll e) (oj_request_id j) of
       (cs, Panicked) \<Rightarrow> (Ph_Panicked, s, cs)
     | (cs, Ret (Inl err)) \<Rightarrow>
         (Ph_Done (HttpErr 500 (''status poll: '' @ client_error_text ''ProofStatus'' err)), s, cs)
     | (cs, Ret (Inr st)) \<Rightarrow>
         (if ps_fulfillment_status st = fulfillment_status_i32 Unfulfillable then (Ph_Unfulfillable j, s, cs)
          else if ps_fulfillment_status st \<noteq> fulfillment_status_i32 Fulfilled \<or> ps_proof st = []
          then (Ph_Done (HttpOk (response_running (Some (execution_state_text st)))), s, cs)
          else (Ph_Program j (ps_proof st), s, cs)))"
| "openvm_status_step cfg e pid (Ph_Unfulfillable j) s =
     (Ph_Done (HttpOk (response_failed openvm_unfulfillable)), set_job_error pid openvm_unfulfillable s, [])"
| "openvm_status_step cfg e pid (Ph_Program j proof) s = (case ov_programs s (oj_program_id j) of
       None \<Rightarrow> (Ph_Done (HttpErr 500 (''program for OpenVM job '' @ pid @ '' missing at verify time'')), s, [])
     | Some elf \<Rightarrow> (Ph_Verify j proof elf, s, []))"
| "openvm_status_step cfg e pid (Ph_Verify j proof elf) s =
     (if \<not> oe_join_ok e then (Ph_Done (HttpErr 500 ''verification task join error''), s, [])
      else (case verify_openvm_proof (oe_calls e (verify_request j elf proof)) of
              Inl err \<Rightarrow> (Ph_Drop j (''worker returned invalid proof: '' @ err), s, [])
            | Inr _ \<Rightarrow> (Ph_Complete j proof, s, [])))"
| "openvm_status_step cfg e pid (Ph_Drop j err) s =
     (Ph_Invalid j err, s, drop_worker_of_request (oe_up e) (oj_request_id j))"
| "openvm_status_step cfg e pid (Ph_Invalid j err) s =
     (Ph_Done (HttpOk (response_failed err)), set_job_error pid err s, [])"
| "openvm_status_step cfg e pid (Ph_Complete j proof) s =
     (Ph_Store j proof, s, fst (proof_complete (oe_up e) (oj_request_id j)))"
| "openvm_status_step cfg e pid (Ph_Store j proof) s =
     (Ph_Done (openvm_succeeded cfg pid), s\<lparr>ov_proofs := (ov_proofs s)(pid \<mapsto> proof)\<rparr>, [])"
| "openvm_status_step cfg e pid (Ph_Done r) s = (Ph_Done r, s, [])"
| "openvm_status_step cfg e pid Ph_Panicked s = (Ph_Panicked, s, [])"

text \<open>The handler from its first look-up to its answer, when no other handler runs in between.\<close>

definition openvm_handle_proof_status ::
    "surface_config \<Rightarrow> openvm_env \<Rightarrow> string \<Rightarrow> openvm_inner \<Rightarrow> openvm_phase \<times> openvm_inner \<times> 's cmds" where
  "openvm_handle_proof_status cfg e pid s =
     run_phases (\<lambda>e. openvm_status_step cfg e pid) (replicate 7 e) Ph_Job s"

definition handle_proof_download :: "string \<Rightarrow> openvm_inner \<Rightarrow> bytes http_result" where
  "handle_proof_download pid s = (case ov_proofs s pid of Some b \<Rightarrow> HttpOk b | None \<Rightarrow> HttpErr 404 [])"

section \<open>Every other handler that changes the state\<close>

datatype openvm_op =
    Op_Program string bytes
  | Op_Input string bytes
  | Op_Create openvm_env proof_create_request

text \<open>
  The state with the history of program uploads, which is what a verified proof is traced back to.
\<close>

type_synonym openvm_hist = "openvm_inner \<times> (string \<times> bytes) set"

fun openvm_other ::
    "surface_config \<Rightarrow> (bytes \<Rightarrow> bytes list option) \<Rightarrow> openvm_op \<Rightarrow> openvm_hist \<Rightarrow> openvm_hist" where
  "openvm_other cfg de (Op_Program pid body) (s, ups) =
     (handle_program_put pid body s, insert (normalize_program_id pid, body) ups)"
| "openvm_other cfg de (Op_Input iid body) (s, ups) = (snd (handle_input_put de iid body s), ups)"
| "openvm_other cfg de (Op_Create e req) (s, ups) =
     (fst (snd (handle_proof_create cfg e req s :: _ \<times> _ \<times> unit cmds)), ups)"

definition openvm_hist_step ::
    "surface_config \<Rightarrow> openvm_env \<Rightarrow> string \<Rightarrow> openvm_phase \<Rightarrow> openvm_hist \<Rightarrow>
     openvm_phase \<times> openvm_hist \<times> unit cmds" where
  "openvm_hist_step cfg e pid p h =
     (let (p', s', cs) = openvm_status_step cfg e pid p (fst h) in (p', (s', snd h), cs))"

section \<open>Interleaved polls\<close>

text \<open>
  \<open>valid elf config mode proof\<close>: the proof is one of the program. The local worker is trusted to answer
  \<open>VerifyOk\<close> for valid proofs only. Fresh uuids are new.
\<close>

definition honest_worker ::
    "(bytes \<Rightarrow> string option \<Rightarrow> openvm_proof_mode \<Rightarrow> bytes \<Rightarrow> bool) \<Rightarrow> openvm_env \<Rightarrow> bool" where
  "honest_worker valid e \<longleftrightarrow> (\<forall>j elf proof k.
     oe_calls e (verify_request j elf proof) k = Inr VerifyOk \<longrightarrow>
     valid elf (oj_app_config_toml j) (oj_mode j) proof)"

fun fresh_op :: "openvm_op \<Rightarrow> openvm_hist \<Rightarrow> bool" where
  "fresh_op (Op_Create e req) h = (ov_jobs (fst h) (oe_uuid e) = None \<and> ov_proofs (fst h) (oe_uuid e) = None)"
| "fresh_op _ h = True"

definition accepted ::
    "(bytes \<Rightarrow> string option \<Rightarrow> openvm_proof_mode \<Rightarrow> bytes \<Rightarrow> bool) \<Rightarrow> (string \<times> bytes) set \<Rightarrow> openvm_job \<Rightarrow> bytes \<Rightarrow> bool" where
  "accepted valid ups j proof \<longleftrightarrow>
     (\<exists>elf. (oj_program_id j, elf) \<in> ups \<and> valid elf (oj_app_config_toml j) (oj_mode j) proof)"

definition same_job :: "openvm_job \<Rightarrow> openvm_job \<Rightarrow> bool" where
  "same_job j j' \<longleftrightarrow> j'\<lparr>oj_terminal_error := None\<rparr> = j\<lparr>oj_terminal_error := None\<rparr>"

definition openvm_sinv ::
    "(bytes \<Rightarrow> string option \<Rightarrow> openvm_proof_mode \<Rightarrow> bytes \<Rightarrow> bool) \<Rightarrow> openvm_hist \<Rightarrow> bool" where
  "openvm_sinv valid h \<longleftrightarrow>
     (\<forall>pid elf. ov_programs (fst h) pid = Some elf \<longrightarrow> (pid, elf) \<in> snd h) \<and>
     (\<forall>pid b. ov_proofs (fst h) pid = Some b \<longrightarrow>
        (\<exists>j. ov_jobs (fst h) pid = Some j \<and> accepted valid (snd h) j b))"

definition job_copy :: "string \<Rightarrow> openvm_job \<Rightarrow> openvm_hist \<Rightarrow> bool" where
  "job_copy pid j h \<longleftrightarrow> (\<exists>j'. ov_jobs (fst h) pid = Some j' \<and> same_job j j')"

definition job_failed :: "string \<Rightarrow> openvm_hist \<Rightarrow> bool" where
  "job_failed pid h \<longleftrightarrow> (\<exists>j. ov_jobs (fst h) pid = Some j \<and> oj_terminal_error j \<noteq> None)"

fun openvm_pinv ::
    "(bytes \<Rightarrow> string option \<Rightarrow> openvm_proof_mode \<Rightarrow> bytes \<Rightarrow> bool) \<Rightarrow> string \<Rightarrow> openvm_phase \<Rightarrow> openvm_hist \<Rightarrow> bool" where
  "openvm_pinv valid pid (Ph_Stash j) h = job_copy pid j h"
| "openvm_pinv valid pid (Ph_Poll j) h = job_copy pid j h"
| "openvm_pinv valid pid (Ph_Unfulfillable j) h = job_copy pid j h"
| "openvm_pinv valid pid (Ph_Program j b) h = job_copy pid j h"
| "openvm_pinv valid pid (Ph_Verify j b elf) h = (job_copy pid j h \<and> (oj_program_id j, elf) \<in> snd h)"
| "openvm_pinv valid pid (Ph_Drop j err) h = job_copy pid j h"
| "openvm_pinv valid pid (Ph_Invalid j err) h = job_copy pid j h"
| "openvm_pinv valid pid (Ph_Complete j b) h = (job_copy pid j h \<and> accepted valid (snd h) j b)"
| "openvm_pinv valid pid (Ph_Store j b) h = (job_copy pid j h \<and> accepted valid (snd h) j b)"
| "openvm_pinv valid pid (Ph_Done (HttpOk r)) h =
     ((sr_status r = ''FAILED'' \<longrightarrow> job_failed pid h) \<and>
      (sr_status r = ''SUCCEEDED'' \<longrightarrow> ov_proofs (fst h) pid \<noteq> None))"
| "openvm_pinv valid pid _ h = True"

text \<open>What every step of every handler keeps: jobs stay, errors stay, proofs stay, the history grows.\<close>

definition openvm_grows :: "openvm_hist \<Rightarrow> openvm_hist \<Rightarrow> bool" where
  "openvm_grows h h' \<longleftrightarrow> snd h \<subseteq> snd h' \<and>
     (\<forall>pid. ov_proofs (fst h) pid \<noteq> None \<longrightarrow> ov_proofs (fst h') pid \<noteq> None) \<and>
     (\<forall>pid j. ov_jobs (fst h) pid = Some j \<longrightarrow> (\<exists>j'. ov_jobs (fst h') pid = Some j' \<and> same_job j j' \<and>
        (oj_terminal_error j \<noteq> None \<longrightarrow> oj_terminal_error j' \<noteq> None)))"

lemma same_job_refl [simp]: "same_job j j"
  by (simp add: same_job_def)

lemma same_job_error [simp]: "same_job j (j'\<lparr>oj_terminal_error := x\<rparr>) = same_job j j'"
  by (simp add: same_job_def)

lemma same_job_trans: "same_job a b \<Longrightarrow> same_job b c \<Longrightarrow> same_job a c"
  by (simp add: same_job_def)

lemma same_job_fields:
  assumes "same_job j j'"
  shows "oj_program_id j' = oj_program_id j" "oj_app_config_toml j' = oj_app_config_toml j"
    "oj_mode j' = oj_mode j" "oj_request_id j' = oj_request_id j"
  using assms by (cases j; cases j'; simp add: same_job_def)+

lemma accepted_same_job: "same_job j j' \<Longrightarrow> accepted valid ups j' b = accepted valid ups j b"
  by (simp add: accepted_def same_job_fields)

lemma accepted_mono: "accepted valid ups j b \<Longrightarrow> ups \<subseteq> ups' \<Longrightarrow> accepted valid ups' j b"
  unfolding accepted_def by blast

lemma openvm_grows_refl [simp]: "openvm_grows h h"
  by (auto simp: openvm_grows_def)

lemma job_copy_grows: "job_copy pid j h \<Longrightarrow> openvm_grows h h' \<Longrightarrow> job_copy pid j h'"
  unfolding job_copy_def openvm_grows_def by (meson same_job_trans)

lemma job_failed_grows: "job_failed pid h \<Longrightarrow> openvm_grows h h' \<Longrightarrow> job_failed pid h'"
  unfolding job_failed_def openvm_grows_def by meson

lemma openvm_pinv_grows:
  assumes "openvm_pinv valid pid p h" "openvm_grows h h'"
  shows "openvm_pinv valid pid p h'"
proof -
  have ups: "snd h \<subseteq> snd h'" and proofs: "ov_proofs (fst h) pid \<noteq> None \<Longrightarrow> ov_proofs (fst h') pid \<noteq> None"
    using assms(2) by (auto simp: openvm_grows_def)
  note jc = job_copy_grows [OF _ assms(2)] and jf = job_failed_grows [OF _ assms(2)]
  show ?thesis
    using assms(1) ups proofs jc jf accepted_mono [OF _ ups]
    by (cases "(valid, pid, p, h)" rule: openvm_pinv.cases) auto
qed

lemma set_job_error_grows: "openvm_grows (s, ups) (set_job_error pid err s, ups)"
  by (auto simp: openvm_grows_def set_job_error_def split: option.split)

lemma openvm_step_grows:
  assumes "openvm_hist_step cfg e pid p h = (p', h', cs)"
  shows "openvm_grows h h'"
  using assms
  by (cases h; cases p)
    (auto simp: openvm_hist_step_def set_job_error_grows Let_def openvm_grows_def [of _ "(_\<lparr>ov_proofs := _\<rparr>, _)"]
      split: option.splits prod.splits if_splits sum.splits outcome.splits)

lemma openvm_other_grows:
  assumes "fresh_op op h"
  shows "openvm_grows h (openvm_other cfg de op h)"
  using assms
  by (cases h; cases op)
    (auto simp: openvm_grows_def handle_program_put_def handle_input_put_def handle_proof_create_def Let_def
      split: option.splits sum.splits prod.splits)

lemma set_job_error_simps [simp]:
  "ov_programs (set_job_error pid err s) = ov_programs s" "ov_proofs (set_job_error pid err s) = ov_proofs s"
  by (simp_all add: set_job_error_def split: option.split)

lemma set_job_error_job:
  "ov_jobs s k = Some j \<Longrightarrow> \<exists>j'. ov_jobs (set_job_error pid err s) k = Some j' \<and> same_job j j'"
  by (cases "ov_jobs s pid") (auto simp: set_job_error_def)

lemma set_job_error_failed: "job_copy pid j (s, ups) \<Longrightarrow> job_failed pid (set_job_error pid err s, ups)"
  by (auto simp: job_failed_def job_copy_def set_job_error_def)

lemma openvm_sinv_error: "openvm_sinv valid (s, ups) \<Longrightarrow> openvm_sinv valid (set_job_error pid err s, ups)"
  unfolding openvm_sinv_def using set_job_error_job accepted_same_job by simp metis

lemma verified_valid:
  assumes "honest_worker valid e" "verify_openvm_proof (oe_calls e (verify_request j elf proof)) = Inr ()"
  shows "valid elf (oj_app_config_toml j) (oj_mode j) proof"
  using assms verify_verdict_accepts unfolding honest_worker_def by blast

lemma openvm_own_step:
  assumes "openvm_sinv valid (s, ups)" "openvm_pinv valid pid p (s, ups)" "honest_worker valid e"
    and "openvm_status_step cfg e pid p s = (p', s', cs)"
  shows "openvm_sinv valid (s', ups) \<and> openvm_pinv valid pid p' (s', ups)"
proof (cases p)
  case Ph_Job
  then show ?thesis
    using assms by (auto simp: job_copy_def job_failed_def response_failed_def split: option.splits)
next
  case (Ph_Stash j)
  then show ?thesis using assms by (auto simp: openvm_succeeded_def response_succeeded_def split: if_splits)
next
  case (Ph_Poll j)
  then show ?thesis
    using assms
    by (auto simp: response_running_def split: prod.splits outcome.splits sum.splits if_splits)
next
  case (Ph_Unfulfillable j)
  then show ?thesis
    using assms set_job_error_failed by (auto simp: response_failed_def openvm_sinv_error)
next
  case (Ph_Program j b)
  then show ?thesis using assms by (auto simp: openvm_sinv_def split: option.splits)
next
  case (Ph_Verify j b elf)
  then show ?thesis
    using assms verified_valid [OF assms(3)] by (auto simp: accepted_def split: if_splits sum.splits) blast
next
  case (Ph_Invalid j err)
  then show ?thesis
    using assms set_job_error_failed by (auto simp: response_failed_def openvm_sinv_error)
next
  case (Ph_Store j b)
  then show ?thesis
    using assms accepted_same_job
    by (auto simp: openvm_sinv_def job_copy_def openvm_succeeded_def response_succeeded_def split: if_splits)
qed (use assms in auto)

lemma openvm_other_sinv:
  assumes "openvm_sinv valid h" "fresh_op op h"
  shows "openvm_sinv valid (openvm_other cfg de op h)"
proof (cases op)
  case (Op_Program pid body)
  then show ?thesis
    using assms(1) accepted_mono [OF _ subset_insertI]
    by (cases h) (auto simp: openvm_sinv_def handle_program_put_def, blast)
next
  case (Op_Input iid body)
  then show ?thesis
    using assms(1) by (cases h) (auto simp: openvm_sinv_def handle_input_put_def split: option.splits)
next
  case (Op_Create e req)
  then show ?thesis
    using assms
    by (cases h) (auto simp: openvm_sinv_def handle_proof_create_def Let_def split: option.splits sum.splits prod.splits)
qed

interpretation openvm: status_surface "openvm_hist_step cfg" "openvm_other cfg de" "honest_worker valid" fresh_op
    "openvm_sinv valid" "openvm_pinv valid"
  for cfg de valid
proof
  fix h e k p p' h' cs
  assume *: "openvm_sinv valid h" "openvm_pinv valid k p h" "honest_worker valid e"
    "openvm_hist_step cfg e k p h = (p', h', cs)"
  obtain s ups where h: "h = (s, ups)" by (cases h)
  with *(4) obtain s' where s': "openvm_status_step cfg e k p s = (p', s', cs)" "h' = (s', ups)"
    by (auto simp: openvm_hist_step_def split: prod.splits)
  from openvm_own_step [OF *(1,2) [unfolded h] *(3) s'(1)] s'(2)
  show "openvm_sinv valid h' \<and> openvm_pinv valid k p' h'" by simp
next
  show "openvm_pinv valid k p h'"
    if "openvm_pinv valid k p h" "openvm_hist_step cfg e k2 p2 h = (p', h', cs)" for h e k p k2 p2 p' h' cs
    using openvm_pinv_grows [OF that(1) openvm_step_grows [OF that(2)]] .
qed (auto intro: openvm_other_sinv openvm_pinv_grows openvm_other_grows)

abbreviation openvm_polls where
  "openvm_polls cfg de valid \<equiv>
     polls (openvm_hist_step cfg) (openvm_other cfg de) (honest_worker valid) fresh_op (openvm_state_new, {})"

lemma openvm_start: "openvm_sinv valid (openvm_state_new, {})"
  by (simp add: openvm_sinv_def openvm_state_new_def)

lemmas openvm_polls_inv = openvm.polls_inv [OF _ openvm_start]

section \<open>Properties\<close>

text \<open>C15. However the polls of OpenVM jobs interleave with each other and with uploads and new jobs, a job that a
  poll has reported as SUCCEEDED can be downloaded, and what is downloaded is a valid proof, for the job's
  configuration and mode, of a program that was uploaded under the job's program id.\<close>

theorem openvm_success_verified:
  assumes "openvm_polls cfg de valid hs (s, ups)"
    and "(pid, Ph_Done (HttpOk r)) \<in> set hs" "sr_status r = ''SUCCEEDED''"
  shows "\<exists>j b elf. ov_jobs s pid = Some j \<and> handle_proof_download pid s = HttpOk b \<and>
           (oj_program_id j, elf) \<in> ups \<and> valid elf (oj_app_config_toml j) (oj_mode j) b"
proof -
  have inv: "openvm_sinv valid (s, ups)" and p: "openvm_pinv valid pid (Ph_Done (HttpOk r)) (s, ups)"
    using openvm_polls_inv [OF assms(1)] assms(2) by blast+
  from p assms(3) obtain b where b: "ov_proofs s pid = Some b" by auto
  with inv obtain j where "ov_jobs s pid = Some j" "accepted valid ups j b"
    unfolding openvm_sinv_def by auto blast
  with b show ?thesis by (auto simp: accepted_def handle_proof_download_def)
qed

text \<open>A failure is final: once any poll of a job has answered FAILED, every poll of it that starts later answers
  FAILED, without asking the registry and without changing the state, however polls interleave.\<close>

theorem openvm_failure_final:
  assumes "openvm_polls cfg de valid hs (s, ups)"
    and "(pid, Ph_Done (HttpOk r)) \<in> set hs" "sr_status r = ''FAILED''"
  shows "\<exists>err. (openvm_handle_proof_status cfg e pid s :: _ \<times> _ \<times> unit cmds) =
           (Ph_Done (HttpOk (response_failed err)), s, [])"
proof -
  have "openvm_pinv valid pid (Ph_Done (HttpOk r)) (s, ups)"
    using openvm_polls_inv [OF assms(1)] assms(2) by blast
  with assms(3) obtain j err where "ov_jobs s pid = Some j" "oj_terminal_error j = Some err"
    by (auto simp: job_failed_def)
  then show ?thesis
    by (intro exI [of _ err]) (simp add: openvm_handle_proof_status_def numeral_eq_Suc)
qed

lemma openvm_rank_decreases:
  "openvm_status_step cfg e pid p s = (p', s', cs) \<Longrightarrow> \<not> finished p \<Longrightarrow> phase_rank p' < phase_rank p"
  by (cases p) (auto split: option.splits prod.splits outcome.splits sum.splits if_splits)

lemma openvm_step_panic:
  assumes "openvm_status_step cfg e pid p s = (Ph_Panicked, s', cs :: 's cmds)" "p \<noteq> Ph_Panicked"
  shows "\<exists>rid. snd (get_proof_status (oe_poll e) rid :: 's cmds \<times> _) = Panicked"
  using assms
  by (cases p) (auto split: option.splits prod.splits outcome.splits sum.splits if_splits intro: sndI)

text \<open>A status request is answered after at most seven critical sections: the handler ends with a response, or
  with the panic of a report that says executed and carries no proof.\<close>

theorem openvm_status_answers:
  "\<exists>p s' cs. (openvm_handle_proof_status cfg e pid s :: _ \<times> _ \<times> 's cmds) = (p, s', cs) \<and>
     ((\<exists>r. p = Ph_Done r) \<or>
      p = Ph_Panicked \<and> (\<exists>c. pe_answer (oe_poll e) = Received (Some c) \<and>
        cps_execution_status c = execution_status_i32 Executed \<and> cps_proof c = None))"
proof -
  obtain p s' cs where run: "(openvm_handle_proof_status cfg e pid s :: _ \<times> _ \<times> 's cmds) = (p, s', cs)"
    by (cases "openvm_handle_proof_status cfg e pid s :: _ \<times> _ \<times> 's cmds")
  note run' = run [unfolded openvm_handle_proof_status_def]
  have "finished (fst (run_phases (\<lambda>e. openvm_status_step cfg e pid) (replicate 7 e) Ph_Job s :: _ \<times> _ \<times> 's cmds))"
    by (rule run_phases_finishes) (auto intro: openvm_rank_decreases)
  then have "finished p" using run' by simp
  show ?thesis
  proof (cases "p = Ph_Panicked")
    case True
    have "\<exists>e' \<in> set (replicate 7 e). \<exists>rid. snd (get_proof_status (oe_poll e') rid :: 's cmds \<times> _) = Panicked"
      using run_phases_panic [OF run' [unfolded True], where cond =
          "\<lambda>e. \<exists>rid. snd (get_proof_status (oe_poll e) rid :: 's cmds \<times> _) = Panicked"] openvm_step_panic
      by blast
    then show ?thesis using run True by (auto simp: get_proof_status_panics)
  next
    case False
    with \<open>finished p\<close> have "\<exists>r. p = Ph_Done r" by (cases p) auto
    then show ?thesis using run by auto
  qed
qed

text \<open>What a poll of the registry has to answer for the job to be reported as running, and as succeeded.\<close>

definition poll_running :: "openvm_env \<Rightarrow> b256 \<Rightarrow> bool" where
  "poll_running e rid \<longleftrightarrow> (\<exists>cs :: unit cmds. \<exists>st. get_proof_status (oe_poll e) rid = (cs, Ret (Inr st)) \<and>
     ps_fulfillment_status st \<noteq> fulfillment_status_i32 Unfulfillable \<and>
     (ps_fulfillment_status st \<noteq> fulfillment_status_i32 Fulfilled \<or> ps_proof st = []))"

definition poll_fulfilled :: "openvm_env \<Rightarrow> b256 \<Rightarrow> bytes \<Rightarrow> bool" where
  "poll_fulfilled e rid proof \<longleftrightarrow> (\<exists>cs :: unit cmds. \<exists>st. get_proof_status (oe_poll e) rid = (cs, Ret (Inr st)) \<and>
     ps_fulfillment_status st = fulfillment_status_i32 Fulfilled \<and> ps_proof st = proof \<and> proof \<noteq> [])"

lemma fulfilled_not_unfulfillable: "fulfillment_status_i32 Fulfilled \<noteq> fulfillment_status_i32 Unfulfillable"
  by simp

lemma status_running:
  assumes "ov_jobs s pid = Some j" "oj_terminal_error j = None" "ov_proofs s pid = None" "poll_running e (oj_request_id j)"
  shows "\<exists>st cs. (openvm_handle_proof_status cfg e pid s :: _ \<times> _ \<times> unit cmds) = (Ph_Done (HttpOk (response_running st)), s, cs)"
  using assms by (auto simp: poll_running_def openvm_handle_proof_status_def numeral_eq_Suc)

lemma status_fulfilled:
  assumes "ov_jobs s pid = Some j" "oj_terminal_error j = None" "ov_proofs s pid = None" "poll_fulfilled e (oj_request_id j) proof"
    "ov_programs s (oj_program_id j) = Some elf" "oe_join_ok e"
    "verify_openvm_proof (oe_calls e (verify_request j elf proof)) = Inr ()"
  shows "\<exists>cs. (openvm_handle_proof_status cfg e pid s :: _ \<times> _ \<times> unit cmds) =
     (Ph_Done (openvm_succeeded cfg pid), s\<lparr>ov_proofs := (ov_proofs s)(pid \<mapsto> proof)\<rparr>, cs)"
  using assms fulfilled_not_unfulfillable by (auto simp: poll_fulfilled_def openvm_handle_proof_status_def numeral_eq_Suc)

text \<open>C38. A program is replaced under its id while jobs refer to it, and a poll verifies against the replacement: a
  proof that would have been accepted for the program the job was created with is then refused, the job fails for
  good, and the worker that made the proof is dropped.\<close>

theorem openvm_overwrite_drops_worker:
  assumes "ov_jobs s pid = Some j" "oj_terminal_error j = None" "ov_proofs s pid = None"
    "poll_fulfilled e (oj_request_id j) proof" "oe_join_ok e" "ov_programs s (oj_program_id j) = Some elf"
    "verify_openvm_proof (oe_calls e (verify_request j elf proof)) = Inr ()"
    "verify_openvm_proof (oe_calls e (verify_request j replacement proof)) = Inl err" "normalize_program_id raw = oj_program_id j"
  shows "fst (openvm_handle_proof_status cfg e pid s :: _ \<times> _ \<times> unit cmds) = Ph_Done (openvm_succeeded cfg pid) \<and>
     (\<exists>s' cs. (openvm_handle_proof_status cfg e pid (handle_program_put raw replacement s) :: _ \<times> _ \<times> unit cmds) =
        (Ph_Done (HttpOk (response_failed (''worker returned invalid proof: '' @ err))), s', cs) \<and>
        (\<exists>j'. ov_jobs s' pid = Some j' \<and> oj_terminal_error j' \<noteq> None) \<and>
        set (drop_worker_of_request (oe_up e) (oj_request_id j)) \<subseteq> set cs)"
proof
  show "fst (openvm_handle_proof_status cfg e pid s :: _ \<times> _ \<times> unit cmds) = Ph_Done (openvm_succeeded cfg pid)"
    using status_fulfilled [OF assms(1-4,6,5,7), of cfg] by auto
  show "\<exists>s' cs. (openvm_handle_proof_status cfg e pid (handle_program_put raw replacement s) :: _ \<times> _ \<times> unit cmds) =
        (Ph_Done (HttpOk (response_failed (''worker returned invalid proof: '' @ err))), s', cs) \<and>
        (\<exists>j'. ov_jobs s' pid = Some j' \<and> oj_terminal_error j' \<noteq> None) \<and>
        set (drop_worker_of_request (oe_up e) (oj_request_id j)) \<subseteq> set cs"
    using assms fulfilled_not_unfulfillable
    by (auto simp: poll_fulfilled_def openvm_handle_proof_status_def numeral_eq_Suc handle_program_put_def set_job_error_def)
qed

section \<open>Two polls of one job\<close>

text \<open>
  A run of the surface together with the registry: a worker registers, a job is created and assigned, the
  worker reports the proof, and two polls interleave.
\<close>

definition demo_cfg :: surface_config where
  "demo_cfg = \<lparr>sc_ip = ''h'', sc_http_port = 1, sc_mock_mode = False\<rparr>"

definition demo_valid :: "bytes \<Rightarrow> string option \<Rightarrow> openvm_proof_mode \<Rightarrow> bytes \<Rightarrow> bool" where
  "demo_valid elf config mode proof \<longleftrightarrow> proof = [9]"

definition demo_calls :: "worker_request \<Rightarrow> nat \<Rightarrow> io_error + worker_response" where
  "demo_calls req k = (case req of
       Verify m elf config proof \<Rightarrow> (if proof = [9] then Inr VerifyOk else Inr (ErrResponse ''invalid''))
     | _ \<Rightarrow> Inl BrokenPipe)"

definition demo_openvm_env :: "resp \<Rightarrow> contemplant_proof_status option recv \<Rightarrow> openvm_env" where
  "demo_openvm_env rs answer =
     \<lparr>oe_poll = \<lparr>pe_up = True, pe_up2 = True, pe_resp = rs, pe_answer = answer\<rparr>, oe_up = True,
      oe_calls = demo_calls, oe_join_ok = True, oe_request_id = 1, oe_uuid = ''j''\<rparr>"

definition demo_create :: proof_create_request where
  "demo_create = \<lparr>pc_program = ''p'', pc_input = ''i'', pc_proof_mode = None, pc_app_config_toml = None\<rparr>"

definition demo_report :: contemplant_proof_status where
  "demo_report = \<lparr>cps_execution_status = execution_status_i32 Executed, cps_proof = Some [9], cps_progress = Some Done\<rparr>"

definition demo_created :: openvm_inner where
  "demo_created = snd (handle_input_put (\<lambda>_. Some []) ''i'' [] (handle_program_put ''p'' [1] openvm_state_new))"

definition demo_job :: openvm_job where
  "demo_job = \<lparr>oj_request_id = 1, oj_program_id = ''p'', oj_app_config_toml = None, oj_mode = O_App,
     oj_terminal_error = None\<rparr>"

lemma demo_honest [simp]: "honest_worker demo_valid (demo_openvm_env rs a)"
  by (simp add: honest_worker_def demo_openvm_env_def demo_calls_def verify_request_def demo_valid_def)

text \<open>The registry after the job was assigned and its proof completed, as the first poll's commands make it.\<close>

definition demo_registry :: "unit registry" where
  "demo_registry = fold (handle (demo_env 0))
     ([Cmd_WorkerReady ''w1'' ''alice'' [Vm_OpenVm] False False None 7 0] @
      snd (snd (handle_proof_create demo_cfg (demo_openvm_env 0 TimedOut) demo_create demo_created)) @
      [Cmd_ProofStatusRequest 1 5, Cmd_ProofStatusResponse 1 (Some demo_report), Cmd_ProofProgressUpdate 1 (Some Done)])
     (registry_init default_worker_registry_config)"

lemma norm_p [simp]: "normalize_program_id ''p'' = ''p''"
  by (simp add: normalize_program_id_def to_ascii_lowercase_def strip_0x_def trim_str_def is_white_def ascii_lower_def)

lemma demo_created_eq:
  "demo_created = \<lparr>ov_programs = [''p'' \<mapsto> [1]], ov_inputs = [''i'' \<mapsto> []], ov_jobs = Map.empty,
     ov_proofs = Map.empty\<rparr>"
  by (simp add: demo_created_def handle_input_put_def handle_program_put_def openvm_state_new_def)

lemma demo_create_eq:
  "(handle_proof_create demo_cfg (demo_openvm_env rs a) demo_create demo_created :: _ \<times> _ \<times> unit cmds) =
     (HttpOk ''j'', demo_created\<lparr>ov_jobs := [''j'' \<mapsto> demo_job]\<rparr>,
      [Cmd_AssignProofRequest (Req_OpenVm \<lparr>ovm_request_id = 1, ovm_elf = [1], ovm_app_config_toml = None,
         ovm_input = [], ovm_mode = O_App, ovm_mock = False\<rparr>)])"
  by (simp add: handle_proof_create_def demo_create_def demo_created_eq demo_openvm_env_def Let_def
      parse_openvm_proof_mode_def route_openvm_proof_def assign_proof_request_def demo_cfg_def demo_job_def)

lemmas demo_poll_defs = handle_proof_status_request_def handle_proof_status_response_def Let_def find_worker_def
  bridge_startup_race_def free_worker_of_failed_proof_def reported_unexecutable_def
  handle_proof_progress_update_def update_progress_def handle_proof_complete_def completed_proof_def
  poll_answer_def replies_def completed_proof_info_new_def

lemma demo_registry_answers:
  "poll_answer 5 demo_registry = Received (Some demo_report)"
  "poll_answer 6 (handle (demo_env 0) (Cmd_ProofStatusRequest 1 6)
     (handle (demo_env 0) (Cmd_ProofComplete 1) demo_registry)) = Received None"
  by (simp_all add: demo_registry_def demo_create_eq demo_env_def demo_report_def demo_defs demo_poll_defs)

lemma demo_verify [simp]: "verify_openvm_proof (demo_calls (Verify m elf config [9])) = Inr ()"
  by (simp add: verify_openvm_proof_def VERIFY_TRANSPORT_RETRIES_def upt_rec demo_calls_def)

lemmas demo_step_defs = openvm_hist_step_def demo_openvm_env_def get_proof_status_def proof_status_request_def
  Let_def demo_job_def demo_created_eq demo_report_def status_from_def execution_status_of_def mk_status_def
  status_lost_def verify_request_def to_proto_mode_def
  set_job_error_def

text \<open>The interleaving: poll 0 verifies and completes, poll 1 asks the registry and fails the job, poll 0 stores.\<close>

definition demo_schedule :: "(nat \<times> openvm_env) list" where
  "demo_schedule =
     (let a = (0, demo_openvm_env 5 (Received (Some demo_report))); b = (1, demo_openvm_env 6 (Received None))
      in [a, b, a, b, a, a, a, a, b, b, a])"

definition demo_final :: openvm_inner where
  "demo_final = demo_created\<lparr>ov_jobs := [''j'' \<mapsto> demo_job\<lparr>oj_terminal_error := Some openvm_unfulfillable\<rparr>],
     ov_proofs := [''j'' \<mapsto> [9]]\<rparr>"

lemma demo_race_polls:
  "openvm_polls demo_cfg (\<lambda>_. Some []) demo_valid
     [(''j'', Ph_Done (openvm_succeeded demo_cfg ''j'')), (''j'', Ph_Done (HttpOk (response_failed openvm_unfulfillable)))]
     (demo_final, {(''p'', [1])})"
proof -
  let ?P = "openvm_polls demo_cfg (\<lambda>_. Some []) demo_valid"
  let ?s = "(demo_created\<lparr>ov_jobs := [''j'' \<mapsto> demo_job]\<rparr>, {(''p'', [1])}) :: openvm_hist"
  have "?P [] (openvm_state_new, {})" by (rule polls_start)
  from polls_other [OF this, of "Op_Program ''p'' [1]"]
  have "?P [] (handle_program_put ''p'' [1] openvm_state_new, {(''p'', [1])})" by simp
  from polls_other [OF this, of "Op_Input ''i'' []"]
  have "?P [] (demo_created, {(''p'', [1])})" by (simp add: demo_created_def)
  from polls_other [OF this, of "Op_Create (demo_openvm_env 5 TimedOut) demo_create"]
  have "?P [] ?s" by (simp add: demo_create_eq) (simp add: demo_created_eq)
  from polls_arrive [OF polls_arrive [OF this]]
  have start: "?P [(''j'', Ph_Job), (''j'', Ph_Job)] ?s" by simp
  show ?thesis
    by (rule schedule_polls [OF start, of demo_schedule])
      (simp add: demo_schedule_def Let_def, simp add: demo_schedule_def demo_final_def demo_step_defs)
qed

text \<open>Two polls of one job can leave it failed for good although its proof was verified and stored: the first
  poll tells the registry that the proof is complete before it stores the proof; the registry, asked by the
  second poll in between, no longer knows the request (its answer is the one the registry model gives), and
  the second poll records a terminal failure. From then on every poll answers FAILED while the download
  serves the verified proof.\<close>

theorem openvm_poll_race:
  "poll_answer 5 demo_registry = Received (Some demo_report) \<and>
   poll_answer 6 (handle (demo_env 0) (Cmd_ProofStatusRequest 1 6)
     (handle (demo_env 0) (Cmd_ProofComplete 1) demo_registry)) = Received None \<and>
   (\<exists>s ups. openvm_polls demo_cfg (\<lambda>_. Some []) demo_valid
      [(''j'', Ph_Done (openvm_succeeded demo_cfg ''j'')),
       (''j'', Ph_Done (HttpOk (response_failed openvm_unfulfillable)))] (s, ups) \<and>
      handle_proof_download ''j'' s = HttpOk [9] \<and>
      (\<forall>e. (openvm_handle_proof_status demo_cfg e ''j'' s :: _ \<times> _ \<times> unit cmds) =
             (Ph_Done (HttpOk (response_failed openvm_unfulfillable)), s, [])))"
proof (intro conjI exI allI)
  show "handle_proof_download ''j'' demo_final = HttpOk [9]"
    by (simp add: handle_proof_download_def demo_final_def)
  show "(openvm_handle_proof_status demo_cfg e ''j'' demo_final :: _ \<times> _ \<times> unit cmds) =
      (Ph_Done (HttpOk (response_failed openvm_unfulfillable)), demo_final, [])" for e
    by (simp add: openvm_handle_proof_status_def numeral_eq_Suc demo_final_def)
qed (rule demo_registry_answers demo_race_polls)+

theorem openvm_success_verified_witness:
  "\<exists>s ups. ov_jobs s ''j'' \<noteq> None \<and> (\<exists>b elf. handle_proof_download ''j'' s = HttpOk b \<and> (''p'', elf) \<in> ups \<and> demo_valid elf None O_App b)"
proof -
  let ?r = "response_succeeded (presigned_url demo_cfg (''/proofs/'' @ ''j'' @ ''/download''))"
  have "sr_status ?r = ''SUCCEEDED''" by (simp add: response_succeeded_def)
  from openvm_success_verified [OF demo_race_polls _ this, of "''j''"]
  obtain j b elf where "ov_jobs demo_final ''j'' = Some j" "handle_proof_download ''j'' demo_final = HttpOk b"
    "(oj_program_id j, elf) \<in> {(''p'', [1])}" "demo_valid elf (oj_app_config_toml j) (oj_mode j) b"
    by (auto simp: openvm_succeeded_def)
  then show ?thesis by (intro exI [of _ demo_final] exI [of _ "{(''p'', [1])}"]) (auto simp: demo_final_def demo_job_def)
qed

theorem openvm_failure_final_witness:
  "\<exists>s err. (openvm_handle_proof_status demo_cfg (demo_openvm_env 7 TimedOut) ''j'' s :: _ \<times> _ \<times> unit cmds) =
     (Ph_Done (HttpOk (response_failed err)), s, [])"
proof -
  have "sr_status (response_failed openvm_unfulfillable) = ''FAILED''" by (simp add: response_failed_def)
  from openvm_failure_final [OF demo_race_polls _ this, of "''j''" "demo_openvm_env 7 TimedOut"]
  show ?thesis by (simp add: openvm_succeeded_def) blast
qed

definition picky_calls :: "worker_request \<Rightarrow> nat \<Rightarrow> io_error + worker_response" where
  "picky_calls req k = (case req of
       Verify m elf config proof \<Rightarrow> (if elf = [1] then Inr VerifyOk else Inr (ErrResponse ''commit''))
     | _ \<Rightarrow> Inl BrokenPipe)"

theorem openvm_overwrite_drops_worker_witness:
  "\<exists>s' cs err. (openvm_handle_proof_status demo_cfg (demo_openvm_env 5 (Received (Some demo_report))\<lparr>oe_calls := picky_calls\<rparr>) ''j''
      (handle_program_put ''p'' [2] (demo_created\<lparr>ov_jobs := [''j'' \<mapsto> demo_job]\<rparr>)) :: _ \<times> _ \<times> unit cmds) =
    (Ph_Done (HttpOk (response_failed err)), s', cs)"
proof -
  let ?e = "demo_openvm_env 5 (Received (Some demo_report))\<lparr>oe_calls := picky_calls\<rparr>"
  let ?s = "demo_created\<lparr>ov_jobs := [''j'' \<mapsto> demo_job]\<rparr>"
  have job: "ov_jobs ?s ''j'' = Some demo_job" "oj_terminal_error demo_job = None" "ov_proofs ?s ''j'' = None"
    "ov_programs ?s (oj_program_id demo_job) = Some [1]" "normalize_program_id ''p'' = oj_program_id demo_job"
    by (simp_all add: demo_created_eq demo_job_def)
  have poll: "poll_fulfilled ?e (oj_request_id demo_job) [9]" "oe_join_ok ?e"
    by (simp_all add: poll_fulfilled_def demo_step_defs)
  have verdicts: "verify_openvm_proof (oe_calls ?e (verify_request demo_job [1] [9])) = Inr ()"
    "\<exists>err. verify_openvm_proof (oe_calls ?e (verify_request demo_job [2] [9])) = Inl err"
    by (simp_all add: verify_request_def verify_openvm_proof_def VERIFY_TRANSPORT_RETRIES_def upt_rec picky_calls_def)
  then obtain err where "verify_openvm_proof (oe_calls ?e (verify_request demo_job [2] [9])) = Inl err" by blast
  from openvm_overwrite_drops_worker [OF job(1-3) poll job(4) verdicts(1) this job(5), of demo_cfg] show ?thesis by blast
qed

end
