(* ===== verification/Bonsai.thy ===== *)
theory Bonsai
  imports Status_Poll
begin

text \<open>
  The Bonsai REST surface (\<^verbatim>\<open>bonsai/router.rs\<close>, \<^verbatim>\<open>bonsai/state.rs\<close>, \<^verbatim>\<open>bonsai/types.rs\<close>): uploads of images, inputs and
  receipts, RISC Zero sessions, Groth16 wraps of their receipts, status polls that verify what a worker
  returned, and downloads. \<^verbatim>\<open>risc0_zkvm\<close> (receipt decoding and verification, image ids) is a parameter.
\<close>

section \<open>State\<close>

record bonsai_session =
  bs_request_id :: b256
  bs_image_id :: string
  bs_input_id :: string
  bs_mode :: risc0_proof_mode
  bs_terminal_error :: "string option"

record snark_state =
  sn_session_id :: string
  sn_request_id :: b256
  sn_image_id :: string
  sn_terminal_error :: "string option"

record bonsai_inner =
  bo_images :: "string \<rightharpoonup> bytes"
  bo_inputs :: "string \<rightharpoonup> bytes"
  bo_sessions :: "string \<rightharpoonup> bonsai_session"
  bo_receipts :: "string \<rightharpoonup> bytes"
  bo_snark_requests :: "string \<rightharpoonup> snark_state"
  bo_snark_receipts :: "string \<rightharpoonup> bytes"

definition bonsai_state_new :: bonsai_inner where
  "bonsai_state_new = \<lparr>bo_images = Map.empty, bo_inputs = Map.empty, bo_sessions = Map.empty,
     bo_receipts = Map.empty, bo_snark_requests = Map.empty, bo_snark_receipts = Map.empty\<rparr>"

record session_create_request =
  scr_img :: string
  scr_input :: string
  scr_assumptions :: "string list"
  scr_execute_only :: bool
  scr_proof_mode :: "string option"

text \<open>
  \<open>zk_decode\<close> is \<^verbatim>\<open>bincode::deserialize::<Receipt>\<close>, \<open>zk_image_id\<close> is \<^verbatim>\<open>compute_image_id\<close>, \<open>zk_verify\<close> is
  \<^verbatim>\<open>Receipt::verify\<close>; errors are their texts.
\<close>

record ('r, 'd) risc0_lib =
  zk_decode :: "bytes \<Rightarrow> string + 'r"
  zk_image_id :: "bytes \<Rightarrow> string + 'd"
  zk_verify :: "'r \<Rightarrow> 'd \<Rightarrow> string + unit"

record bonsai_env =
  be_poll :: poll_env
  be_up :: bool
  be_request_id :: b256
  be_uuid :: string

section \<open>Uploads\<close>

definition bonsai_version :: "string list" where
  "bonsai_version = [''2'', ''2.0'']"

definition bonsai_presigned_url :: "surface_config \<Rightarrow> string \<Rightarrow> string" where
  "bonsai_presigned_url cfg path =
     ''http://'' @ sc_ip cfg @ '':'' @ show_nat (sc_http_port cfg) @ ''/bonsai'' @ path"

definition normalize_image_id :: "string \<Rightarrow> string" where
  "normalize_image_id raw = to_ascii_lowercase (strip_0x (trim_str raw))"

definition handle_image_upload_url :: "surface_config \<Rightarrow> string \<Rightarrow> string" where
  "handle_image_upload_url cfg image_id = bonsai_presigned_url cfg (''/images/'' @ normalize_image_id image_id)"

text \<open>An ELF without an image id is refused; an id that does not match the computed one is only logged.\<close>

definition handle_image_put ::
    "('r, 'd) risc0_lib \<Rightarrow> string \<Rightarrow> bytes \<Rightarrow> bonsai_inner \<Rightarrow> unit http_result \<times> bonsai_inner" where
  "handle_image_put lib image_id body s = (case zk_image_id lib body of
       Inl _ \<Rightarrow> (HttpErr 400 [], s)
     | Inr _ \<Rightarrow> (HttpOk (), s\<lparr>bo_images := (bo_images s)(normalize_image_id image_id \<mapsto> body)\<rparr>))"

definition bonsai_input_upload_url :: "surface_config \<Rightarrow> bonsai_env \<Rightarrow> string \<times> string" where
  "bonsai_input_upload_url cfg e = (be_uuid e, bonsai_presigned_url cfg (''/inputs/'' @ be_uuid e))"

definition bonsai_input_put :: "string \<Rightarrow> bytes \<Rightarrow> bonsai_inner \<Rightarrow> bonsai_inner" where
  "bonsai_input_put input_id body s = s\<lparr>bo_inputs := (bo_inputs s)(input_id \<mapsto> body)\<rparr>"

definition handle_receipt_upload_url :: "surface_config \<Rightarrow> bonsai_env \<Rightarrow> string \<times> string" where
  "handle_receipt_upload_url cfg e = (be_uuid e, bonsai_presigned_url cfg (''/receipts/'' @ be_uuid e))"

definition handle_receipt_put :: "string \<Rightarrow> bytes \<Rightarrow> bonsai_inner \<Rightarrow> bonsai_inner" where
  "handle_receipt_put receipt_id body s = s\<lparr>bo_receipts := (bo_receipts s)(receipt_id \<mapsto> body)\<rparr>"

section \<open>Creating sessions and wraps\<close>

definition parse_risc0_proof_mode :: "string option \<Rightarrow> string + risc0_proof_mode" where
  "parse_risc0_proof_mode raw = (case map_option to_ascii_lowercase raw of
       None \<Rightarrow> Inr R_Composite
     | Some m \<Rightarrow>
         (if m = ''composite'' then Inr R_Composite
          else if m = ''succinct'' then Inr R_Succinct
          else if m = ''groth16'' then Inr R_Groth16
          else Inl (''unsupported proof_mode '' @ CHR 0x27 # m @ CHR 0x27 # '' (expected composite|succinct|groth16)'')))"

definition handle_session_create ::
    "surface_config \<Rightarrow> bonsai_env \<Rightarrow> session_create_request \<Rightarrow> bonsai_inner \<Rightarrow>
     string http_result \<times> bonsai_inner \<times> 's cmds" where
  "handle_session_create cfg e req s =
     (let image_id = normalize_image_id (scr_img req); input_id = scr_input req in
      case bo_images s image_id of
        None \<Rightarrow> (HttpErr 400 (''unknown image_id '' @ image_id), s, [])
      | Some elf \<Rightarrow> (case bo_inputs s input_id of
          None \<Rightarrow> (HttpErr 400 (''unknown input_id '' @ input_id), s, [])
        | Some input \<Rightarrow>
            (if scr_execute_only req
             then (HttpErr 501 ''execute_only sessions are not yet supported'', s, [])
             else if scr_assumptions req \<noteq> []
             then (HttpErr 501 ''session assumptions (composition) are not yet supported'', s, [])
             else (case parse_risc0_proof_mode (scr_proof_mode req) of
                 Inl err \<Rightarrow> (HttpErr 400 err, s, [])
               | Inr mode \<Rightarrow>
                   (let ses = \<lparr>bs_request_id = be_request_id e, bs_image_id = image_id, bs_input_id = input_id,
                               bs_mode = mode, bs_terminal_error = None\<rparr>;
                        s' = s\<lparr>bo_sessions := (bo_sessions s)(be_uuid e \<mapsto> ses)\<rparr>;
                        (cs, res) = route_risc0_proof (be_up e) (sc_mock_mode cfg) (be_request_id e) elf input mode None
                    in (case res of
                          Inl err \<Rightarrow> (HttpErr 500 (''route proof: '' @ client_error_text ''AssignProofRequest'' err), s', cs)
                        | Inr _ \<Rightarrow> (HttpOk (be_uuid e), s', cs)))))))"

definition handle_snark_create ::
    "surface_config \<Rightarrow> bonsai_env \<Rightarrow> string \<Rightarrow> bonsai_inner \<Rightarrow> string http_result \<times> bonsai_inner \<times> 's cmds" where
  "handle_snark_create cfg e session_id s = (case bo_sessions s session_id of
       None \<Rightarrow> (HttpErr 400 (''unknown session '' @ session_id), s, [])
     | Some ses \<Rightarrow> (case bo_receipts s session_id of
         None \<Rightarrow> (HttpErr 400 (''session '' @ session_id @ '' has no receipt yet; poll /sessions/status until SUCCEEDED before calling /snark/create''), s, [])
       | Some source_receipt \<Rightarrow>
           (let sn = \<lparr>sn_session_id = session_id, sn_request_id = be_request_id e, sn_image_id = bs_image_id ses,
                      sn_terminal_error = None\<rparr>;
                s' = s\<lparr>bo_snark_requests := (bo_snark_requests s)(be_uuid e \<mapsto> sn)\<rparr>;
                (cs, res) = route_risc0_proof (be_up e) (sc_mock_mode cfg) (be_request_id e) [] [] R_Groth16
                              (Some source_receipt)
            in (case res of
                  Inl err \<Rightarrow> (HttpErr 500 (''route snark wrap: '' @ client_error_text ''AssignProofRequest'' err), s', cs)
                | Inr _ \<Rightarrow> (HttpOk (be_uuid e), s', cs)))))"

section \<open>Status polls\<close>

text \<open>What both status handlers copy from their job: the request and the image.\<close>

record bonsai_copy =
  bc_request_id :: b256
  bc_image_id :: string

definition set_session_error :: "string \<Rightarrow> string \<Rightarrow> bonsai_inner \<Rightarrow> bonsai_inner" where
  "set_session_error sid err s = (case bo_sessions s sid of
       None \<Rightarrow> s
     | Some ses \<Rightarrow> s\<lparr>bo_sessions := (bo_sessions s)(sid \<mapsto> ses\<lparr>bs_terminal_error := Some err\<rparr>)\<rparr>)"

definition set_snark_error :: "string \<Rightarrow> string \<Rightarrow> bonsai_inner \<Rightarrow> bonsai_inner" where
  "set_snark_error nid err s = (case bo_snark_requests s nid of
       None \<Rightarrow> s
     | Some sn \<Rightarrow> s\<lparr>bo_snark_requests := (bo_snark_requests s)(nid \<mapsto> sn\<lparr>sn_terminal_error := Some err\<rparr>)\<rparr>)"

definition session_unfulfillable :: string where
  "session_unfulfillable = ''proof reported unfulfillable by worker registry''"

definition snark_unfulfillable :: string where
  "snark_unfulfillable = ''snark wrap reported unfulfillable by worker registry''"

definition session_succeeded :: "surface_config \<Rightarrow> string \<Rightarrow> status_response http_result" where
  "session_succeeded cfg sid =
     HttpOk (response_succeeded (bonsai_presigned_url cfg (''/receipts/'' @ sid @ ''/download'')))"

definition snark_succeeded :: "surface_config \<Rightarrow> string \<Rightarrow> status_response http_result" where
  "snark_succeeded cfg nid =
     HttpOk (response_succeeded (bonsai_presigned_url cfg (''/snark/'' @ nid @ ''/download'')))"

text \<open>The poll of the registry, common to both handlers; the wrap's RUNNING answer carries no state.\<close>

definition bonsai_poll_step ::
    "(proof_status \<Rightarrow> string option) \<Rightarrow> bonsai_env \<Rightarrow> bonsai_copy \<Rightarrow> bonsai_inner \<Rightarrow>
     (bonsai_copy, 'p) phase \<times> bonsai_inner \<times> 's cmds" where
  "bonsai_poll_step run e j s = (case get_proof_status (be_poll e) (bc_request_id j) of
       (cs, Panicked) \<Rightarrow> (Ph_Panicked, s, cs)
     | (cs, Ret (Inl err)) \<Rightarrow>
         (Ph_Done (HttpErr 500 (''status poll: '' @ client_error_text ''ProofStatus'' err)), s, cs)
     | (cs, Ret (Inr st)) \<Rightarrow>
         (if ps_fulfillment_status st = fulfillment_status_i32 Unfulfillable then (Ph_Unfulfillable j, s, cs)
          else if ps_fulfillment_status st \<noteq> fulfillment_status_i32 Fulfilled \<or> ps_proof st = []
          then (Ph_Done (HttpOk (response_running (run st))), s, cs)
          else (Ph_Program j (ps_proof st), s, cs)))"

text \<open>Decoding the receipt, then the image and its id; what is left to verify is the pair.\<close>

definition bonsai_decode_step ::
    "('r, 'd) risc0_lib \<Rightarrow> string \<Rightarrow> string \<Rightarrow> string \<Rightarrow> bonsai_copy \<Rightarrow> bytes \<Rightarrow> bonsai_inner \<Rightarrow>
     (bonsai_copy, 'r \<times> 'd) phase" where
  "bonsai_decode_step lib malformed missing recompute j proof s = (case zk_decode lib proof of
       Inl err \<Rightarrow> Ph_Drop j (malformed @ err)
     | Inr receipt \<Rightarrow> (case bo_images s (bc_image_id j) of
         None \<Rightarrow> Ph_Done (HttpErr 500 missing)
       | Some elf \<Rightarrow> (case zk_image_id lib elf of
           Inl err \<Rightarrow> Ph_Done (HttpErr 500 (recompute @ err))
         | Inr digest \<Rightarrow> Ph_Verify j proof (receipt, digest))))"

fun session_status_step ::
    "surface_config \<Rightarrow> ('r, 'd) risc0_lib \<Rightarrow> bonsai_env \<Rightarrow> string \<Rightarrow> (bonsai_copy, 'r \<times> 'd) phase \<Rightarrow> bonsai_inner \<Rightarrow>
     (bonsai_copy, 'r \<times> 'd) phase \<times> bonsai_inner \<times> 's cmds" where
  "session_status_step cfg lib e sid Ph_Job s = (case bo_sessions s sid of
       None \<Rightarrow> (Ph_Done (HttpErr 404 (''unknown session '' @ sid)), s, [])
     | Some ses \<Rightarrow> (case bs_terminal_error ses of
           Some err \<Rightarrow> (Ph_Done (HttpOk (response_failed err)), s, [])
         | None \<Rightarrow> (Ph_Stash \<lparr>bc_request_id = bs_request_id ses, bc_image_id = bs_image_id ses\<rparr>, s, [])))"
| "session_status_step cfg lib e sid (Ph_Stash j) s =
     (if bo_receipts s sid \<noteq> None then (Ph_Done (session_succeeded cfg sid), s, []) else (Ph_Poll j, s, []))"
| "session_status_step cfg lib e sid (Ph_Poll j) s = bonsai_poll_step (\<lambda>st. Some (execution_state_text st)) e j s"
| "session_status_step cfg lib e sid (Ph_Unfulfillable j) s =
     (Ph_Done (HttpOk (response_failed session_unfulfillable)), set_session_error sid session_unfulfillable s, [])"
| "session_status_step cfg lib e sid (Ph_Program j proof) s =
     (bonsai_decode_step lib ''worker returned malformed receipt: ''
        (''image for session '' @ sid @ '' missing at verify time'') ''recompute image_id: '' j proof s, s, [])"
| "session_status_step cfg lib e sid (Ph_Verify j proof rd) s = (case zk_verify lib (fst rd) (snd rd) of
       Inl err \<Rightarrow> (Ph_Drop j (''worker returned invalid receipt: '' @ err), s, [])
     | Inr _ \<Rightarrow> (Ph_Complete j proof, s, []))"
| "session_status_step cfg lib e sid (Ph_Drop j err) s =
     (Ph_Invalid j err, s, drop_worker_of_request (be_up e) (bc_request_id j))"
| "session_status_step cfg lib e sid (Ph_Invalid j err) s =
     (Ph_Done (HttpOk (response_failed err)), set_session_error sid err s, [])"
| "session_status_step cfg lib e sid (Ph_Complete j proof) s =
     (Ph_Store j proof, s, fst (proof_complete (be_up e) (bc_request_id j)))"
| "session_status_step cfg lib e sid (Ph_Store j proof) s =
     (Ph_Done (session_succeeded cfg sid), s\<lparr>bo_receipts := (bo_receipts s)(sid \<mapsto> proof)\<rparr>, [])"
| "session_status_step cfg lib e sid (Ph_Done r) s = (Ph_Done r, s, [])"
| "session_status_step cfg lib e sid Ph_Panicked s = (Ph_Panicked, s, [])"

fun snark_status_step ::
    "surface_config \<Rightarrow> ('r, 'd) risc0_lib \<Rightarrow> bonsai_env \<Rightarrow> string \<Rightarrow> (bonsai_copy, 'r \<times> 'd) phase \<Rightarrow> bonsai_inner \<Rightarrow>
     (bonsai_copy, 'r \<times> 'd) phase \<times> bonsai_inner \<times> 's cmds" where
  "snark_status_step cfg lib e nid Ph_Job s = (case bo_snark_requests s nid of
       None \<Rightarrow> (Ph_Done (HttpErr 404 (''unknown snark '' @ nid)), s, [])
     | Some sn \<Rightarrow> (case sn_terminal_error sn of
           Some err \<Rightarrow> (Ph_Done (HttpOk (response_failed err)), s, [])
         | None \<Rightarrow> (Ph_Stash \<lparr>bc_request_id = sn_request_id sn, bc_image_id = sn_image_id sn\<rparr>, s, [])))"
| "snark_status_step cfg lib e nid (Ph_Stash j) s =
     (if bo_snark_receipts s nid \<noteq> None then (Ph_Done (snark_succeeded cfg nid), s, []) else (Ph_Poll j, s, []))"
| "snark_status_step cfg lib e nid (Ph_Poll j) s = bonsai_poll_step (\<lambda>_. None) e j s"
| "snark_status_step cfg lib e nid (Ph_Unfulfillable j) s =
     (Ph_Done (HttpOk (response_failed snark_unfulfillable)), set_snark_error nid snark_unfulfillable s, [])"
| "snark_status_step cfg lib e nid (Ph_Program j proof) s =
     (bonsai_decode_step lib ''worker returned malformed wrapped receipt: ''
        (''image for snark '' @ nid @ '' missing at verify time'')
        (''recompute image_id for snark '' @ nid @ '': '') j proof s, s, [])"
| "snark_status_step cfg lib e nid (Ph_Verify j proof rd) s = (case zk_verify lib (fst rd) (snd rd) of
       Inl err \<Rightarrow> (Ph_Drop j (''worker returned invalid wrapped receipt: '' @ err), s, [])
     | Inr _ \<Rightarrow> (Ph_Complete j proof, s, []))"
| "snark_status_step cfg lib e nid (Ph_Drop j err) s =
     (Ph_Invalid j err, s, drop_worker_of_request (be_up e) (bc_request_id j))"
| "snark_status_step cfg lib e nid (Ph_Invalid j err) s =
     (Ph_Done (HttpOk (response_failed err)), set_snark_error nid err s, [])"
| "snark_status_step cfg lib e nid (Ph_Complete j proof) s =
     (Ph_Store j proof, s, fst (proof_complete (be_up e) (bc_request_id j)))"
| "snark_status_step cfg lib e nid (Ph_Store j proof) s =
     (Ph_Done (snark_succeeded cfg nid), s\<lparr>bo_snark_receipts := (bo_snark_receipts s)(nid \<mapsto> proof)\<rparr>, [])"
| "snark_status_step cfg lib e nid (Ph_Done r) s = (Ph_Done r, s, [])"
| "snark_status_step cfg lib e nid Ph_Panicked s = (Ph_Panicked, s, [])"

definition handle_session_status ::
    "surface_config \<Rightarrow> ('r, 'd) risc0_lib \<Rightarrow> bonsai_env \<Rightarrow> string \<Rightarrow> bonsai_inner \<Rightarrow>
     (bonsai_copy, 'r \<times> 'd) phase \<times> bonsai_inner \<times> 's cmds" where
  "handle_session_status cfg lib e sid s =
     run_phases (\<lambda>e. session_status_step cfg lib e sid) (replicate 7 e) Ph_Job s"

definition handle_snark_status ::
    "surface_config \<Rightarrow> ('r, 'd) risc0_lib \<Rightarrow> bonsai_env \<Rightarrow> string \<Rightarrow> bonsai_inner \<Rightarrow>
     (bonsai_copy, 'r \<times> 'd) phase \<times> bonsai_inner \<times> 's cmds" where
  "handle_snark_status cfg lib e nid s =
     run_phases (\<lambda>e. snark_status_step cfg lib e nid) (replicate 7 e) Ph_Job s"

definition handle_receipt_download :: "string \<Rightarrow> bonsai_inner \<Rightarrow> bytes http_result" where
  "handle_receipt_download sid s = (case bo_receipts s sid of Some b \<Rightarrow> HttpOk b | None \<Rightarrow> HttpErr 404 [])"

definition handle_snark_receipt_download :: "string \<Rightarrow> bonsai_inner \<Rightarrow> bytes http_result" where
  "handle_snark_receipt_download nid s = (case bo_snark_receipts s nid of Some b \<Rightarrow> HttpOk b | None \<Rightarrow> HttpErr 404 [])"

section \<open>All handlers together\<close>

datatype bonsai_key = K_Session string | K_Snark string

datatype bonsai_op =
    Op_Image string bytes
  | Op_BInput string bytes
  | Op_Receipt string bytes
  | Op_Session bonsai_env session_create_request
  | Op_Snark bonsai_env string

text \<open>The state with the histories of image uploads and of the ids of uploaded receipts.\<close>

record bonsai_hist =
  bh_inner :: bonsai_inner
  bh_images :: "(string \<times> bytes) set"
  bh_puts :: "string set"

fun bonsai_other :: "surface_config \<Rightarrow> ('r, 'd) risc0_lib \<Rightarrow> bonsai_op \<Rightarrow> bonsai_hist \<Rightarrow> bonsai_hist" where
  "bonsai_other cfg lib (Op_Image iid body) h =
     h\<lparr>bh_inner := snd (handle_image_put lib iid body (bh_inner h)),
       bh_images := insert (normalize_image_id iid, body) (bh_images h)\<rparr>"
| "bonsai_other cfg lib (Op_BInput iid body) h = h\<lparr>bh_inner := bonsai_input_put iid body (bh_inner h)\<rparr>"
| "bonsai_other cfg lib (Op_Receipt rid body) h =
     h\<lparr>bh_inner := handle_receipt_put rid body (bh_inner h), bh_puts := insert rid (bh_puts h)\<rparr>"
| "bonsai_other cfg lib (Op_Session e req) h =
     h\<lparr>bh_inner := fst (snd (handle_session_create cfg e req (bh_inner h) :: _ \<times> _ \<times> unit cmds))\<rparr>"
| "bonsai_other cfg lib (Op_Snark e sid) h =
     h\<lparr>bh_inner := fst (snd (handle_snark_create cfg e sid (bh_inner h) :: _ \<times> _ \<times> unit cmds))\<rparr>"

fun bonsai_status_step ::
    "surface_config \<Rightarrow> ('r, 'd) risc0_lib \<Rightarrow> bonsai_env \<Rightarrow> bonsai_key \<Rightarrow> (bonsai_copy, 'r \<times> 'd) phase \<Rightarrow> bonsai_inner \<Rightarrow>
     (bonsai_copy, 'r \<times> 'd) phase \<times> bonsai_inner \<times> unit cmds" where
  "bonsai_status_step cfg lib e (K_Session sid) p s = session_status_step cfg lib e sid p s"
| "bonsai_status_step cfg lib e (K_Snark nid) p s = snark_status_step cfg lib e nid p s"

definition bonsai_hist_step ::
    "surface_config \<Rightarrow> ('r, 'd) risc0_lib \<Rightarrow> bonsai_env \<Rightarrow> bonsai_key \<Rightarrow> (bonsai_copy, 'r \<times> 'd) phase \<Rightarrow> bonsai_hist \<Rightarrow>
     (bonsai_copy, 'r \<times> 'd) phase \<times> bonsai_hist \<times> unit cmds" where
  "bonsai_hist_step cfg lib e k p h =
     (let (p', s', cs) = bonsai_status_step cfg lib e k p (bh_inner h) in (p', h\<lparr>bh_inner := s'\<rparr>, cs))"

text \<open>Fresh uuids are new, also among the ids of uploaded receipts.\<close>

fun bonsai_fresh :: "bonsai_op \<Rightarrow> bonsai_hist \<Rightarrow> bool" where
  "bonsai_fresh (Op_Session e req) h =
     (bo_sessions (bh_inner h) (be_uuid e) = None \<and> bo_receipts (bh_inner h) (be_uuid e) = None)"
| "bonsai_fresh (Op_Snark e sid) h =
     (bo_snark_requests (bh_inner h) (be_uuid e) = None \<and> bo_snark_receipts (bh_inner h) (be_uuid e) = None)"
| "bonsai_fresh _ h = True"

section \<open>Invariant\<close>

text \<open>The request, the image and the error of a job; what is stored for it.\<close>

fun bonsai_job :: "bonsai_key \<Rightarrow> bonsai_inner \<Rightarrow> (bonsai_copy \<times> string option) option" where
  "bonsai_job (K_Session sid) s = map_option (\<lambda>ses.
     (\<lparr>bc_request_id = bs_request_id ses, bc_image_id = bs_image_id ses\<rparr>, bs_terminal_error ses)) (bo_sessions s sid)"
| "bonsai_job (K_Snark nid) s = map_option (\<lambda>sn.
     (\<lparr>bc_request_id = sn_request_id sn, bc_image_id = sn_image_id sn\<rparr>, sn_terminal_error sn)) (bo_snark_requests s nid)"

fun bonsai_stored :: "bonsai_key \<Rightarrow> bonsai_inner \<Rightarrow> bytes option" where
  "bonsai_stored (K_Session sid) s = bo_receipts s sid"
| "bonsai_stored (K_Snark nid) s = bo_snark_receipts s nid"

definition verified_receipt ::
    "('r, 'd) risc0_lib \<Rightarrow> (string \<times> bytes) set \<Rightarrow> string \<Rightarrow> bytes \<Rightarrow> bool" where
  "verified_receipt lib imgs image_id b \<longleftrightarrow> (\<exists>elf receipt digest. (image_id, elf) \<in> imgs \<and>
     zk_decode lib b = Inr receipt \<and> zk_image_id lib elf = Inr digest \<and> zk_verify lib receipt digest = Inr ())"

fun uploaded_receipt :: "bonsai_key \<Rightarrow> bonsai_hist \<Rightarrow> bool" where
  "uploaded_receipt (K_Session sid) h = (sid \<in> bh_puts h)"
| "uploaded_receipt (K_Snark nid) h = False"

lemma uploaded_receipt_inner: "uploaded_receipt k (h\<lparr>bh_inner := s\<rparr>) = uploaded_receipt k h"
  by (cases k) simp_all

definition bonsai_sinv :: "('r, 'd) risc0_lib \<Rightarrow> bonsai_hist \<Rightarrow> bool" where
  "bonsai_sinv lib h \<longleftrightarrow>
     (\<forall>i elf. bo_images (bh_inner h) i = Some elf \<longrightarrow> (i, elf) \<in> bh_images h) \<and>
     (\<forall>k b. bonsai_stored k (bh_inner h) = Some b \<longrightarrow> uploaded_receipt k h \<or>
        (\<exists>j err. bonsai_job k (bh_inner h) = Some (j, err) \<and> verified_receipt lib (bh_images h) (bc_image_id j) b))"

definition bonsai_copied :: "bonsai_key \<Rightarrow> bonsai_copy \<Rightarrow> bonsai_hist \<Rightarrow> bool" where
  "bonsai_copied k j h \<longleftrightarrow> (\<exists>err. bonsai_job k (bh_inner h) = Some (j, err))"

definition bonsai_failed :: "bonsai_key \<Rightarrow> bonsai_hist \<Rightarrow> bool" where
  "bonsai_failed k h \<longleftrightarrow> (\<exists>j err. bonsai_job k (bh_inner h) = Some (j, Some err))"

fun bonsai_pinv ::
    "('r, 'd) risc0_lib \<Rightarrow> bonsai_key \<Rightarrow> (bonsai_copy, 'r \<times> 'd) phase \<Rightarrow> bonsai_hist \<Rightarrow> bool" where
  "bonsai_pinv lib k (Ph_Stash j) h = bonsai_copied k j h"
| "bonsai_pinv lib k (Ph_Poll j) h = bonsai_copied k j h"
| "bonsai_pinv lib k (Ph_Unfulfillable j) h = bonsai_copied k j h"
| "bonsai_pinv lib k (Ph_Program j b) h = bonsai_copied k j h"
| "bonsai_pinv lib k (Ph_Verify j b rd) h = (bonsai_copied k j h \<and> zk_decode lib b = Inr (fst rd) \<and>
     (\<exists>elf. (bc_image_id j, elf) \<in> bh_images h \<and> zk_image_id lib elf = Inr (snd rd)))"
| "bonsai_pinv lib k (Ph_Drop j err) h = bonsai_copied k j h"
| "bonsai_pinv lib k (Ph_Invalid j err) h = bonsai_copied k j h"
| "bonsai_pinv lib k (Ph_Complete j b) h = (bonsai_copied k j h \<and> verified_receipt lib (bh_images h) (bc_image_id j) b)"
| "bonsai_pinv lib k (Ph_Store j b) h = (bonsai_copied k j h \<and> verified_receipt lib (bh_images h) (bc_image_id j) b)"
| "bonsai_pinv lib k (Ph_Done (HttpOk r)) h =
     ((sr_status r = ''FAILED'' \<longrightarrow> bonsai_failed k h) \<and>
      (sr_status r = ''SUCCEEDED'' \<longrightarrow> bonsai_stored k (bh_inner h) \<noteq> None))"
| "bonsai_pinv lib k _ h = True"

definition bonsai_grows :: "bonsai_hist \<Rightarrow> bonsai_hist \<Rightarrow> bool" where
  "bonsai_grows h h' \<longleftrightarrow> bh_images h \<subseteq> bh_images h' \<and> bh_puts h \<subseteq> bh_puts h' \<and>
     (\<forall>k. bonsai_stored k (bh_inner h) \<noteq> None \<longrightarrow> bonsai_stored k (bh_inner h') \<noteq> None) \<and>
     (\<forall>k j err. bonsai_job k (bh_inner h) = Some (j, err) \<longrightarrow>
        (\<exists>err'. bonsai_job k (bh_inner h') = Some (j, err') \<and> (err \<noteq> None \<longrightarrow> err' \<noteq> None)))"

lemma bonsai_grows_refl [simp]: "bonsai_grows h h"
  by (auto simp: bonsai_grows_def)

lemma verified_receipt_mono:
  "verified_receipt lib imgs i b \<Longrightarrow> imgs \<subseteq> imgs' \<Longrightarrow> verified_receipt lib imgs' i b"
  unfolding verified_receipt_def by blast

lemma bonsai_pinv_grows:
  assumes "bonsai_pinv lib k p h" "bonsai_grows h h'"
  shows "bonsai_pinv lib k p h'"
proof -
  have imgs: "bh_images h \<subseteq> bh_images h'"
    and stored: "bonsai_stored k (bh_inner h) \<noteq> None \<Longrightarrow> bonsai_stored k (bh_inner h') \<noteq> None"
    and copied: "\<And>j. bonsai_copied k j h \<Longrightarrow> bonsai_copied k j h'"
    and failed: "bonsai_failed k h \<Longrightarrow> bonsai_failed k h'"
    using assms(2) unfolding bonsai_grows_def bonsai_copied_def bonsai_failed_def by (blast, blast, blast, metis option.exhaust)
  show ?thesis
    using assms(1) imgs stored copied failed verified_receipt_mono [OF _ imgs]
    by (cases "(lib, k, p, h)" rule: bonsai_pinv.cases) auto
qed

text \<open>Setting the error of a job, under its key.\<close>

fun set_bonsai_error :: "bonsai_key \<Rightarrow> string \<Rightarrow> bonsai_inner \<Rightarrow> bonsai_inner" where
  "set_bonsai_error (K_Session sid) err s = set_session_error sid err s"
| "set_bonsai_error (K_Snark nid) err s = set_snark_error nid err s"

fun set_bonsai_stored :: "bonsai_key \<Rightarrow> bytes \<Rightarrow> bonsai_inner \<Rightarrow> bonsai_inner" where
  "set_bonsai_stored (K_Session sid) b s = s\<lparr>bo_receipts := (bo_receipts s)(sid \<mapsto> b)\<rparr>"
| "set_bonsai_stored (K_Snark nid) b s = s\<lparr>bo_snark_receipts := (bo_snark_receipts s)(nid \<mapsto> b)\<rparr>"

lemma bonsai_error_simps [simp]:
  "bo_images (set_bonsai_error k err s) = bo_images s"
  "bonsai_stored k' (set_bonsai_error k err s) = bonsai_stored k' s"
  by (cases k; cases k'; simp add: set_session_error_def set_snark_error_def split: option.split)+

lemma bonsai_job_error:
  "bonsai_job k' (set_bonsai_error k err s) =
     (if k' = k then map_option (\<lambda>(j, _). (j, Some err)) (bonsai_job k s) else bonsai_job k' s)"
  by (cases k; cases k') (auto simp: set_session_error_def set_snark_error_def split: option.split)

lemma bonsai_stored_simps [simp]:
  "bo_images (set_bonsai_stored k b s) = bo_images s"
  "bonsai_job k' (set_bonsai_stored k b s) = bonsai_job k' s"
  "bonsai_stored k' (set_bonsai_stored k b s) = (if k' = k then Some b else bonsai_stored k' s)"
  by (cases k; cases k'; simp)+

text \<open>The two handlers change the state in two ways only.\<close>

lemma bonsai_step_effect:
  assumes "bonsai_status_step cfg lib e k p s = (p', s', cs)"
  shows "s' = s \<or> (\<exists>j err. s' = set_bonsai_error k err s \<and> p' = Ph_Done (HttpOk (response_failed err)) \<and>
             (p = Ph_Unfulfillable j \<or> p = Ph_Invalid j err)) \<or>
         (\<exists>j b. s' = set_bonsai_stored k b s \<and> p = Ph_Store j b)"
  using assms
  by (cases k; cases p) (auto simp: bonsai_poll_step_def split: option.splits prod.splits outcome.splits sum.splits if_splits)

lemma bonsai_error_grows: "bonsai_grows h (h\<lparr>bh_inner := set_bonsai_error k err (bh_inner h)\<rparr>)"
  by (auto simp: bonsai_grows_def bonsai_job_error)

lemma bonsai_stored_grows: "bonsai_grows h (h\<lparr>bh_inner := set_bonsai_stored k b (bh_inner h)\<rparr>)"
  by (auto simp: bonsai_grows_def)

lemma bonsai_step_grows:
  assumes "bonsai_hist_step cfg lib e k p h = (p', h', cs)"
  shows "bonsai_grows h h'"
proof -
  obtain s' where s': "bonsai_status_step cfg lib e k p (bh_inner h) = (p', s', cs)" "h' = h\<lparr>bh_inner := s'\<rparr>"
    using assms by (auto simp: bonsai_hist_step_def split: prod.splits)
  show ?thesis
    using bonsai_step_effect [OF s'(1)] s'(2) bonsai_error_grows bonsai_stored_grows by auto
qed

lemma bonsai_other_grows:
  assumes "bonsai_fresh op h"
  shows "bonsai_grows h (bonsai_other cfg lib op h)"
proof -
  have split_key: "(\<forall>k :: bonsai_key. P k) \<longleftrightarrow> (\<forall>x. P (K_Session x)) \<and> (\<forall>x. P (K_Snark x))" for P
    by (metis bonsai_key.exhaust)
  show ?thesis
    using assms unfolding bonsai_grows_def split_key
    by (cases op)
      (auto simp: handle_image_put_def bonsai_input_put_def handle_receipt_put_def handle_session_create_def
        handle_snark_create_def Let_def split: option.splits sum.splits prod.splits)
qed

lemma bonsai_sinv_error:
  "bonsai_sinv lib h \<Longrightarrow> bonsai_sinv lib (h\<lparr>bh_inner := set_bonsai_error k err (bh_inner h)\<rparr>)"
  unfolding bonsai_sinv_def
  by (auto simp: bonsai_job_error uploaded_receipt_inner split: prod.splits)

lemma bonsai_sinv_stored:
  assumes "bonsai_sinv lib h" "bonsai_copied k j h" "verified_receipt lib (bh_images h) (bc_image_id j) b"
  shows "bonsai_sinv lib (h\<lparr>bh_inner := set_bonsai_stored k b (bh_inner h)\<rparr>)"
  using assms unfolding bonsai_sinv_def bonsai_copied_def by (auto simp: uploaded_receipt_inner)

lemma bonsai_decode_pinv:
  assumes "bonsai_sinv lib h" "bonsai_copied k j h"
  shows "bonsai_pinv lib k (bonsai_decode_step lib m x r j b (bh_inner h)) h"
  using assms unfolding bonsai_decode_step_def bonsai_sinv_def by (auto split: option.split sum.split)

lemma bonsai_own_phase:
  assumes "bonsai_sinv lib h" "bonsai_pinv lib k p h"
    and "bonsai_status_step cfg lib e k p (bh_inner h) = (p', bh_inner h, cs)" "\<not> finished p"
    and "\<forall>j err b. p \<noteq> Ph_Unfulfillable j \<and> p \<noteq> Ph_Invalid j err \<and> p \<noteq> Ph_Store j b"
  shows "bonsai_pinv lib k p' h"
proof (cases p)
  case Ph_Job
  then show ?thesis
    using assms(3) by (cases k) (auto simp: bonsai_copied_def bonsai_failed_def response_failed_def split: option.splits)
next
  case (Ph_Stash j)
  then show ?thesis
    using assms(2,3)
    by (cases k) (auto simp: session_succeeded_def snark_succeeded_def response_succeeded_def split: if_splits)
next
  case (Ph_Poll j)
  then show ?thesis
    using assms(2,3)
    by (cases k) (auto simp: bonsai_poll_step_def response_running_def
        split: prod.splits outcome.splits sum.splits if_splits)
next
  case (Ph_Program j b)
  then show ?thesis
    using assms(2,3) bonsai_decode_pinv [OF assms(1)] by (cases k) auto
next
  case (Ph_Verify j b rd)
  then have "verified_receipt lib (bh_images h) (bc_image_id j) b" if "zk_verify lib (fst rd) (snd rd) = Inr ()"
    using assms(2) that unfolding verified_receipt_def by auto
  then show ?thesis
    using assms(2,3) Ph_Verify by (cases k) (auto split: sum.splits)
next
  case (Ph_Complete j b)
  then show ?thesis using assms(2,3) by (cases k) auto
next
  case (Ph_Drop j err)
  then show ?thesis using assms(2,3) by (cases k) auto
qed (use assms in auto)

lemma bonsai_read_only:
  assumes "bonsai_status_step cfg lib e k p s = (p', s', cs)"
    and "\<forall>j err b. p \<noteq> Ph_Unfulfillable j \<and> p \<noteq> Ph_Invalid j err \<and> p \<noteq> Ph_Store j b"
  shows "s' = s"
  using bonsai_step_effect [OF assms(1)] assms(2) by auto

lemma bonsai_writes:
  "bonsai_status_step cfg lib e k (Ph_Unfulfillable j) s = (p', s', cs) \<Longrightarrow>
     \<exists>err. s' = set_bonsai_error k err s \<and> p' = Ph_Done (HttpOk (response_failed err))"
  "bonsai_status_step cfg lib e k (Ph_Invalid j err) s = (p', s', cs) \<Longrightarrow>
     s' = set_bonsai_error k err s \<and> p' = Ph_Done (HttpOk (response_failed err))"
  "bonsai_status_step cfg lib e k (Ph_Store j b) s = (p', s', cs) \<Longrightarrow>
     s' = set_bonsai_stored k b s \<and> (\<exists>url. p' = Ph_Done (HttpOk (response_succeeded url)))"
  by (cases k; auto simp: session_succeeded_def snark_succeeded_def)+

lemma bonsai_failed_after: "bonsai_copied k j h \<Longrightarrow> bonsai_failed k (h\<lparr>bh_inner := set_bonsai_error k err (bh_inner h)\<rparr>)"
  by (auto simp: bonsai_copied_def bonsai_failed_def bonsai_job_error)

lemma bonsai_own_step:
  assumes "bonsai_sinv lib h" "bonsai_pinv lib k p h"
    and st: "bonsai_status_step cfg lib e k p (bh_inner h) = (p', s', cs)"
  shows "bonsai_sinv lib (h\<lparr>bh_inner := s'\<rparr>) \<and> bonsai_pinv lib k p' (h\<lparr>bh_inner := s'\<rparr>)"
proof -
  consider j where "p = Ph_Unfulfillable j" | j err where "p = Ph_Invalid j err" | j b where "p = Ph_Store j b"
    | "finished p" | "\<not> finished p" "\<forall>j err b. p \<noteq> Ph_Unfulfillable j \<and> p \<noteq> Ph_Invalid j err \<and> p \<noteq> Ph_Store j b"
    by blast
  then show ?thesis
  proof cases
    case (1 j)
    from bonsai_writes(1) [OF st [unfolded 1]] assms 1 show ?thesis
      by (auto simp: bonsai_sinv_error response_failed_def intro: bonsai_failed_after)
  next
    case (2 j err)
    from bonsai_writes(2) [OF st [unfolded 2]] assms 2 show ?thesis
      by (auto simp: bonsai_sinv_error response_failed_def intro: bonsai_failed_after)
  next
    case (3 j b)
    from bonsai_writes(3) [OF st [unfolded 3]] assms 3 show ?thesis
      by (auto simp: response_succeeded_def intro: bonsai_sinv_stored)
  next
    case 4
    with st have "s' = bh_inner h" "p' = p" by (cases k; cases p; auto)+
    with assms show ?thesis by simp
  next
    case 5
    then have s': "s' = bh_inner h" using bonsai_read_only [OF st] by blast
    with bonsai_own_phase [OF assms(1,2) st [unfolded s'] 5] assms(1) show ?thesis by simp
  qed
qed

lemma bonsai_sinv_grows:
  assumes "bonsai_sinv lib h" "bonsai_grows h h'"
    and "\<And>i elf. bo_images (bh_inner h') i = Some elf \<Longrightarrow> (i, elf) \<in> bh_images h'"
    and "\<And>k b. bonsai_stored k (bh_inner h') = Some b \<Longrightarrow> bonsai_stored k (bh_inner h) = Some b \<or> uploaded_receipt k h'"
  shows "bonsai_sinv lib h'"
proof -
  have "uploaded_receipt k h' \<or> (\<exists>j err. bonsai_job k (bh_inner h') = Some (j, err) \<and>
          verified_receipt lib (bh_images h') (bc_image_id j) b)"
    if b: "bonsai_stored k (bh_inner h) = Some b" for k b
  proof -
    have up: "uploaded_receipt k h \<Longrightarrow> uploaded_receipt k h'"
      using assms(2) by (cases k) (auto simp: bonsai_grows_def)
    from assms(1) b consider "uploaded_receipt k h" | j err where
      "bonsai_job k (bh_inner h) = Some (j, err)" "verified_receipt lib (bh_images h) (bc_image_id j) b"
      unfolding bonsai_sinv_def by blast
    then show ?thesis
    proof cases
      case 1
      with up show ?thesis by blast
    next
      case (2 j err)
      then show ?thesis
        using assms(2) verified_receipt_mono [OF 2(2)] unfolding bonsai_grows_def by blast
    qed
  qed
  then show ?thesis using assms(3,4) unfolding bonsai_sinv_def by blast
qed

lemma bonsai_other_sinv:
  assumes "bonsai_sinv lib h" "bonsai_fresh op h"
  shows "bonsai_sinv lib (bonsai_other cfg lib op h)"
proof (rule bonsai_sinv_grows [OF assms(1) bonsai_other_grows [OF assms(2)]])
  have old: "bo_images (bh_inner h) i = Some elf \<Longrightarrow> (i, elf) \<in> bh_images h" for i elf
    using assms(1) unfolding bonsai_sinv_def by blast
  show "(i, elf) \<in> bh_images (bonsai_other cfg lib op h)"
    if "bo_images (bh_inner (bonsai_other cfg lib op h)) i = Some elf" for i elf
    using that old
    by (cases op)
      (auto simp: handle_image_put_def bonsai_input_put_def handle_receipt_put_def handle_session_create_def
        handle_snark_create_def Let_def split: option.splits sum.splits prod.splits if_splits)
  show "bonsai_stored k (bh_inner h) = Some b \<or> uploaded_receipt k (bonsai_other cfg lib op h)"
    if "bonsai_stored k (bh_inner (bonsai_other cfg lib op h)) = Some b" for k b
    using that
    by (cases k; cases op)
      (auto simp: handle_image_put_def bonsai_input_put_def handle_receipt_put_def handle_session_create_def
        handle_snark_create_def Let_def split: option.splits sum.splits prod.splits if_splits)
qed

interpretation bonsai: status_surface "bonsai_hist_step cfg lib" "bonsai_other cfg lib" "\<lambda>_. True" bonsai_fresh
    "bonsai_sinv lib" "bonsai_pinv lib"
  for cfg and lib :: "('r, 'd) risc0_lib"
proof
  fix h e k p p' h' cs
  assume *: "bonsai_sinv lib h" "bonsai_pinv lib k p h" "bonsai_hist_step cfg lib e k p h = (p', h', cs)"
  from *(3) obtain s' where "bonsai_status_step cfg lib e k p (bh_inner h) = (p', s', cs)" "h' = h\<lparr>bh_inner := s'\<rparr>"
    by (auto simp: bonsai_hist_step_def split: prod.splits)
  with bonsai_own_step [OF *(1,2)] show "bonsai_sinv lib h' \<and> bonsai_pinv lib k p' h'" by blast
next
  show "bonsai_pinv lib k2 p2 h'"
    if "bonsai_pinv lib k2 p2 h" "bonsai_hist_step cfg lib e k p h = (p', h', cs)" for h e k p k2 p2 p' h' cs
    using bonsai_pinv_grows [OF that(1) bonsai_step_grows [OF that(2)]] .
qed (auto intro: bonsai_other_sinv bonsai_pinv_grows bonsai_other_grows)

abbreviation bonsai_polls where
  "bonsai_polls cfg lib \<equiv> polls (bonsai_hist_step cfg lib) (bonsai_other cfg lib) (\<lambda>_. True) bonsai_fresh
     \<lparr>bh_inner = bonsai_state_new, bh_images = {}, bh_puts = {}\<rparr>"

lemma bonsai_start: "bonsai_sinv lib \<lparr>bh_inner = bonsai_state_new, bh_images = {}, bh_puts = {}\<rparr>"
proof -
  have "bonsai_stored k bonsai_state_new = None" for k by (cases k) (simp_all add: bonsai_state_new_def)
  then show ?thesis by (simp add: bonsai_sinv_def bonsai_state_new_def)
qed

lemmas bonsai_polls_inv = bonsai.polls_inv [OF _ bonsai_start]

section \<open>Properties\<close>

definition bonsai_download :: "bonsai_key \<Rightarrow> bonsai_inner \<Rightarrow> bytes http_result" where
  "bonsai_download k s = (case k of
       K_Session sid \<Rightarrow> handle_receipt_download sid s
     | K_Snark nid \<Rightarrow> handle_snark_receipt_download nid s)"

lemma bonsai_download_eq:
  "bonsai_stored k s = Some b \<Longrightarrow> bonsai_download k s = HttpOk b"
  by (cases k) (simp_all add: bonsai_download_def handle_receipt_download_def handle_snark_receipt_download_def)

text \<open>C16. However polls of sessions and of wraps interleave with uploads and creations, what is served for a job
  that was reported as SUCCEEDED is a receipt that decodes and verifies against the image id of an ELF uploaded
  under the job's image id. The only exception is a session whose id was itself used to upload a receipt; a
  wrapped (Groth16) receipt has no exception.\<close>

theorem bonsai_success_verified:
  assumes "bonsai_polls cfg lib hs h"
    and "(k, Ph_Done (HttpOk r)) \<in> set hs" "sr_status r = ''SUCCEEDED''"
    and "\<not> uploaded_receipt k h"
  shows "\<exists>b j err. bonsai_download k (bh_inner h) = HttpOk b \<and> bonsai_job k (bh_inner h) = Some (j, err) \<and>
           verified_receipt lib (bh_images h) (bc_image_id j) b"
proof -
  have inv: "bonsai_sinv lib h" and p: "bonsai_pinv lib k (Ph_Done (HttpOk r)) h"
    using bonsai_polls_inv [OF assms(1)] assms(2) by blast+
  from p assms(3) obtain b where b: "bonsai_stored k (bh_inner h) = Some b" by auto
  with inv assms(4) show ?thesis
    unfolding bonsai_sinv_def using bonsai_download_eq [OF b] by blast
qed

text \<open>C17. A receipt uploaded by a client under the id of a session counts as the session's result: without any
  verification and without asking the registry, the session is reported as SUCCEEDED, the uploaded bytes are
  served as its receipt, and a wrap of the session is proved from them.\<close>

theorem receipt_upload_bypasses_verification:
  assumes "bo_sessions s sid = Some ses" "bs_terminal_error ses = None"
  shows "handle_session_status cfg lib e sid (handle_receipt_put sid body s) =
           (Ph_Done (session_succeeded cfg sid), handle_receipt_put sid body s, [] :: 's cmds) \<and>
         handle_receipt_download sid (handle_receipt_put sid body s) = HttpOk body \<and>
         (\<exists>s'. handle_snark_create cfg (e\<lparr>be_up := True\<rparr>) sid (handle_receipt_put sid body s) = (HttpOk (be_uuid e), s',
            [Cmd_AssignProofRequest (Req_Risc0 \<lparr>r0_request_id = be_request_id e, r0_elf = [], r0_input = [],
               r0_mode = R_Groth16, r0_mock = sc_mock_mode cfg, r0_wrap_of = Some body\<rparr>)] :: 's cmds))"
  using assms
  by (simp add: handle_session_status_def handle_receipt_put_def handle_receipt_download_def handle_snark_create_def
      numeral_eq_Suc route_risc0_proof_def assign_proof_request_def Let_def)

definition demo_lib :: "(bytes, bytes) risc0_lib" where
  "demo_lib = \<lparr>zk_decode = Inr, zk_image_id = Inr, zk_verify = (\<lambda>r d. if r = d then Inr () else Inl ''bad'')\<rparr>"

definition demo_bonsai_cfg :: surface_config where
  "demo_bonsai_cfg = \<lparr>sc_ip = ''h'', sc_http_port = 1, sc_mock_mode = False\<rparr>"

definition demo_session :: bonsai_session where
  "demo_session = \<lparr>bs_request_id = 1, bs_image_id = ''i'', bs_input_id = ''n'', bs_mode = R_Succinct, bs_terminal_error = None\<rparr>"

definition demo_bonsai_env :: "contemplant_proof_status option recv \<Rightarrow> bonsai_env" where
  "demo_bonsai_env a = \<lparr>be_poll = \<lparr>pe_up = True, pe_up2 = True, pe_resp = 0, pe_answer = a\<rparr>, be_up = True,
     be_request_id = 1, be_uuid = ''s''\<rparr>"

theorem receipt_upload_bypasses_verification_witness:
  "handle_receipt_download ''s'' (handle_receipt_put ''s'' [66] (bonsai_state_new\<lparr>bo_sessions := [''s'' \<mapsto> demo_session]\<rparr>))
     = HttpOk [66]"
proof -
  let ?s = "bonsai_state_new\<lparr>bo_sessions := [''s'' \<mapsto> demo_session]\<rparr>"
  have "bo_sessions ?s ''s'' = Some demo_session" "bs_terminal_error demo_session = None"
    by (simp_all add: demo_session_def)
  from receipt_upload_bypasses_verification [OF this, where cfg = demo_bonsai_cfg and lib = demo_lib
      and e = "demo_bonsai_env TimedOut" and body = "[66]"]
  show ?thesis by blast
qed

text \<open>One session, one poll: the returned receipt decodes and verifies.\<close>

definition demo_session_request :: session_create_request where
  "demo_session_request = \<lparr>scr_img = ''i'', scr_input = ''n'', scr_assumptions = [], scr_execute_only = False,
     scr_proof_mode = Some ''succinct''\<rparr>"

lemma demo_norm_i [simp]: "normalize_image_id ''i'' = ''i''" "parse_risc0_proof_mode (Some ''succinct'') = Inr R_Succinct"
  by (simp_all add: normalize_image_id_def to_ascii_lowercase_def strip_0x_def trim_str_def is_white_def ascii_lower_def
      parse_risc0_proof_mode_def)

lemma demo_bonsai_polls:
  "\<exists>h. bonsai_polls demo_bonsai_cfg demo_lib
     [(K_Session ''s'', Ph_Done (session_succeeded demo_bonsai_cfg ''s''))] h \<and> bh_puts h = {}"
proof -
  let ?P = "bonsai_polls demo_bonsai_cfg demo_lib"
  let ?e = "demo_bonsai_env (Received (Some \<lparr>cps_execution_status = 2, cps_proof = Some [7], cps_progress = None\<rparr>))"
  let ?h = "\<lparr>bh_inner = \<lparr>bo_images = [''i'' \<mapsto> [7]], bo_inputs = [''n'' \<mapsto> []], bo_sessions = [''s'' \<mapsto> demo_session],
     bo_receipts = Map.empty, bo_snark_requests = Map.empty, bo_snark_receipts = Map.empty\<rparr>,
     bh_images = {(''i'', [7])}, bh_puts = {}\<rparr>"
  note polls_start [of "bonsai_hist_step demo_bonsai_cfg demo_lib" "bonsai_other demo_bonsai_cfg demo_lib"
      "\<lambda>_. True" bonsai_fresh "\<lparr>bh_inner = bonsai_state_new, bh_images = {}, bh_puts = {}\<rparr>"]
  from polls_other [OF polls_other [OF polls_other [OF this, of "Op_Image ''i'' [7]"], of "Op_BInput ''n'' []"],
      of "Op_Session ?e demo_session_request"]
  have "?P [] ?h"
    by (simp add: handle_image_put_def demo_lib_def bonsai_input_put_def handle_session_create_def bonsai_state_new_def
        demo_session_request_def demo_session_def demo_bonsai_env_def Let_def route_risc0_proof_def assign_proof_request_def)
  from polls_arrive [OF this] have "?P [(K_Session ''s'', Ph_Job)] ?h" by simp
  note run = schedule_polls [OF this, of "replicate 7 (0, ?e)"]
  have "\<exists>h. schedule (bonsai_hist_step demo_bonsai_cfg demo_lib) (replicate 7 (0, ?e)) [(K_Session ''s'', Ph_Job)] ?h =
      ([(K_Session ''s'', Ph_Done (session_succeeded demo_bonsai_cfg ''s''))], h) \<and> bh_puts h = {}"
    by (simp add: numeral_eq_Suc bonsai_hist_step_def demo_session_def bonsai_poll_step_def demo_bonsai_env_def
        get_proof_status_def proof_status_request_def Let_def status_from_def execution_status_of_def mk_status_def
        bonsai_decode_step_def demo_lib_def)
  moreover have "list_all (\<lambda>(i, e). i < length [(K_Session ''s'', Ph_Job :: (bonsai_copy, bytes \<times> bytes) phase)] \<and> True)
      (replicate 7 (0 :: nat, ?e))"
    by (simp add: list_all_iff)
  ultimately show ?thesis using run by blast
qed

theorem bonsai_success_verified_witness:
  "\<exists>(h :: bonsai_hist) b j err. bonsai_download (K_Session ''s'') (bh_inner h) = HttpOk b \<and>
     bonsai_job (K_Session ''s'') (bh_inner h) = Some (j, err) \<and> verified_receipt demo_lib (bh_images h) (bc_image_id j) b"
proof -
  obtain h where h: "bonsai_polls demo_bonsai_cfg demo_lib
      [(K_Session ''s'', Ph_Done (session_succeeded demo_bonsai_cfg ''s''))] h" "bh_puts h = {}"
    using demo_bonsai_polls by blast
  let ?r = "response_succeeded (bonsai_presigned_url demo_bonsai_cfg (''/receipts/'' @ ''s'' @ ''/download''))"
  have "sr_status ?r = ''SUCCEEDED''" by (simp add: response_succeeded_def)
  from bonsai_success_verified [OF h(1) _ this, of "K_Session ''s''"] h(2) have
    "\<exists>b j err. bonsai_download (K_Session ''s'') (bh_inner h) = HttpOk b \<and>
     bonsai_job (K_Session ''s'') (bh_inner h) = Some (j, err) \<and> verified_receipt demo_lib (bh_images h) (bc_image_id j) b"
    by (simp add: session_succeeded_def)
  then show ?thesis by blast
qed

end
