(* ===== verification/Prover_Network.thy ===== *)
theory Prover_Network
  imports Status_Poll
begin

text \<open>
  The SP1 surface: the gRPC services (\<^verbatim>\<open>api/grpc/prover_network_service.rs\<close>, \<^verbatim>\<open>api/grpc/create_artifact_service.rs\<close>),
  the shared state (\<^verbatim>\<open>hierophant_state.rs\<close>) and the HTTP endpoints (\<^verbatim>\<open>api/http.rs\<close>). Each handler is taken as a
  whole; what it meets outside (the registry, the file system, \<^verbatim>\<open>sp1_sdk\<close>, the clock, random values) is an argument.
\<close>

section \<open>Identifiers on the wire\<close>

text \<open>\<^verbatim>\<open>B256\<close> as its 32 bytes, most significant first.\<close>

fun le_value :: "bytes \<Rightarrow> nat" where
  "le_value [] = 0"
| "le_value (b # bs) = unat b + 256 * le_value bs"

fun le_digits :: "nat \<Rightarrow> nat \<Rightarrow> bytes" where
  "le_digits 0 n = []"
| "le_digits (Suc k) n = of_nat n # le_digits k (n div 256)"

definition b256_of_bytes :: "bytes \<Rightarrow> b256 option" where
  "b256_of_bytes bs = (if length bs = 32 then Some (of_nat (le_value (rev bs))) else None)"

definition b256_to_bytes :: "b256 \<Rightarrow> bytes" where
  "b256_to_bytes w = rev (le_digits 32 (unat w))"

lemma length_le_digits [simp]: "length (le_digits k n) = k"
  by (induction k arbitrary: n) simp_all

lemma le_value_digits: "n < 256 ^ k \<Longrightarrow> le_value (le_digits k n) = n"
proof (induction k arbitrary: n)
  case (Suc k)
  then have "n div 256 < 256 ^ k" by (simp add: less_mult_imp_div_less mult.commute)
  moreover have "unat (of_nat n :: u8) = n mod 256" by (simp add: unat_of_nat take_bit_eq_mod)
  ultimately show ?case using Suc.IH by simp
qed simp

lemma b256_roundtrip: "b256_of_bytes (b256_to_bytes w) = Some w"
proof -
  have "unat w < 256 ^ 32" using unsigned_less [of w, where ?'a = nat] by simp
  then show ?thesis by (simp add: b256_of_bytes_def b256_to_bytes_def le_value_digits)
qed

section \<open>State\<close>

datatype grpc_code = NotFoundCode | InvalidArgument | Internal | Unavailable

datatype 'a grpc_result = GrpcOk 'a | GrpcErr grpc_code

record sp1_program =
  pg_vk_hash :: bytes
  pg_vk :: bytes
  pg_program_uri :: string
  pg_owner :: bytes
  pg_created_at :: nat

text \<open>The fields of a proof request the service reads; the others are stored and only logged.\<close>

record request_proof_body =
  rb_vk_hash :: bytes
  rb_mode :: i32
  rb_stdin_uri :: string
  rb_deadline :: u64

record hierophant_state =
  hs_ip :: string
  hs_http_port :: nat
  hs_pub_key :: bytes
  hs_mock_mode :: bool
  hs_proof_requests :: "b256 \<rightharpoonup> artifact_uri \<times> request_proof_body"
  hs_program_store :: "bytes \<rightharpoonup> sp1_program"
  hs_artifacts :: "artifact_store option"
  hs_pending_artifacts :: "b256 set"

definition hierophant_state_new :: "string \<Rightarrow> nat \<Rightarrow> bytes \<Rightarrow> bool \<Rightarrow> artifact_store option \<Rightarrow> hierophant_state" where
  "hierophant_state_new ip port pub_key mock store =
     \<lparr>hs_ip = ip, hs_http_port = port, hs_pub_key = pub_key, hs_mock_mode = mock,
      hs_proof_requests = Map.empty, hs_program_store = Map.empty, hs_artifacts = store, hs_pending_artifacts = {}\<rparr>"

text \<open>
  \<^verbatim>\<open>sp1_sdk\<close>: decoding a proof and a verifying key, and the verification. \<open>cd\<close> of the router decodes artifacts.
\<close>

record ('s, 'p, 'v) sp1_lib =
  sl_codecs :: "'s codecs"
  sl_parse_uuid :: "string \<Rightarrow> uuid option"
  sl_decode_proof :: "bytes \<Rightarrow> 'p option"
  sl_decode_vk :: "bytes \<Rightarrow> 'v option"
  sl_verify :: "'p \<Rightarrow> 'v \<Rightarrow> bool"

definition get_vk :: "('s, 'p, 'v) sp1_lib \<Rightarrow> b256 \<Rightarrow> hierophant_state \<Rightarrow> 'v option" where
  "get_vk lib rid st = (case hs_proof_requests st rid of
       None \<Rightarrow> None
     | Some (_, body) \<Rightarrow> (case hs_program_store st (rb_vk_hash body) of
         None \<Rightarrow> None
       | Some program \<Rightarrow> sl_decode_vk lib (pg_vk program)))"

section \<open>Artifacts over gRPC and HTTP\<close>

definition create_artifact_call ::
    "(uuid \<Rightarrow> string) \<Rightarrow> fs_env \<Rightarrow> artifact_type \<Rightarrow> artifact_store option \<Rightarrow> artifact_uri option \<times> artifact_store option" where
  "create_artifact_call sh fe t store = (case client_call sh fe (CreateArtifact t) store of
       (Some (UriReply u), store') \<Rightarrow> (Some u, store')
     | (_, store') \<Rightarrow> (None, store'))"

definition save_artifact_call ::
    "(uuid \<Rightarrow> string) \<Rightarrow> fs_env \<Rightarrow> artifact_uri \<Rightarrow> bytes \<Rightarrow> artifact_store option \<Rightarrow> bool \<times> artifact_store option" where
  "save_artifact_call sh fe u bs store = (case client_call sh fe (SaveArtifact u bs) store of
       (Some (SaveReply (Inr _)), store') \<Rightarrow> (True, store')
     | (_, store') \<Rightarrow> (False, store'))"

definition create_artifact_service ::
    "(uuid \<Rightarrow> string) \<Rightarrow> fs_env \<Rightarrow> i32 \<Rightarrow> hierophant_state \<Rightarrow> (string \<times> string) grpc_result \<times> hierophant_state" where
  "create_artifact_service sh fe ty st = (case artifact_type_of ty of
       None \<Rightarrow> (GrpcErr InvalidArgument, st)
     | Some t \<Rightarrow> (case create_artifact_call sh fe t (hs_artifacts st) of
         (None, store') \<Rightarrow> (GrpcErr Unavailable, st\<lparr>hs_artifacts := store'\<rparr>)
       | (Some u, store') \<Rightarrow>
           (GrpcOk (display_uri sh u,
              ''http://'' @ hs_ip st @ '':'' @ show_nat (hs_http_port st) @ ''/upload/'' @ display_uri sh u),
            st\<lparr>hs_artifacts := store'\<rparr>)))"

text \<open>The path parameter of the two endpoints is parsed as a uri before the handler runs.\<close>

definition handle_artifact_upload ::
    "(uuid \<Rightarrow> string) \<Rightarrow> (string \<Rightarrow> uuid option) \<Rightarrow> fs_env \<Rightarrow> string \<Rightarrow> bytes \<Rightarrow> hierophant_state \<Rightarrow>
     string http_result \<times> hierophant_state" where
  "handle_artifact_upload sh pa fe path body st = (case artifact_uri_from_str pa path of
       None \<Rightarrow> (HttpErr 400 [], st)
     | Some u \<Rightarrow> (case save_artifact_call sh fe u body (hs_artifacts st) of
         (ok, store') \<Rightarrow> (if ok then HttpOk ''Upload successful'' else HttpErr 400 [], st\<lparr>hs_artifacts := store'\<rparr>)))"

definition handle_artifact_download ::
    "(uuid \<Rightarrow> string) \<Rightarrow> (string \<Rightarrow> uuid option) \<Rightarrow> fs_env \<Rightarrow> string \<Rightarrow> hierophant_state \<Rightarrow> bytes http_result" where
  "handle_artifact_download sh pa fe path st = (case artifact_uri_from_str pa path of
       None \<Rightarrow> HttpErr 400 []
     | Some u \<Rightarrow> (case get_artifact_bytes sh fe u (hs_artifacts st) of
         Inr (Some bs) \<Rightarrow> HttpOk bs
       | Inr None \<Rightarrow> HttpErr 400 []
       | Inl _ \<Rightarrow> HttpErr 500 []))"

text \<open>The observability endpoints: a failed query is an internal error.\<close>

definition query_endpoint :: "'s cmds \<times> (client_error + 'a) \<Rightarrow> 's cmds \<times> 'a http_result" where
  "query_endpoint q = (fst q, case snd q of Inr x \<Rightarrow> HttpOk x | Inl _ \<Rightarrow> HttpErr 500 [])"

definition contemplants_endpoint ::
    "bool \<Rightarrow> (string \<times> worker_state) list recv \<Rightarrow> resp \<Rightarrow> 's cmds \<times> (string \<times> worker_state) list http_result" where
  "contemplants_endpoint up answer rs = query_endpoint (client_workers up answer rs)"

definition dead_contemplants_endpoint ::
    "bool \<Rightarrow> (string \<times> worker_state) list recv \<Rightarrow> resp \<Rightarrow> 's cmds \<times> (string \<times> worker_state) list http_result" where
  "dead_contemplants_endpoint up answer rs = query_endpoint (client_dead_workers up answer rs)"

definition pending_endpoint ::
    "bool \<Rightarrow> (nat \<times> nat option) recv \<Rightarrow> resp \<Rightarrow> 's cmds \<times> (nat \<times> nat option) http_result" where
  "pending_endpoint up answer rs = query_endpoint (client_pending_info up answer rs)"

definition proof_history_endpoint ::
    "bool \<Rightarrow> completed_proof_info list recv \<Rightarrow> resp \<Rightarrow> 's cmds \<times> completed_proof_info list http_result" where
  "proof_history_endpoint up answer rs = query_endpoint (client_proof_history up answer rs)"

definition handle_health :: "bool http_result" where
  "handle_health = HttpOk True"

section \<open>Programs and nonces\<close>

definition get_program :: "bytes \<Rightarrow> hierophant_state \<Rightarrow> sp1_program grpc_result" where
  "get_program vk_hash st = (case hs_program_store st vk_hash of
       Some program \<Rightarrow> GrpcOk program | None \<Rightarrow> GrpcErr NotFoundCode)"

definition get_nonce :: "bytes \<Rightarrow> u64 grpc_result" where
  "get_nonce address = (if length address = 20 then GrpcOk 0 else GrpcErr InvalidArgument)"

record create_program_body =
  cp_vk_hash :: bytes
  cp_vk :: bytes
  cp_program_uri :: string

text \<open>\<open>now\<close> is the time since the epoch in seconds, \<open>None\<close> for a clock set before it; \<open>tx_hash\<close> is random.\<close>

definition create_program ::
    "nat option \<Rightarrow> b256 \<Rightarrow> create_program_body option \<Rightarrow> hierophant_state \<Rightarrow> bytes grpc_result \<times> hierophant_state" where
  "create_program now tx_hash maybe_body st = (case maybe_body of
       None \<Rightarrow> (GrpcErr InvalidArgument, st)
     | Some body \<Rightarrow> (case now of
         None \<Rightarrow> (GrpcErr Internal, st)
       | Some created_at \<Rightarrow>
           (let program = \<lparr>pg_vk_hash = cp_vk_hash body, pg_vk = cp_vk body, pg_program_uri = cp_program_uri body,
                           pg_owner = hs_pub_key st, pg_created_at = created_at\<rparr>
            in (GrpcOk (b256_to_bytes tx_hash),
                st\<lparr>hs_program_store := (hs_program_store st)(cp_vk_hash body \<mapsto> program)\<rparr>))))"

section \<open>Proof requests\<close>

text \<open>\<open>dirs\<close> are the circuit artifact directories for Groth16 and Plonk, \<open>has\<close> the files that exist.\<close>

definition check_artifacts_ready :: "string option \<times> string option \<Rightarrow> (string \<Rightarrow> bool) \<Rightarrow> proof_mode \<Rightarrow> bool" where
  "check_artifacts_ready dirs has mode = (case mode of
       Groth16 \<Rightarrow> (case fst dirs of
           None \<Rightarrow> False
         | Some dir \<Rightarrow> has (dir @ ''/.download_complete'') \<and> has (dir @ ''/groth16_pk.bin'') \<and> has (dir @ ''/groth16_vk.bin''))
     | Plonk \<Rightarrow> (case snd dirs of
           None \<Rightarrow> False
         | Some dir \<Rightarrow> has (dir @ ''/.download_complete'') \<and> has (dir @ ''/plonk_pk.bin'') \<and> has (dir @ ''/plonk_vk.bin''))
     | _ \<Rightarrow> True)"

record request_env =
  re_request_id :: b256
  re_dirs :: "string option \<times> string option"
  re_has :: "string \<Rightarrow> bool"
  re_fs1 :: fs_env
  re_fs2 :: fs_env
  re_fs3 :: fs_env
  re_up :: bool

text \<open>The task spawned when circuit artifacts have to be downloaded first.\<close>

record download_task =
  dt_request_id :: b256
  dt_program_uri :: artifact_uri
  dt_stdin_uri :: artifact_uri
  dt_mode :: proof_mode

text \<open>The mock transaction hash: the first 32 bytes of the signature, padded with zeros.\<close>

definition mock_tx_hash :: "bytes \<Rightarrow> bytes" where
  "mock_tx_hash sig = take 32 sig @ replicate (32 - length sig) 0"

text \<open>After the routing decision: the uri the proof will be saved under, and the record of the request.\<close>

definition finish_request ::
    "(uuid \<Rightarrow> string) \<Rightarrow> request_env \<Rightarrow> bytes \<Rightarrow> request_proof_body \<Rightarrow> hierophant_state \<Rightarrow>
     (bytes \<times> bytes) grpc_result \<times> hierophant_state" where
  "finish_request sh e sig body st = (case create_artifact_call sh (re_fs3 e) Proof (hs_artifacts st) of
       (None, store') \<Rightarrow> (GrpcErr Internal, st\<lparr>hs_artifacts := store'\<rparr>)
     | (Some u, store') \<Rightarrow>
         (GrpcOk (mock_tx_hash sig, b256_to_bytes (re_request_id e)),
          st\<lparr>hs_artifacts := store', hs_proof_requests := (hs_proof_requests st)(re_request_id e \<mapsto> (u, body))\<rparr>))"

definition request_proof ::
    "('s, 'p, 'v) sp1_lib \<Rightarrow> request_env \<Rightarrow> bytes \<Rightarrow> request_proof_body option \<Rightarrow> hierophant_state \<Rightarrow>
     (bytes \<times> bytes) grpc_result \<times> hierophant_state \<times> 's cmds \<times> download_task option" where
  "request_proof lib e sig maybe_body st = (case maybe_body of
       None \<Rightarrow> (GrpcErr InvalidArgument, st, [], None)
     | Some body \<Rightarrow> (case artifact_uri_from_str (sl_parse_uuid lib) (rb_stdin_uri body) of
         None \<Rightarrow> (GrpcErr InvalidArgument, st, [], None)
       | Some stdin_uri \<Rightarrow> (case hs_program_store st (rb_vk_hash body) of
           None \<Rightarrow> (GrpcErr InvalidArgument, st, [], None)
         | Some prog \<Rightarrow> (case artifact_uri_from_str (sl_parse_uuid lib) (pg_program_uri prog) of
             None \<Rightarrow> (GrpcErr InvalidArgument, st, [], None)
           | Some program_uri \<Rightarrow> (case proof_mode_of (rb_mode body) of
               None \<Rightarrow> (GrpcErr InvalidArgument, st, [], None)
             | Some mode \<Rightarrow>
                 (let sh = cd_show_uuid (sl_codecs lib); rid = re_request_id e;
                      needs_artifacts = (mode = Groth16 \<or> mode = Plonk);
                      artifacts_ready = (if needs_artifacts then check_artifacts_ready (re_dirs e) (re_has e) mode else True)
                  in if artifacts_ready
                     then (case route_sp1_proof (sl_codecs lib) (re_fs1 e) (re_fs2 e) (re_up e) (hs_mock_mode st) rid
                                  program_uri stdin_uri mode (hs_artifacts st) of
                             (cs, Inl _) \<Rightarrow> (GrpcErr Internal, st, cs, None)
                           | (cs, Inr _) \<Rightarrow>
                               (let (r, st') = finish_request sh e sig body st in (r, st', cs, None)))
                     else (let task = \<lparr>dt_request_id = rid, dt_program_uri = program_uri, dt_stdin_uri = stdin_uri,
                                       dt_mode = mode\<rparr>;
                               (r, st') = finish_request sh e sig body
                                 (st\<lparr>hs_pending_artifacts := insert rid (hs_pending_artifacts st)\<rparr>)
                           in (r, st', [], Some task))))))))"

text \<open>
  The download task, one step per stretch between two awaits: the installation with the write of
  its marker file, the routing, the removal of the pending mark. Other calls run between the steps.
  The request is routed first and its mark removed afterwards.
\<close>

datatype download_outcome = NotNeeded | InstallFailed | MarkerFailed | RouteEnded "route_error + unit"

datatype download_phase = Dl_Install | Dl_Route | Dl_Unmark download_outcome | Dl_Done download_outcome

record download_env =
  de_install_ok :: bool
  de_marker_ok :: bool
  de_fs1 :: fs_env
  de_fs2 :: fs_env
  de_up :: bool

definition unmark :: "b256 \<Rightarrow> hierophant_state \<Rightarrow> hierophant_state" where
  "unmark rid st = st\<lparr>hs_pending_artifacts := hs_pending_artifacts st - {rid}\<rparr>"

definition download_artifacts_and_route_proof ::
    "('s, 'p, 'v) sp1_lib \<Rightarrow> download_env \<Rightarrow> download_task \<Rightarrow> download_phase \<Rightarrow> hierophant_state \<Rightarrow>
     download_phase \<times> hierophant_state \<times> 's cmds" where
  "download_artifacts_and_route_proof lib e t ph st = (case ph of
       Dl_Install \<Rightarrow>
         (if dt_mode t \<noteq> Groth16 \<and> dt_mode t \<noteq> Plonk then (Dl_Done NotNeeded, st, [])
          else if \<not> de_install_ok e then (Dl_Unmark InstallFailed, st, [])
          else if \<not> de_marker_ok e then (Dl_Unmark MarkerFailed, st, [])
          else (Dl_Route, st, []))
     | Dl_Route \<Rightarrow>
         (let (cs, route_res) = route_sp1_proof (sl_codecs lib) (de_fs1 e) (de_fs2 e) (de_up e) (hs_mock_mode st)
                (dt_request_id t) (dt_program_uri t) (dt_stdin_uri t) (dt_mode t) (hs_artifacts st)
          in (Dl_Unmark (RouteEnded route_res), st, cs))
     | Dl_Unmark out \<Rightarrow> (Dl_Done out, unmark (dt_request_id t) st, [])
     | Dl_Done out \<Rightarrow> (Dl_Done out, st, []))"

section \<open>Status of a proof request\<close>

record status_reply =
  st_fulfillment :: i32
  st_execution :: i32
  st_deadline :: u64
  st_proof_uri :: "string option"

definition lost_proof_response :: status_reply where
  "lost_proof_response =
     \<lparr>st_fulfillment = ps_fulfillment_status status_lost, st_execution = ps_execution_status status_lost,
      st_deadline = 0, st_proof_uri = None\<rparr>"

record status_env =
  se_poll :: poll_env
  se_up :: bool
  se_up2 :: bool
  se_fs1 :: fs_env
  se_fs2 :: fs_env

definition proof_download_address :: "(uuid \<Rightarrow> string) \<Rightarrow> hierophant_state \<Rightarrow> artifact_uri \<Rightarrow> string" where
  "proof_download_address sh st u =
     ''http://'' @ hs_ip st @ '':'' @ show_nat (hs_http_port st) @ ''/'' @ display_uri sh u"

definition status_reply_for ::
    "(uuid \<Rightarrow> string) \<Rightarrow> hierophant_state \<Rightarrow> artifact_uri \<Rightarrow> request_proof_body \<Rightarrow> i32 \<Rightarrow> i32 \<Rightarrow> status_reply" where
  "status_reply_for sh st u body f x =
     \<lparr>st_fulfillment = f, st_execution = x, st_deadline = rb_deadline body,
      st_proof_uri = Some (proof_download_address sh st u)\<rparr>"

text \<open>A finished proof: decode, find the key, verify, release the worker, save.\<close>

definition settle_proof ::
    "('s, 'p, 'v) sp1_lib \<Rightarrow> status_env \<Rightarrow> b256 \<Rightarrow> artifact_uri \<Rightarrow> bytes \<Rightarrow> hierophant_state \<Rightarrow>
     bool \<times> hierophant_state \<times> 's cmds" where
  "settle_proof lib e rid u proof st = (case sl_decode_proof lib proof of
       None \<Rightarrow> (False, st, [])
     | Some p \<Rightarrow> (case get_vk lib rid st of
         None \<Rightarrow> (False, st, [])
       | Some vk \<Rightarrow>
           (if \<not> sl_verify lib p vk then (False, st, drop_worker_of_request (se_up e) rid)
            else (case proof_complete (se_up e) rid of
                (cs, Inl _) \<Rightarrow> (False, st, cs)
              | (cs, Inr _) \<Rightarrow>
                  (case save_artifact_call (cd_show_uuid (sl_codecs lib)) (se_fs2 e) u proof (hs_artifacts st) of
                     (ok, store') \<Rightarrow> (ok, st\<lparr>hs_artifacts := store'\<rparr>, cs))))))"

definition get_proof_request_status ::
    "('s, 'p, 'v) sp1_lib \<Rightarrow> status_env \<Rightarrow> bytes \<Rightarrow> hierophant_state \<Rightarrow>
     status_reply outcome \<times> hierophant_state \<times> 's cmds" where
  "get_proof_request_status lib e id_bytes st =
     (let sh = cd_show_uuid (sl_codecs lib) in
      case b256_of_bytes id_bytes of
        None \<Rightarrow> (Ret lost_proof_response, st, [])
      | Some rid \<Rightarrow> (case hs_proof_requests st rid of
          None \<Rightarrow> (Ret lost_proof_response, st, [])
        | Some (u, body) \<Rightarrow>
            (if rid \<in> hs_pending_artifacts st
             then (Ret (status_reply_for sh st u body (fulfillment_status_i32 Requested)
                          (execution_status_i32 Unexecuted)), st, [])
             else (case get_artifact_bytes sh (se_fs1 e) u (hs_artifacts st) of
                 Inr (Some _) \<Rightarrow> (Ret (status_reply_for sh st u body (fulfillment_status_i32 Fulfilled)
                                        (execution_status_i32 Executed)), st, [])
               | _ \<Rightarrow> (case get_proof_status (se_poll e) rid of
                   (cs, Panicked) \<Rightarrow> (Panicked, st, cs)
                 | (cs, Ret (Inl _)) \<Rightarrow> (Ret lost_proof_response, st, cs)
                 | (cs, Ret (Inr ps)) \<Rightarrow>
                     (let reply = status_reply_for sh st u body (ps_fulfillment_status ps) (ps_execution_status ps) in
                      if ps_proof ps = [] then (Ret reply, st, cs)
                      else (case settle_proof lib e rid u (ps_proof ps) st of
                          (ok, st', cs') \<Rightarrow> (Ret (if ok then reply else lost_proof_response), st', cs @ cs'))))))))"

section \<open>The service with its download tasks\<close>

text \<open>
  The calls of the surface and the steps of the spawned tasks, in any order. \<open>sv_sent\<close> is what has
  been put on the registry's channel, in order.
\<close>

record 's sp1_service =
  sv_state :: hierophant_state
  sv_tasks :: "(download_task \<times> download_phase) list"
  sv_sent :: "'s cmds"

datatype sp1_action =
    Act_RequestProof request_env bytes "request_proof_body option"
  | Act_GetProofRequestStatus status_env bytes
  | Act_CreateArtifact fs_env i32
  | Act_Upload fs_env string bytes
  | Act_CreateProgram "nat option" b256 "create_program_body option"
  | Act_Download nat download_env

fun sp1_service_step :: "('s, 'p, 'v) sp1_lib \<Rightarrow> sp1_action \<Rightarrow> 's sp1_service \<Rightarrow> 's sp1_service" where
  "sp1_service_step lib (Act_RequestProof e sig body) sv =
     (let (_, st', cs, task) = request_proof lib e sig body (sv_state sv)
      in sv\<lparr>sv_state := st', sv_sent := sv_sent sv @ cs,
            sv_tasks := sv_tasks sv @ (case task of None \<Rightarrow> [] | Some t \<Rightarrow> [(t, Dl_Install)])\<rparr>)"
| "sp1_service_step lib (Act_GetProofRequestStatus e id_bytes) sv =
     (let (_, st', cs) = get_proof_request_status lib e id_bytes (sv_state sv)
      in sv\<lparr>sv_state := st', sv_sent := sv_sent sv @ cs\<rparr>)"
| "sp1_service_step lib (Act_CreateArtifact fe ty) sv =
     sv\<lparr>sv_state := snd (create_artifact_service (cd_show_uuid (sl_codecs lib)) fe ty (sv_state sv))\<rparr>"
| "sp1_service_step lib (Act_Upload fe path body) sv =
     sv\<lparr>sv_state := snd (handle_artifact_upload (cd_show_uuid (sl_codecs lib)) (sl_parse_uuid lib) fe path body
                           (sv_state sv))\<rparr>"
| "sp1_service_step lib (Act_CreateProgram now tx_hash body) sv =
     sv\<lparr>sv_state := snd (create_program now tx_hash body (sv_state sv))\<rparr>"
| "sp1_service_step lib (Act_Download i e) sv =
     (if i < length (sv_tasks sv) then
        (let (t, ph) = sv_tasks sv ! i;
             (ph', st', cs) = download_artifacts_and_route_proof lib e t ph (sv_state sv)
         in sv\<lparr>sv_state := st', sv_tasks := (sv_tasks sv)[i := (t, ph')], sv_sent := sv_sent sv @ cs\<rparr>)
      else sv)"

text \<open>A request id is 256 random bits: it is taken to differ from those of the requests before it.\<close>

definition new_id :: "sp1_action \<Rightarrow> 's sp1_service \<Rightarrow> bool" where
  "new_id a sv = (case a of
       Act_RequestProof e _ _ \<Rightarrow> re_request_id e \<notin> (dt_request_id \<circ> fst) ` set (sv_tasks sv)
     | _ \<Rightarrow> True)"

inductive sp1_run :: "('s, 'p, 'v) sp1_lib \<Rightarrow> 's sp1_service \<Rightarrow> bool" for lib where
  sp1_start: "sp1_run lib \<lparr>sv_state = hierophant_state_new ip port pub_key mock store, sv_tasks = [], sv_sent = []\<rparr>"
| sp1_act: "sp1_run lib sv \<Longrightarrow> new_id a sv \<Longrightarrow> sp1_run lib (sp1_service_step lib a sv)"

section \<open>Properties\<close>

lemma parse_proof_uri:
  assumes "uuid_text sh pa" "au_type u = Proof"
  shows "artifact_uri_from_str pa (display_uri sh u) = Some u"
proof -
  have sep: "CHR ''_'' \<notin> set (artifact_type_name (au_type u))" by (simp add: assms(2))
  have "pa (sh (au_id u)) = Some (au_id u)" using assms(1) by (simp add: uuid_text_def)
  then show ?thesis by (simp add: artifact_uri_from_str_def split_display [OF assms(1) sep])
qed

lemma settle_proof_ok:
  assumes "settle_proof lib e rid u proof st = (True, st', cs)"
  shows "\<exists>p vk. sl_decode_proof lib proof = Some p \<and> get_vk lib rid st = Some vk \<and> sl_verify lib p vk \<and>
           Cmd_ProofComplete rid \<in> set cs \<and>
           save_artifact_call (cd_show_uuid (sl_codecs lib)) (se_fs2 e) u proof (hs_artifacts st) = (True, hs_artifacts st')"
  using assms
  by (auto simp: settle_proof_def proof_complete_def split: option.splits if_splits prod.splits)

lemma fulfilled_not_lost: "st_fulfillment lost_proof_response \<noteq> fulfillment_status_i32 Fulfilled"
  by (simp add: lost_proof_response_def status_lost_def mk_status_def)

text \<open>C18. An SP1 request is reported as fulfilled only if a proof was already stored under its uri, or the worker's
  report carried a proof that decodes, verifies against the program's key and has now been saved, the worker
  having been released; the one exception is a report of success with an empty proof, which is passed on as
  fulfilled with nothing verified or stored.\<close>

theorem sp1_fulfilled_verified:
  fixes lib :: "('s, 'p, 'v) sp1_lib"
  assumes "get_proof_request_status lib e id_bytes st = (Ret r, st', cs)"
    and "st_fulfillment r = fulfillment_status_i32 Fulfilled"
  shows "\<exists>rid u body. b256_of_bytes id_bytes = Some rid \<and> hs_proof_requests st rid = Some (u, body) \<and>
     ((\<exists>b. get_artifact_bytes (cd_show_uuid (sl_codecs lib)) (se_fs1 e) u (hs_artifacts st) = Inr (Some b)) \<or>
      (\<exists>proof p vk. sl_decode_proof lib proof = Some p \<and> get_vk lib rid st = Some vk \<and> sl_verify lib p vk \<and>
         Cmd_ProofComplete rid \<in> set cs \<and>
         save_artifact_call (cd_show_uuid (sl_codecs lib)) (se_fs2 e) u proof (hs_artifacts st) = (True, hs_artifacts st')) \<or>
      (\<exists>c. pe_answer (se_poll e) = Received (Some c) \<and> cps_execution_status c = execution_status_i32 Executed \<and>
           cps_proof c = Some []))"
proof -
  let ?sh = "cd_show_uuid (sl_codecs lib)"
  from assms fulfilled_not_lost obtain rid where rid: "b256_of_bytes id_bytes = Some rid"
    by (auto simp: get_proof_request_status_def Let_def split: option.splits)
  from assms fulfilled_not_lost rid obtain u body where req: "hs_proof_requests st rid = Some (u, body)"
    by (auto simp: get_proof_request_status_def Let_def split: option.splits)
  have np: "rid \<notin> hs_pending_artifacts st"
    using assms rid req by (auto simp: get_proof_request_status_def Let_def status_reply_for_def)
  show ?thesis
  proof (cases "\<exists>b. get_artifact_bytes ?sh (se_fs1 e) u (hs_artifacts st) = Inr (Some b)")
    case True
    with rid req show ?thesis by blast
  next
    case False
    have run: "get_proof_request_status lib e id_bytes st = (case get_proof_status (se_poll e) rid of
        (cs, Panicked) \<Rightarrow> (Panicked, st, cs)
      | (cs, Ret (Inl _)) \<Rightarrow> (Ret lost_proof_response, st, cs)
      | (cs, Ret (Inr ps)) \<Rightarrow>
          (let reply = status_reply_for ?sh st u body (ps_fulfillment_status ps) (ps_execution_status ps) in
           if ps_proof ps = [] then (Ret reply, st, cs)
           else (case settle_proof lib e rid u (ps_proof ps) st of
               (ok, st', cs') \<Rightarrow> (Ret (if ok then reply else lost_proof_response), st', cs @ cs'))))"
      using rid req np False
      by (auto simp: get_proof_request_status_def Let_def split: sum.splits option.splits)
    obtain cs0 :: "'s cmds" and ps where poll: "get_proof_status (se_poll e) rid = (cs0, Ret (Inr ps))"
      using assms fulfilled_not_lost unfolding run
      by (auto split: prod.splits outcome.splits sum.splits)
    show ?thesis
    proof (cases "ps_proof ps = []")
      case True
      then have "ps_fulfillment_status ps = fulfillment_status_i32 Fulfilled"
        using assms poll unfolding run by (auto simp: status_reply_for_def)
      moreover have "snd (get_proof_status (se_poll e) rid :: 's cmds \<times> _) = Ret (Inr ps)" using poll by simp
      ultimately show ?thesis using fulfilled_report [of "se_poll e" rid ps] True rid req by metis
    next
      case notempty: False
      obtain cs' where "settle_proof lib e rid u (ps_proof ps) st = (True, st', cs')" "cs = cs0 @ cs'"
        using assms poll notempty fulfilled_not_lost unfolding run
        by (auto simp: Let_def split: prod.splits if_splits)
      with settle_proof_ok rid req show ?thesis by fastforce
    qed
  qed
qed

text \<open>C19. A client can upload bytes of its own under the uri issued for a proof, which every status reply reveals, as
  long as no proof is stored there: the upload is accepted, from then on the request is reported as fulfilled
  without any verification or question to the registry, and the uploaded bytes are served as its proof.\<close>

theorem proof_upload_bypasses_verification:
  fixes lib :: "('s, 'p, 'v) sp1_lib"
  defines "sh \<equiv> cd_show_uuid (sl_codecs lib)" and "pa \<equiv> sl_parse_uuid lib"
  assumes "uuid_text sh pa" "hs_proof_requests st rid = Some (u, body)" "rid \<notin> hs_pending_artifacts st"
    and "hs_artifacts st = Some s" "store_inv sh s" "proof_uri s u" "stored sh s u = None"
    and "fs_read_ok (se_fs1 e)"
  shows "\<exists>st'. handle_artifact_upload sh pa (ok_fs i) (display_uri sh u) forged st = (HttpOk ''Upload successful'', st') \<and>
     get_proof_request_status lib e (b256_to_bytes rid) st' =
       (Ret (status_reply_for sh st' u body (fulfillment_status_i32 Fulfilled) (execution_status_i32 Executed)),
        st', [] :: 's cmds) \<and>
     handle_artifact_download sh pa (se_fs1 e) (display_uri sh u) st' = HttpOk forged"
proof -
  have uri: "artifact_uri_from_str pa (display_uri sh u) = Some u"
    using parse_proof_uri [OF assms(3)] assms(8) by (simp add: proof_uri_def)
  obtain s' where save: "handle_save_artifact sh (ok_fs i) u forged s = Some (Inr (), s')"
    "as_files s' (file_path sh (as_directory s') u) = Some forged"
    using save_proof_eq [OF assms(7-9), of i forged] by auto
  let ?st = "st\<lparr>hs_artifacts := Some s'\<rparr>"
  have "handle_artifact_upload sh pa (ok_fs i) (display_uri sh u) forged st = (HttpOk ''Upload successful'', ?st)"
    using uri assms(6) save(1) by (simp add: handle_artifact_upload_def save_artifact_call_def client_call_def)
  moreover have read: "get_artifact_bytes sh (se_fs1 e) u (hs_artifacts ?st) = Inr (Some forged)"
    using save(2) assms(10) by (simp add: get_artifact_bytes_Some)
  then have "get_proof_request_status lib e (b256_to_bytes rid) ?st =
       (Ret (status_reply_for sh ?st u body (fulfillment_status_i32 Fulfilled) (execution_status_i32 Executed)),
        ?st, [] :: 's cmds)"
    using assms(4,5) by (simp add: get_proof_request_status_def Let_def b256_roundtrip sh_def)
  moreover have "handle_artifact_download sh pa (se_fs1 e) (display_uri sh u) ?st = HttpOk forged"
    using uri read by (simp add: handle_artifact_download_def)
  ultimately show ?thesis by blast
qed

text \<open>The marked requests are those whose task has not ended, and a task that ended by routing has sent its request.\<close>

fun task_ended :: "download_phase \<Rightarrow> bool" where
  "task_ended (Dl_Done _) = True"
| "task_ended _ = False"

fun task_outcome :: "download_phase \<Rightarrow> download_outcome option" where
  "task_outcome (Dl_Done out) = Some out"
| "task_outcome (Dl_Unmark out) = Some out"
| "task_outcome _ = None"

definition assigned_in :: "b256 \<Rightarrow> proof_mode \<Rightarrow> 's cmds \<Rightarrow> bool" where
  "assigned_in rid mode cs \<longleftrightarrow>
     (\<exists>r. Cmd_AssignProofRequest (Req_Sp1 r) \<in> set cs \<and> sp1_request_id r = rid \<and> sp1_mode r = mode)"

definition task_ok :: "'s sp1_service \<Rightarrow> download_task \<Rightarrow> download_phase \<Rightarrow> bool" where
  "task_ok sv t ph \<longleftrightarrow> (dt_mode t = Groth16 \<or> dt_mode t = Plonk) \<and>
     (dt_request_id t \<in> hs_pending_artifacts (sv_state sv) \<longleftrightarrow> \<not> task_ended ph) \<and>
     task_outcome ph \<noteq> Some NotNeeded \<and>
     (task_outcome ph = Some (RouteEnded (Inr ())) \<longrightarrow> assigned_in (dt_request_id t) (dt_mode t) (sv_sent sv))"

definition service_ok :: "'s sp1_service \<Rightarrow> bool" where
  "service_ok sv \<longleftrightarrow> distinct (map (dt_request_id \<circ> fst) (sv_tasks sv)) \<and>
     hs_pending_artifacts (sv_state sv) \<subseteq> (dt_request_id \<circ> fst) ` set (sv_tasks sv) \<and>
     (\<forall>(t, ph) \<in> set (sv_tasks sv). task_ok sv t ph)"

lemma settle_proof_pending:
  "settle_proof lib e rid u p st = (ok, st', cs) \<Longrightarrow> hs_pending_artifacts st' = hs_pending_artifacts st"
  by (auto simp: settle_proof_def split: option.splits if_splits prod.splits sum.splits)

lemma calls_keep_pending:
  "hs_pending_artifacts (fst (snd (get_proof_request_status lib e ib st))) = hs_pending_artifacts st"
  "hs_pending_artifacts (snd (create_artifact_service sh fe ty st)) = hs_pending_artifacts st"
  "hs_pending_artifacts (snd (handle_artifact_upload sh pa fe path bd st)) = hs_pending_artifacts st"
  "hs_pending_artifacts (snd (create_program now tx mb st)) = hs_pending_artifacts st"
  by (auto simp: get_proof_request_status_def create_artifact_service_def handle_artifact_upload_def
      create_program_def Let_def dest: settle_proof_pending split: option.split sum.split prod.split outcome.split)

lemma finish_request_pending:
  "hs_pending_artifacts (snd (finish_request sh e sig bd st)) = hs_pending_artifacts st"
  by (auto simp: finish_request_def split: prod.split option.split)

lemma request_proof_cases:
  assumes "request_proof lib e sig mb st = (r, st', cs, task)"
  obtains
    (plain) "task = None" "hs_pending_artifacts st' = hs_pending_artifacts st"
  | (spawned) t bd where "task = Some t" "mb = Some bd" "cs = []" "dt_request_id t = re_request_id e"
      "dt_mode t = Groth16 \<or> dt_mode t = Plonk"
      "hs_pending_artifacts st' = insert (re_request_id e) (hs_pending_artifacts st)"
      "finish_request (cd_show_uuid (sl_codecs lib)) e sig bd
         (st\<lparr>hs_pending_artifacts := insert (re_request_id e) (hs_pending_artifacts st)\<rparr>) = (r, st')"
proof (cases task)
  case None
  have fin: "hs_pending_artifacts v = hs_pending_artifacts st" 
    if "finish_request sh e sig bd st = (q, v)" for sh bd q v
    using finish_request_pending [of sh e sig bd st] that by simp
  from assms None have "hs_pending_artifacts st' = hs_pending_artifacts st"
    by (auto simp: request_proof_def Let_def dest: fin split: option.splits if_splits prod.splits sum.splits)
  with None show ?thesis by (rule plain)
next
  case (Some t)
  let ?st = "st\<lparr>hs_pending_artifacts := insert (re_request_id e) (hs_pending_artifacts st)\<rparr>"
  have "\<exists>bd. mb = Some bd \<and> cs = [] \<and> dt_request_id t = re_request_id e \<and> (dt_mode t = Groth16 \<or> dt_mode t = Plonk) \<and>
      finish_request (cd_show_uuid (sl_codecs lib)) e sig bd ?st = (r, st')"
    using assms Some
    by (auto simp: request_proof_def Let_def split: option.splits if_splits prod.splits sum.splits)
  then obtain bd where b: "mb = Some bd" "cs = []" "dt_request_id t = re_request_id e" "dt_mode t = Groth16 \<or> dt_mode t = Plonk"
    "finish_request (cd_show_uuid (sl_codecs lib)) e sig bd ?st = (r, st')" by blast
  have "hs_pending_artifacts st' = insert (re_request_id e) (hs_pending_artifacts st)"
    using finish_request_pending [of "cd_show_uuid (sl_codecs lib)" e sig bd ?st] b(5) by simp
  with Some b show ?thesis by (intro spawned)
qed

lemma route_sp1_assigns:
  "route_sp1_proof cd fe1 fe2 up mock rid pu su mode store = (cs, Inr ()) \<Longrightarrow> assigned_in rid mode cs"
  by (auto simp: route_sp1_proof_def assign_proof_request_def assigned_in_def split: sum.splits if_splits)

lemma assigned_in_append [simp]: "assigned_in rid m (cs @ ds) \<longleftrightarrow> assigned_in rid m cs \<or> assigned_in rid m ds"
  by (auto simp: assigned_in_def)

lemma service_ok_frame:
  assumes "service_ok sv" "hs_pending_artifacts (sv_state sv') = hs_pending_artifacts (sv_state sv)"
    and "sv_tasks sv' = sv_tasks sv" "sv_sent sv' = sv_sent sv @ cs"
  shows "service_ok sv'"
  using assms by (auto simp: service_ok_def task_ok_def)

text \<open>One step of one task: the other requests keep their marks.\<close>

lemma service_ok_download:
  fixes lib :: "('s, 'p, 'v) sp1_lib"
  assumes ok: "service_ok sv" and i: "i < length (sv_tasks sv)" "sv_tasks sv ! i = (t, ph)"
    and step: "download_artifacts_and_route_proof lib e t ph (sv_state sv) = (ph', st', cs)"
    and sv': "sv_state sv' = st'" "sv_tasks sv' = (sv_tasks sv)[i := (t, ph')]" "sv_sent sv' = sv_sent sv @ cs"
  shows "service_ok sv'"
proof -
  have t: "task_ok sv t ph" using ok nth_mem [OF i(1)] i(2) by (auto simp: service_ok_def)
  have own: "task_ok sv' t ph' \<and> hs_pending_artifacts st' \<subseteq> hs_pending_artifacts (sv_state sv) \<and>
      hs_pending_artifacts (sv_state sv) - {dt_request_id t} \<subseteq> hs_pending_artifacts st'"
    using t step
    by (auto simp: download_artifacts_and_route_proof_def task_ok_def unmark_def sv' dest: route_sp1_assigns
        split: download_phase.splits if_splits prod.splits)
  have ids: "map (dt_request_id \<circ> fst) (sv_tasks sv') = map (dt_request_id \<circ> fst) (sv_tasks sv)"
    using i by (simp add: sv' map_update list_update_same_conv)
  have "task_ok sv' v qh" if m: "(v, qh) \<in> set (sv_tasks sv')" for v qh
  proof -
    obtain k where k: "k < length (sv_tasks sv)" "sv_tasks sv' ! k = (v, qh)"
      using m by (auto simp: in_set_conv_nth sv')
    show ?thesis
    proof (cases "k = i")
      case True
      then show ?thesis using k i own by (simp add: sv')
    next
      case False
      then have kv: "sv_tasks sv ! k = (v, qh)" using k by (simp add: sv')
      have "dt_request_id v \<noteq> dt_request_id t"
        using ok False k(1) i kv nth_eq_iff_index_eq [of "map (dt_request_id \<circ> fst) (sv_tasks sv)" k i]
        by (auto simp: service_ok_def)
      moreover have "task_ok sv v qh" using ok nth_mem [OF k(1)] kv by (auto simp: service_ok_def)
      ultimately show ?thesis using own by (auto simp: task_ok_def sv')
    qed
  qed
  moreover have "hs_pending_artifacts (sv_state sv') \<subseteq> (dt_request_id \<circ> fst) ` set (sv_tasks sv')"
    using own ok ids unfolding service_ok_def sv'(1) by (metis list.set_map subset_trans)
  ultimately show ?thesis using ok ids by (auto simp: service_ok_def)
qed

lemma service_ok_request:
  assumes ok: "service_ok sv" and new: "re_request_id e \<notin> (dt_request_id \<circ> fst) ` set (sv_tasks sv)"
  shows "service_ok (sp1_service_step lib (Act_RequestProof e sig mb) sv)"
proof -
  obtain r st' cs task where run: "request_proof lib e sig mb (sv_state sv) = (r, st', cs, task)"
    by (metis prod_cases4)
  then show ?thesis
  proof (cases rule: request_proof_cases)
    case plain
    with run show ?thesis by (intro service_ok_frame [OF ok, of _ cs]) simp_all
  next
    case (spawned t bd)
    define sv' where "sv' = sp1_service_step lib (Act_RequestProof e sig mb) sv"
    have eqs: "sv_state sv' = st'" "sv_tasks sv' = sv_tasks sv @ [(t, Dl_Install)]" "sv_sent sv' = sv_sent sv"
      using run spawned by (simp_all add: sv'_def)
    have "task_ok sv' v qh" if "(v, qh) \<in> set (sv_tasks sv)" for v qh
    proof -
      have "task_ok sv v qh" "dt_request_id v \<noteq> re_request_id e"
        using ok that new by (auto simp: service_ok_def image_iff)
      then show ?thesis unfolding task_ok_def eqs using spawned(6) by simp
    qed
    moreover have "task_ok sv' t Dl_Install" unfolding task_ok_def eqs using spawned(4-6) by simp
    moreover have "distinct (map (dt_request_id \<circ> fst) (sv_tasks sv'))"
      using ok new spawned(4) unfolding eqs by (simp add: service_ok_def o_def)
    moreover have "hs_pending_artifacts (sv_state sv') \<subseteq> (dt_request_id \<circ> fst) ` set (sv_tasks sv')"
      using ok spawned(4,6) unfolding eqs by (auto simp: service_ok_def)
    ultimately show ?thesis unfolding sv'_def [symmetric] service_ok_def by (auto simp: eqs(2))
  qed
qed

lemma sp1_run_ok: "sp1_run lib sv \<Longrightarrow> service_ok sv"
proof (induction rule: sp1_run.induct)
  case (sp1_start ip port pub_key mock store)
  then show ?case by (simp add: service_ok_def hierophant_state_new_def)
next
  case (sp1_act sv a)
  show ?case
  proof (cases a)
    case (Act_RequestProof e sig mb)
    have "re_request_id e \<notin> (dt_request_id \<circ> fst) ` set (sv_tasks sv)"
      using sp1_act.hyps(2) unfolding Act_RequestProof new_id_def sp1_action.case .
    then show ?thesis unfolding Act_RequestProof by (rule service_ok_request [OF sp1_act.IH])
  next
    case (Act_Download i e)
    obtain t ph where t: "sv_tasks sv ! i = (t, ph)" by (cases "sv_tasks sv ! i")
    obtain ph' st' cs where "download_artifacts_and_route_proof lib e t ph (sv_state sv) = (ph', st', cs)"
      by (metis prod_cases3)
    from service_ok_download [OF sp1_act.IH _ t this] sp1_act.IH this t Act_Download show ?thesis
      by simp
  next
    case (Act_GetProofRequestStatus e ib)
    obtain r st' cs where "get_proof_request_status lib e ib (sv_state sv) = (r, st', cs)"
      by (metis prod_cases3)
    with calls_keep_pending(1) [of lib e ib "sv_state sv"] Act_GetProofRequestStatus show ?thesis
      by (intro service_ok_frame [OF sp1_act.IH, of _ cs]) simp_all
  qed (auto intro!: service_ok_frame [OF sp1_act.IH, of _ "[]"] simp: calls_keep_pending)
qed

text \<open>C20. A request accepted while its circuit artifacts are missing is recorded under the id returned to the client,
  marked as pending, and nothing is sent for it yet. From then on, whatever calls and task steps run in
  between: until its download task has ended every status poll with that id reads "requested" without asking
  the registry, and the task ends only after the request has been put on the registry's channel, or with an error
  of the installation, of the marker file or of the routing. So no poll falls between the removal of the mark and
  the assignment.\<close>

theorem request_waits_for_artifacts:
  fixes lib :: "('s, 'p, 'v) sp1_lib"
  assumes "sp1_run lib sv"
  shows "(\<forall>e sig body tx id_bytes st' cs t.
            request_proof lib e sig (Some body) (sv_state sv) = (GrpcOk (tx, id_bytes), st', cs, Some t) \<longrightarrow>
            cs = [] \<and> id_bytes = b256_to_bytes (dt_request_id t) \<and> dt_request_id t \<in> hs_pending_artifacts st' \<and>
            (\<exists>u. hs_proof_requests st' (dt_request_id t) = Some (u, body))) \<and>
         (\<forall>(t, ph) \<in> set (sv_tasks sv).
            (case ph of
               Dl_Done out \<Rightarrow> out = InstallFailed \<or> out = MarkerFailed \<or> (\<exists>err. out = RouteEnded (Inl err)) \<or>
                 assigned_in (dt_request_id t) (dt_mode t) (sv_sent sv)
             | _ \<Rightarrow> \<forall>u body se. hs_proof_requests (sv_state sv) (dt_request_id t) = Some (u, body) \<longrightarrow>
                 (get_proof_request_status lib se (b256_to_bytes (dt_request_id t)) (sv_state sv) :: _ \<times> _ \<times> 's cmds) =
                   (Ret (status_reply_for (cd_show_uuid (sl_codecs lib)) (sv_state sv) u body
                           (fulfillment_status_i32 Requested) (execution_status_i32 Unexecuted)), sv_state sv, [])))"
proof (intro conjI allI impI)
  fix e sig body tx id_bytes st' and cs :: "'s cmds" and t
  assume "request_proof lib e sig (Some body) (sv_state sv) = (GrpcOk (tx, id_bytes), st', cs, Some t)"
  then show "cs = []" "id_bytes = b256_to_bytes (dt_request_id t)" "dt_request_id t \<in> hs_pending_artifacts st'"
    "\<exists>u. hs_proof_requests st' (dt_request_id t) = Some (u, body)"
    by (cases rule: request_proof_cases; auto simp: finish_request_def split: prod.splits option.splits)+
next
  have "case ph of
      Dl_Done out \<Rightarrow> out = InstallFailed \<or> out = MarkerFailed \<or> (\<exists>err. out = RouteEnded (Inl err)) \<or>
        assigned_in (dt_request_id t) (dt_mode t) (sv_sent sv)
    | _ \<Rightarrow> \<forall>u body se. hs_proof_requests (sv_state sv) (dt_request_id t) = Some (u, body) \<longrightarrow>
        (get_proof_request_status lib se (b256_to_bytes (dt_request_id t)) (sv_state sv) :: _ \<times> _ \<times> 's cmds) =
          (Ret (status_reply_for (cd_show_uuid (sl_codecs lib)) (sv_state sv) u body
                  (fulfillment_status_i32 Requested) (execution_status_i32 Unexecuted)), sv_state sv, [])"
    if "(t, ph) \<in> set (sv_tasks sv)" for t ph
  proof -
    have k: "task_ok sv t ph" using sp1_run_ok [OF assms] that by (auto simp: service_ok_def)
    have req: "\<forall>u body se. hs_proof_requests (sv_state sv) (dt_request_id t) = Some (u, body) \<longrightarrow>
        (get_proof_request_status lib se (b256_to_bytes (dt_request_id t)) (sv_state sv) :: _ \<times> _ \<times> 's cmds) =
          (Ret (status_reply_for (cd_show_uuid (sl_codecs lib)) (sv_state sv) u body
                  (fulfillment_status_i32 Requested) (execution_status_i32 Unexecuted)), sv_state sv, [])"
      if "\<not> task_ended ph"
      using k that by (simp add: task_ok_def get_proof_request_status_def Let_def b256_roundtrip)
    show ?thesis
    proof (cases ph)
      case (Dl_Done out)
      have "(\<exists>err. x = Inl err) \<or> x = Inr ()" for x :: "route_error + unit" by (cases x) simp_all
      then show ?thesis using k Dl_Done by (cases out) (auto simp: task_ok_def)
    qed (use req in simp_all)
  qed
  then show "\<forall>(t, ph) \<in> set (sv_tasks sv). (case ph of
      Dl_Done out \<Rightarrow> out = InstallFailed \<or> out = MarkerFailed \<or> (\<exists>err. out = RouteEnded (Inl err)) \<or>
        assigned_in (dt_request_id t) (dt_mode t) (sv_sent sv)
    | _ \<Rightarrow> \<forall>u body se. hs_proof_requests (sv_state sv) (dt_request_id t) = Some (u, body) \<longrightarrow>
        (get_proof_request_status lib se (b256_to_bytes (dt_request_id t)) (sv_state sv) :: _ \<times> _ \<times> 's cmds) =
          (Ret (status_reply_for (cd_show_uuid (sl_codecs lib)) (sv_state sv) u body
                  (fulfillment_status_i32 Requested) (execution_status_i32 Unexecuted)), sv_state sv, []))"
    by blast
qed

section \<open>A concrete service\<close>

definition demo_sp1_lib :: "(bytes, bytes, bytes) sp1_lib" where
  "demo_sp1_lib = \<lparr>sl_codecs = \<lparr>cd_show_uuid = unary_show, cd_zstd = (\<lambda>_. None), cd_stdin = Some, cd_elf = Some\<rparr>,
     sl_parse_uuid = unary_parse, sl_decode_proof = Some, sl_decode_vk = Some, sl_verify = (\<lambda>p v. p = v)\<rparr>"

definition demo_body :: "i32 \<Rightarrow> request_proof_body" where
  "demo_body m = \<lparr>rb_vk_hash = [1], rb_mode = m, rb_stdin_uri = ''STDIN_aa'', rb_deadline = 9\<rparr>"

definition demo_uri :: artifact_uri where
  "demo_uri = \<lparr>au_id = 3, au_type = Proof\<rparr>"

definition demo_artifacts :: artifact_store where
  "demo_artifacts = \<lparr>as_directory = ''d'', as_upload_uris = {demo_uri}, as_max_stdin = 1,
     as_stdin_artifacts = [artifact_uri_default], as_stdin_index = 0, as_max_proof = 1,
     as_proof_artifacts = [artifact_uri_default], as_proof_index = 0, as_files = Map.empty\<rparr>"

definition demo_hstate :: hierophant_state where
  "demo_hstate = (hierophant_state_new ''h'' 1 [] False (Some demo_artifacts))
     \<lparr>hs_program_store := [[1] \<mapsto> \<lparr>pg_vk_hash = [1], pg_vk = [7], pg_program_uri = ''PROGRAM_a'', pg_owner = [],
        pg_created_at = 0\<rparr>],
      hs_proof_requests := [5 \<mapsto> (demo_uri, demo_body 2)]\<rparr>"

definition demo_status_env :: status_env where
  "demo_status_env = \<lparr>se_poll = \<lparr>pe_up = True, pe_up2 = True, pe_resp = 0, pe_answer =
     Received (Some \<lparr>cps_execution_status = 2, cps_proof = Some [7], cps_progress = None\<rparr>)\<rparr>,
     se_up = True, se_up2 = True, se_fs1 = ok_fs 0, se_fs2 = ok_fs 0\<rparr>"

lemma demo_poll [simp]:
  "get_proof_status (se_poll demo_status_env) rid =
     ([Cmd_ProofStatusRequest rid 0, Cmd_ProofProgressUpdate rid None], Ret (Inr (mk_status Fulfilled Executed [7])))"
  by (simp add: demo_status_env_def get_proof_status_def proof_status_request_def Let_def status_from_def
      execution_status_of_def)

lemma demo_file [simp]:
  "get_artifact_bytes unary_show fe u (Some demo_artifacts) = Inr None"
  by (simp add: get_artifact_bytes_Some demo_artifacts_def)

lemma demo_request [simp]:
  "hs_proof_requests demo_hstate 5 = Some (demo_uri, demo_body 2)" "hs_pending_artifacts demo_hstate = {}"
  "hs_artifacts demo_hstate = Some demo_artifacts" "cd_show_uuid (sl_codecs demo_sp1_lib) = unary_show"
  by (simp_all add: demo_hstate_def hierophant_state_new_def demo_sp1_lib_def)

lemma demo_settle:
  "\<exists>st'. settle_proof demo_sp1_lib demo_status_env 5 demo_uri [7] demo_hstate = (True, st', [Cmd_ProofComplete 5])"
proof -
  have "get_vk demo_sp1_lib 5 demo_hstate = Some [7]"
    by (simp add: get_vk_def demo_body_def demo_hstate_def demo_sp1_lib_def)
  moreover have "\<exists>s'. handle_save_artifact unary_show (ok_fs 0) demo_uri [7] demo_artifacts = Some (Inr (), s')"
    by (simp add: handle_save_artifact_def demo_artifacts_def demo_uri_def trim_proof_def Let_def
        increment_current_proof_artifact_index_def ok_fs_def)
  ultimately show ?thesis
    by (auto simp: settle_proof_def demo_sp1_lib_def proof_complete_def demo_status_env_def save_artifact_call_def
        client_call_def)
qed

theorem sp1_fulfilled_verified_witness:
  "\<exists>r st'. get_proof_request_status demo_sp1_lib demo_status_env (b256_to_bytes 5) demo_hstate =
     (Ret r, st', [Cmd_ProofStatusRequest 5 0, Cmd_ProofProgressUpdate 5 None, Cmd_ProofComplete 5]) \<and>
     (\<exists>u body. hs_proof_requests demo_hstate 5 = Some (u, body))"
proof -
  have "\<exists>r st'. get_proof_request_status demo_sp1_lib demo_status_env (b256_to_bytes 5) demo_hstate =
     (Ret r, st', [Cmd_ProofStatusRequest 5 0, Cmd_ProofProgressUpdate 5 None, Cmd_ProofComplete 5]) \<and>
     st_fulfillment r = fulfillment_status_i32 Fulfilled"
    using demo_settle demo_request
    by (auto simp: get_proof_request_status_def Let_def b256_roundtrip mk_status_def status_reply_for_def)
  then obtain r st' where run: "get_proof_request_status demo_sp1_lib demo_status_env (b256_to_bytes 5) demo_hstate =
     (Ret r, st', [Cmd_ProofStatusRequest 5 0, Cmd_ProofProgressUpdate 5 None, Cmd_ProofComplete 5])"
    "st_fulfillment r = fulfillment_status_i32 Fulfilled" by blast
  from sp1_fulfilled_verified [OF run] obtain rid u body where
    "b256_of_bytes (b256_to_bytes 5) = Some rid" "hs_proof_requests demo_hstate rid = Some (u, body)" by blast
  with run(1) show ?thesis by (auto simp: b256_roundtrip)
qed

theorem proof_upload_bypasses_verification_witness:
  "\<exists>st'. handle_artifact_download unary_show unary_parse (ok_fs 0) (display_uri unary_show demo_uri) st' = HttpOk [66]"
proof -
  have "uuid_text (cd_show_uuid (sl_codecs demo_sp1_lib)) (sl_parse_uuid demo_sp1_lib)"
    by (simp add: demo_sp1_lib_def unary_uuid_text)
  moreover have "hs_proof_requests demo_hstate 5 = Some (demo_uri, demo_body 2)" "5 \<notin> hs_pending_artifacts demo_hstate"
    "hs_artifacts demo_hstate = Some demo_artifacts"
    by (simp_all add: demo_hstate_def hierophant_state_new_def)
  moreover have "store_inv (cd_show_uuid (sl_codecs demo_sp1_lib)) demo_artifacts" "proof_uri demo_artifacts demo_uri"
    "stored (cd_show_uuid (sl_codecs demo_sp1_lib)) demo_artifacts demo_uri = None"
    by (simp_all add: store_inv_def demo_artifacts_def proof_uri_def demo_uri_def stored_def)
  moreover have "fs_read_ok (se_fs1 demo_status_env)" by (simp add: demo_status_env_def ok_fs_def)
  ultimately show ?thesis
    using proof_upload_bypasses_verification [of demo_sp1_lib demo_hstate 5 demo_uri "demo_body 2" demo_artifacts
        demo_status_env 0 "[66]"]
    by (auto simp: demo_sp1_lib_def demo_status_env_def)
qed

definition demo_request_env :: request_env where
  "demo_request_env = \<lparr>re_request_id = 6, re_dirs = (None, None), re_has = (\<lambda>_. False), re_fs1 = ok_fs 0, re_fs2 = ok_fs 0,
     re_fs3 = ok_fs 4, re_up = True\<rparr>"

text \<open>A program is registered, then a Groth16 proof is requested while its artifacts are missing.\<close>

definition demo_registered :: "bytes sp1_service" where
  "demo_registered = sp1_service_step demo_sp1_lib
     (Act_CreateProgram (Some 0) 0 (Some \<lparr>cp_vk_hash = [1], cp_vk = [7], cp_program_uri = ''PROGRAM_a''\<rparr>))
     \<lparr>sv_state = hierophant_state_new ''h'' 1 [] False (Some demo_artifacts), sv_tasks = [], sv_sent = []\<rparr>"

definition demo_waiting :: "bytes sp1_service" where
  "demo_waiting = sp1_service_step demo_sp1_lib (Act_RequestProof demo_request_env [] (Some (demo_body 4))) demo_registered"

lemma demo_waiting_run: "sp1_run demo_sp1_lib demo_waiting"
proof -
  have "sp1_run demo_sp1_lib demo_registered"
    unfolding demo_registered_def by (rule sp1_act [OF sp1_start]) (simp add: new_id_def)
  then show ?thesis
    unfolding demo_waiting_def by (rule sp1_act) (simp add: new_id_def demo_registered_def)
qed

lemma demo_waiting_request:
  "\<exists>t u. sv_tasks demo_waiting = [(t, Dl_Install)] \<and> dt_request_id t = 6 \<and>
     hs_proof_requests (sv_state demo_waiting) 6 = Some (u, demo_body 4)"
proof -
  have uris: "artifact_uri_from_str unary_parse ''STDIN_aa'' = Some \<lparr>au_id = 2, au_type = Stdin\<rparr>"
    "artifact_uri_from_str unary_parse ''PROGRAM_a'' = Some \<lparr>au_id = 1, au_type = Program\<rparr>"
    by (simp_all add: artifact_uri_from_str_def Let_def artifact_type_of_name_def all_artifact_types_def unary_parse_def)
  show ?thesis
    using uris
    by (simp add: demo_waiting_def demo_registered_def create_program_def request_proof_def Let_def demo_body_def
        hierophant_state_new_def demo_sp1_lib_def proof_mode_of_def check_artifacts_ready_def demo_request_env_def
        finish_request_def create_artifact_call_def client_call_def handle_create_artifact_def)
qed

theorem request_waits_for_artifacts_witness:
  "\<exists>u. hs_proof_requests (sv_state demo_waiting) 6 = Some (u, demo_body 4) \<and>
     (get_proof_request_status demo_sp1_lib demo_status_env (b256_to_bytes 6) (sv_state demo_waiting) :: _ \<times> _ \<times> bytes cmds) =
        (Ret (status_reply_for unary_show (sv_state demo_waiting) u (demo_body 4) (fulfillment_status_i32 Requested)
                (execution_status_i32 Unexecuted)), sv_state demo_waiting, [])"
proof -
  obtain t u where t: "sv_tasks demo_waiting = [(t, Dl_Install)]" "dt_request_id t = 6"
    "hs_proof_requests (sv_state demo_waiting) 6 = Some (u, demo_body 4)"
    using demo_waiting_request by blast
  from request_waits_for_artifacts [OF demo_waiting_run, THEN conjunct2] t show ?thesis
    by (simp add: demo_sp1_lib_def)
qed

end
