(* ===== verification/Routes.thy ===== *)
theory Routes
  imports OpenVm Bonsai Prover_Network
begin

text \<open>
  The route tables of the hierophant's HTTP server (\<^verbatim>\<open>create_router\<close> of \<^verbatim>\<open>api/http.rs\<close>, \<^verbatim>\<open>bonsai_routes\<close>,
  \<^verbatim>\<open>openvm_routes\<close>) and how axum looks a request up in them: segment by segment, a literal segment before a
  parameter, with a return to the parameter when the literal leads nowhere; the method is examined last.
\<close>

section \<open>Tables\<close>

datatype http_method = GET | PUT | POST

datatype method_filter = On_Get | On_Put | On_Post | On_Any

fun allows :: "method_filter \<Rightarrow> http_method \<Rightarrow> bool" where
  "allows On_Get m = (m = GET)"
| "allows On_Put m = (m = PUT)"
| "allows On_Post m = (m = POST)"
| "allows On_Any m = True"

datatype pat = Lit string | Param

datatype endpoint =
    Ep_Ws | Ep_Artifact_Upload | Ep_Contemplants | Ep_Dead_Contemplants | Ep_Pending | Ep_Proof_History | Ep_Health
  | Ep_Artifact_Download
  | Bo_Version | Bo_Image_Upload_Url | Bo_Image_Put | Bo_Input_Upload_Url | Bo_Input_Put | Bo_Receipt_Upload_Url
  | Bo_Receipt_Put | Bo_Receipt_Download | Bo_Session_Create | Bo_Session_Status | Bo_Snark_Create | Bo_Snark_Status
  | Bo_Snark_Download
  | Ov_Version | Ov_Program_Upload_Url | Ov_Program_Put | Ov_Input_Upload_Url | Ov_Input_Put | Ov_Proof_Create
  | Ov_Proof_Status | Ov_Proof_Download

type_synonym routes = "(pat list \<times> method_filter \<times> endpoint) list"

definition bonsai_routes :: routes where
  "bonsai_routes =
     [([Lit ''version''], On_Get, Bo_Version),
      ([Lit ''images'', Lit ''upload'', Param], On_Get, Bo_Image_Upload_Url),
      ([Lit ''images'', Param], On_Put, Bo_Image_Put),
      ([Lit ''inputs'', Lit ''upload''], On_Get, Bo_Input_Upload_Url),
      ([Lit ''inputs'', Param], On_Put, Bo_Input_Put),
      ([Lit ''receipts'', Lit ''upload''], On_Get, Bo_Receipt_Upload_Url),
      ([Lit ''receipts'', Param], On_Put, Bo_Receipt_Put),
      ([Lit ''receipts'', Param, Lit ''download''], On_Get, Bo_Receipt_Download),
      ([Lit ''sessions'', Lit ''create''], On_Post, Bo_Session_Create),
      ([Lit ''sessions'', Lit ''status'', Param], On_Get, Bo_Session_Status),
      ([Lit ''snark'', Lit ''create''], On_Post, Bo_Snark_Create),
      ([Lit ''snark'', Lit ''status'', Param], On_Get, Bo_Snark_Status),
      ([Lit ''snark'', Param, Lit ''download''], On_Get, Bo_Snark_Download)]"

definition openvm_routes :: routes where
  "openvm_routes =
     [([Lit ''version''], On_Get, Ov_Version),
      ([Lit ''programs'', Lit ''upload'', Param], On_Get, Ov_Program_Upload_Url),
      ([Lit ''programs'', Param], On_Put, Ov_Program_Put),
      ([Lit ''inputs'', Lit ''upload''], On_Get, Ov_Input_Upload_Url),
      ([Lit ''inputs'', Param], On_Put, Ov_Input_Put),
      ([Lit ''proofs'', Lit ''create''], On_Post, Ov_Proof_Create),
      ([Lit ''proofs'', Lit ''status'', Param], On_Get, Ov_Proof_Status),
      ([Lit ''proofs'', Param, Lit ''download''], On_Get, Ov_Proof_Download)]"

definition nest :: "string \<Rightarrow> routes \<Rightarrow> routes" where
  "nest base rs = map (\<lambda>(ps, h). (Lit base # ps, h)) rs"

definition create_router :: routes where
  "create_router =
     [([Lit ''ws''], On_Any, Ep_Ws),
      ([Lit ''upload'', Param], On_Post, Ep_Artifact_Upload),
      ([Lit ''upload'', Param], On_Put, Ep_Artifact_Upload),
      ([Lit ''contemplants''], On_Get, Ep_Contemplants),
      ([Lit ''dead-contemplants''], On_Get, Ep_Dead_Contemplants),
      ([Lit ''pending''], On_Get, Ep_Pending),
      ([Lit ''proof-history''], On_Get, Ep_Proof_History),
      ([Lit ''health''], On_Get, Ep_Health)] @
     nest ''bonsai'' bonsai_routes @ nest ''openvm'' openvm_routes @
     [([Param], On_Get, Ep_Artifact_Download)]"

section \<open>Look-up\<close>

text \<open>The routes whose next pattern is \<open>p\<close>, without it.\<close>

fun after :: "pat \<Rightarrow> routes \<Rightarrow> routes" where
  "after p [] = []"
| "after p (([], h) # rs) = after p rs"
| "after p ((q # qs, h) # rs) = (if q = p then (qs, h) # after p rs else after p rs)"

fun at_end :: "routes \<Rightarrow> (method_filter \<times> endpoint) list" where
  "at_end [] = []"
| "at_end (([], h) # rs) = h # at_end rs"
| "at_end ((q # qs, h) # rs) = at_end rs"

text \<open>The parameters and the handlers registered for a path.\<close>

fun find_routes :: "routes \<Rightarrow> string list \<Rightarrow> (string list \<times> (method_filter \<times> endpoint) list) option" where
  "find_routes rs [] = (if at_end rs = [] then None else Some ([], at_end rs))"
| "find_routes rs (s # ss) = (case find_routes (after (Lit s) rs) ss of
       Some r \<Rightarrow> Some r
     | None \<Rightarrow>
         (if s = [] then None
          else map_option (\<lambda>(ps, hs). (s # ps, hs)) (find_routes (after Param rs) ss)))"

datatype routed = Routed endpoint "string list" | MethodNotAllowed | NotFound

text \<open>\<open>dec\<close> is the percent-decoding of a parameter.\<close>

definition dispatch :: "(string \<Rightarrow> string) \<Rightarrow> http_method \<Rightarrow> string \<Rightarrow> routed" where
  "dispatch dec m path = (case path of
       [] \<Rightarrow> NotFound
     | c # rest \<Rightarrow>
         (if c \<noteq> CHR ''/'' then NotFound
          else (case find_routes create_router (split_on (CHR ''/'') rest) of
              None \<Rightarrow> NotFound
            | Some (ps, hs) \<Rightarrow> (case List.find (\<lambda>(f, e). allows f m) hs of
                  None \<Rightarrow> MethodNotAllowed
                | Some (f, e) \<Rightarrow> Routed e (map dec ps)))))"

text \<open>What a client requests for an \<^verbatim>\<open>http\<close> url: the authority it connects to, and the path.\<close>

definition url_parts :: "string \<Rightarrow> (string \<times> string) option" where
  "url_parts url =
     (if take 7 url = ''http://''
      then Some (takeWhile (\<lambda>c. c \<noteq> CHR ''/'') (drop 7 url), dropWhile (\<lambda>c. c \<noteq> CHR ''/'') (drop 7 url))
      else None)"

definition request_url :: "(string \<Rightarrow> string) \<Rightarrow> http_method \<Rightarrow> string \<Rightarrow> (string \<times> routed) option" where
  "request_url dec m url = map_option (\<lambda>(authority, path). (authority, dispatch dec m path)) (url_parts url)"

section \<open>Facts\<close>

text \<open>Ids that are one path segment and need no encoding: uuids, hexadecimal digests.\<close>

definition plain_char :: "char \<Rightarrow> bool" where
  "plain_char c \<longleftrightarrow> c = CHR ''-'' \<or> c = CHR ''_'' \<or> (48 \<le> (of_char c :: nat) \<and> (of_char c :: nat) \<le> 57) \<or>
     (65 \<le> (of_char c :: nat) \<and> (of_char c :: nat) \<le> 90) \<or> (97 \<le> (of_char c :: nat) \<and> (of_char c :: nat) \<le> 122)"

definition plain_id :: "string \<Rightarrow> bool" where
  "plain_id s \<longleftrightarrow> s \<noteq> [] \<and> s \<noteq> ''upload'' \<and> s \<noteq> ''create'' \<and> s \<noteq> ''status'' \<and> list_all plain_char s"

lemma plain_char_special [simp]: "\<not> plain_char (CHR ''/'')" "\<not> plain_char (CHR ''%'')"
  by (simp_all add: plain_char_def)

lemma plain_id_segment:
  assumes "plain_id s" shows "s \<noteq> []" "CHR ''/'' \<notin> set s" "CHR ''%'' \<notin> set s"
proof -
  have all: "plain_char c" if "c \<in> set s" for c using assms that by (simp add: plain_id_def list_all_iff)
  show "s \<noteq> []" using assms by (simp add: plain_id_def)
  show "CHR ''/'' \<notin> set s" "CHR ''%'' \<notin> set s" using all plain_char_special by blast+
qed

definition decodes :: "(string \<Rightarrow> string) \<Rightarrow> bool" where
  "decodes dec \<longleftrightarrow> (\<forall>s. CHR ''%'' \<notin> set s \<longrightarrow> dec s = s)"

lemma url_parts_http:
  "CHR ''/'' \<notin> set authority \<Longrightarrow> url_parts (''http://'' @ authority @ CHR ''/'' # rest) = Some (authority, CHR ''/'' # rest)"
  by (auto simp: url_parts_def takeWhile_append dropWhile_append)

lemma show_nat_char_range: "c \<in> set (show_nat n) \<Longrightarrow> of_char c \<in> {48..57 :: nat}"
proof (induction n rule: show_nat.induct)
  case (1 n)
  then show ?case by (subst (asm) show_nat.simps) (auto split: if_splits)
qed

lemma after_surfaces:
  "after (Lit ''openvm'') create_router = openvm_routes" "after (Lit ''bonsai'') create_router = bonsai_routes"
  by (simp_all add: create_router_def nest_def openvm_routes_def bonsai_routes_def)

lemma after_upload:
  "after (Lit ''upload'') create_router = [([Param], On_Post, Ep_Artifact_Upload), ([Param], On_Put, Ep_Artifact_Upload)]"
  "after Param create_router = [([], On_Get, Ep_Artifact_Download)]"
  by (simp_all add: create_router_def nest_def openvm_routes_def bonsai_routes_def)

text \<open>The routes of the paths that are handed out.\<close>

lemma plain_id_literals:
  assumes "plain_id x"
  shows "x \<noteq> []" "x \<noteq> ''upload''" "''upload'' \<noteq> x" "x \<noteq> ''create''" "''create'' \<noteq> x" "x \<noteq> ''status''" "''status'' \<noteq> x"
  using assms by (auto simp: plain_id_def)

lemma openvm_paths:
  assumes "plain_id x"
  shows "find_routes openvm_routes [''programs'', x] = Some ([x], [(On_Put, Ov_Program_Put)])"
    and "find_routes openvm_routes [''inputs'', x] = Some ([x], [(On_Put, Ov_Input_Put)])"
    and "find_routes openvm_routes [''proofs'', x, ''download''] = Some ([x], [(On_Get, Ov_Proof_Download)])"
  using plain_id_literals [OF assms] by (simp_all add: openvm_routes_def)

lemma bonsai_paths:
  assumes "plain_id x"
  shows "find_routes bonsai_routes [''images'', x] = Some ([x], [(On_Put, Bo_Image_Put)])"
    and "find_routes bonsai_routes [''inputs'', x] = Some ([x], [(On_Put, Bo_Input_Put)])"
    and "find_routes bonsai_routes [''receipts'', x] = Some ([x], [(On_Put, Bo_Receipt_Put)])"
    and "find_routes bonsai_routes [''receipts'', x, ''download''] = Some ([x], [(On_Get, Bo_Receipt_Download)])"
    and "find_routes bonsai_routes [''snark'', x, ''download''] = Some ([x], [(On_Get, Bo_Snark_Download)])"
  using plain_id_literals [OF assms] by (simp_all add: bonsai_routes_def)

lemma dispatch_surface:
  assumes "surface = ''openvm'' \<and> rs = openvm_routes \<or> surface = ''bonsai'' \<and> rs = bonsai_routes"
    "find_routes rs segs = Some (ps, [(f, ep)])" "allows f m" "list_all (\<lambda>s. CHR ''/'' \<notin> set s) segs" "segs \<noteq> []"
    "decodes dec" "list_all (\<lambda>s. CHR ''%'' \<notin> set s) ps"
  shows "dispatch dec m (CHR ''/'' # surface @ CHR ''/'' # join_str ''/'' segs) = Routed ep ps"
proof -
  have split: "split_on (CHR ''/'') (join_str ''/'' segs) = segs" if "list_all (\<lambda>s. CHR ''/'' \<notin> set s) segs" "segs \<noteq> []" for segs
    using that by (induction "''/''" segs rule: join_str.induct) (simp_all add: split_on_no_sep split_on_append)
  have "split_on (CHR ''/'') (surface @ CHR ''/'' # join_str ''/'' segs) = surface # segs"
    using assms(1) split [OF assms(4,5)] by (auto simp: split_on_append)
  moreover have "find_routes create_router (surface # segs) = Some (ps, [(f, ep)])"
    using assms(1,2) by (elim disjE) (simp_all add: after_surfaces)
  moreover have "map dec ps = ps"
    using assms(6,7) by (induction ps) (simp_all add: decodes_def)
  ultimately show ?thesis using assms(3) by (simp add: dispatch_def)
qed

lemma authority_no_slash: "CHR ''/'' \<notin> set ip \<Longrightarrow> CHR ''/'' \<notin> set (ip @ '':'' @ show_nat port)"
  using show_nat_char_range [of "CHR ''/''" port] by auto

lemma request_url_http:
  assumes "CHR ''/'' \<notin> set ip"
  shows "request_url dec m (''http://'' @ ip @ '':'' @ show_nat port @ CHR ''/'' # rest) =
     Some (ip @ '':'' @ show_nat port, dispatch dec m (CHR ''/'' # rest))"
  using url_parts_http [OF authority_no_slash [OF assms, of port], of rest] by (simp add: request_url_def)

lemma openvm_url_routed:
  assumes "CHR ''/'' \<notin> set (sc_ip cfg)" "decodes dec" "find_routes openvm_routes segs = Some (ps, [(f, ep)])" "allows f m"
    "list_all (\<lambda>s. CHR ''/'' \<notin> set s) segs" "segs \<noteq> []" "list_all (\<lambda>s. CHR ''%'' \<notin> set s) ps"
  shows "request_url dec m (presigned_url cfg (CHR ''/'' # join_str ''/'' segs)) =
     Some (sc_ip cfg @ '':'' @ show_nat (sc_http_port cfg), Routed ep ps)"
  using request_url_http [OF assms(1), of dec m "sc_http_port cfg" "''openvm'' @ CHR ''/'' # join_str ''/'' segs"]
    dispatch_surface [OF disjI1 [OF conjI [OF refl refl]] assms(3-6,2,7)]
  by (simp add: presigned_url_def)

lemma bonsai_url_routed:
  assumes "CHR ''/'' \<notin> set (sc_ip cfg)" "decodes dec" "find_routes bonsai_routes segs = Some (ps, [(f, ep)])" "allows f m"
    "list_all (\<lambda>s. CHR ''/'' \<notin> set s) segs" "segs \<noteq> []" "list_all (\<lambda>s. CHR ''%'' \<notin> set s) ps"
  shows "request_url dec m (bonsai_presigned_url cfg (CHR ''/'' # join_str ''/'' segs)) =
     Some (sc_ip cfg @ '':'' @ show_nat (sc_http_port cfg), Routed ep ps)"
  using request_url_http [OF assms(1), of dec m "sc_http_port cfg" "''bonsai'' @ CHR ''/'' # join_str ''/'' segs"]
    dispatch_surface [OF disjI2 [OF conjI [OF refl refl]] assms(3-6,2,7)]
  by (simp add: bonsai_presigned_url_def)

text \<open>An artifact uri has an underscore, which no literal route has.\<close>

lemma artifact_paths:
  assumes "CHR ''_'' \<in> set x"
  shows "find_routes create_router [x] = Some ([x], [(On_Get, Ep_Artifact_Download)])"
proof -
  have "x \<noteq> []" "x \<notin> {''ws'', ''upload'', ''contemplants'', ''dead-contemplants'', ''pending'', ''proof-history'', ''health'',
      ''bonsai'', ''openvm''}" using assms by auto
  then have "after (Lit x) create_router = []"
    by (auto simp: create_router_def nest_def openvm_routes_def bonsai_routes_def)
  with \<open>x \<noteq> []\<close> show ?thesis by (simp add: after_upload)
qed

section \<open>Properties\<close>

text \<open>C39. Every url the REST surfaces hand out leads back to the handler it is meant for, with the id it was made for:
  the upload urls of programs, images, inputs and receipts, and the download urls of proofs, receipts and wraps.\<close>

theorem handed_out_urls_routed:
  assumes "CHR ''/'' \<notin> set (sc_ip cfg)" "decodes dec" "plain_id (normalize_program_id prog)" "plain_id (normalize_image_id img)"
    "plain_id (oe_uuid oe)" "plain_id (be_uuid be)" "plain_id job"
    "openvm_succeeded cfg job = HttpOk proof" "session_succeeded cfg job = HttpOk receipt" "snark_succeeded cfg job = HttpOk wrap"
    "auth = sc_ip cfg @ '':'' @ show_nat (sc_http_port cfg)"
  shows "request_url dec PUT (handle_program_upload_url cfg prog) = Some (auth, Routed Ov_Program_Put [normalize_program_id prog]) \<and>
     request_url dec PUT (snd (handle_input_upload_url cfg oe)) =
       Some (auth, Routed Ov_Input_Put [fst (handle_input_upload_url cfg oe)]) \<and>
     map_option (request_url dec GET) (sr_url proof) = Some (Some (auth, Routed Ov_Proof_Download [job])) \<and>
     request_url dec PUT (handle_image_upload_url cfg img) = Some (auth, Routed Bo_Image_Put [normalize_image_id img]) \<and>
     request_url dec PUT (snd (bonsai_input_upload_url cfg be)) =
       Some (auth, Routed Bo_Input_Put [fst (bonsai_input_upload_url cfg be)]) \<and>
     request_url dec PUT (snd (handle_receipt_upload_url cfg be)) =
       Some (auth, Routed Bo_Receipt_Put [fst (handle_receipt_upload_url cfg be)]) \<and>
     map_option (request_url dec GET) (sr_url receipt) = Some (Some (auth, Routed Bo_Receipt_Download [job])) \<and>
     map_option (request_url dec GET) (sr_url wrap) = Some (Some (auth, Routed Bo_Snark_Download [job]))"
proof -
  note ov = openvm_url_routed [OF assms(1,2)] and bo = bonsai_url_routed [OF assms(1,2)]
  note seg = plain_id_segment
  have "request_url dec PUT (presigned_url cfg (''/programs/'' @ x)) = Some (auth, Routed Ov_Program_Put [x])"
    "request_url dec PUT (presigned_url cfg (''/inputs/'' @ x)) = Some (auth, Routed Ov_Input_Put [x])"
    "request_url dec GET (presigned_url cfg (''/proofs/'' @ x @ ''/download'')) = Some (auth, Routed Ov_Proof_Download [x])"
    if "plain_id x" for x
    using ov [OF openvm_paths(1) [OF that], of PUT] ov [OF openvm_paths(2) [OF that], of PUT]
      ov [OF openvm_paths(3) [OF that], of GET] seg [OF that] assms(11) by simp_all
  moreover have "request_url dec PUT (bonsai_presigned_url cfg (''/images/'' @ x)) = Some (auth, Routed Bo_Image_Put [x])"
    "request_url dec PUT (bonsai_presigned_url cfg (''/inputs/'' @ x)) = Some (auth, Routed Bo_Input_Put [x])"
    "request_url dec PUT (bonsai_presigned_url cfg (''/receipts/'' @ x)) = Some (auth, Routed Bo_Receipt_Put [x])"
    "request_url dec GET (bonsai_presigned_url cfg (''/receipts/'' @ x @ ''/download'')) = Some (auth, Routed Bo_Receipt_Download [x])"
    "request_url dec GET (bonsai_presigned_url cfg (''/snark/'' @ x @ ''/download'')) = Some (auth, Routed Bo_Snark_Download [x])"
    if "plain_id x" for x
    using bo [OF bonsai_paths(1) [OF that], of PUT] bo [OF bonsai_paths(2) [OF that], of PUT]
      bo [OF bonsai_paths(3) [OF that], of PUT] bo [OF bonsai_paths(4) [OF that], of GET]
      bo [OF bonsai_paths(5) [OF that], of GET] seg [OF that] assms(11) by simp_all
  ultimately show ?thesis using assms(3-10)
    by (auto simp: handle_program_upload_url_def handle_input_upload_url_def openvm_succeeded_def response_succeeded_def
        handle_image_upload_url_def bonsai_input_upload_url_def handle_receipt_upload_url_def session_succeeded_def
        snark_succeeded_def)
qed

text \<open>The addresses the SP1 surface hands out are routed as well: a created artifact can be put at its upload
  address, and a proof is downloaded from its address although a dozen literal routes stand beside the catch-all.\<close>

theorem artifact_urls_routed:
  assumes "CHR ''/'' \<notin> set (hs_ip st)" "decodes dec" "\<And>i. list_all plain_char (sh i)"
    "create_artifact_service sh fe ty st = (GrpcOk (uri, url), st')" "auth = hs_ip st @ '':'' @ show_nat (hs_http_port st)"
  shows "request_url dec PUT url = Some (auth, Routed Ep_Artifact_Upload [uri]) \<and>
     request_url dec GET (proof_download_address sh st u) = Some (auth, Routed Ep_Artifact_Download [display_uri sh u])"
proof -
  have plain: "CHR ''/'' \<notin> set (display_uri sh u)" "dec (display_uri sh u) = display_uri sh u" "display_uri sh u \<noteq> []" for u
  proof -
    have "list_all plain_char (display_uri sh u)"
      using assms(3) by (cases "au_type u") (simp_all add: display_uri_def plain_char_def)
    then have "CHR ''/'' \<notin> set (display_uri sh u)" "CHR ''%'' \<notin> set (display_uri sh u)"
      using plain_char_special by (auto simp: list_all_iff)
    then show "CHR ''/'' \<notin> set (display_uri sh u)" "dec (display_uri sh u) = display_uri sh u" "display_uri sh u \<noteq> []"
      using assms(2) by (simp_all add: decodes_def display_uri_def)
  qed
  obtain v where v: "uri = display_uri sh v"
    "url = ''http://'' @ hs_ip st @ '':'' @ show_nat (hs_http_port st) @ CHR ''/'' # ''upload/'' @ display_uri sh v"
    using assms(4) by (auto simp: create_artifact_service_def split: option.splits prod.splits)
  have up: "dispatch dec PUT (CHR ''/'' # ''upload/'' @ display_uri sh v) = Routed Ep_Artifact_Upload [display_uri sh v]"
    using split_on_append [of "CHR ''/''" "''upload''" "display_uri sh v"] plain [of v] by (simp add: dispatch_def split_on_no_sep after_upload)
  have down: "dispatch dec GET (CHR ''/'' # display_uri sh u) = Routed Ep_Artifact_Download [display_uri sh u]"
    using artifact_paths [of "display_uri sh u"] plain [of u] by (simp add: dispatch_def split_on_no_sep display_uri_def)
  from request_url_http [OF assms(1), of dec PUT] request_url_http [OF assms(1), of dec GET] up down show ?thesis
    unfolding v proof_download_address_def assms(5) by simp
qed

lemma plain_demo [simp]: "plain_id ''p''" "plain_id ''i''" "plain_id ''j''" "plain_id ''s''"
  by (simp_all add: plain_id_def plain_char_def)

lemma show_one [simp]: "show_nat 1 = ''1''" "show_nat (Suc 0) = ''1''"
  by code_simp+

theorem handed_out_urls_routed_witness:
  "request_url id PUT (handle_program_upload_url demo_cfg ''p'') = Some (''h:1'', Routed Ov_Program_Put [''p''])"
proof -
  have hyps: "CHR ''/'' \<notin> set (sc_ip demo_cfg)" "decodes id" "plain_id (normalize_program_id ''p'')"
    "plain_id (normalize_image_id ''i'')" "plain_id (oe_uuid (demo_openvm_env 0 TimedOut))"
    "plain_id (be_uuid (demo_bonsai_env TimedOut))" "plain_id ''j''"
    by (simp_all add: demo_cfg_def demo_openvm_env_def demo_bonsai_env_def decodes_def)
  show ?thesis
    using handed_out_urls_routed [OF hyps openvm_succeeded_def session_succeeded_def snark_succeeded_def refl]
    by (simp add: demo_cfg_def)
qed

theorem artifact_urls_routed_witness:
  "request_url id PUT ''http://h:1/upload/PROOF_a'' = Some (''h:1'', Routed Ep_Artifact_Upload [''PROOF_a''])"
proof -
  have "fst (create_artifact_service (\<lambda>_. ''a'') (ok_fs 0) 3 demo_hstate) =
      GrpcOk (''PROOF_a'', ''http://h:1/upload/PROOF_a'')"
    by (simp add: create_artifact_service_def create_artifact_call_def client_call_def demo_hstate_def hierophant_state_new_def
        demo_artifacts_def artifact_type_of_def all_artifact_types_def display_uri_def handle_create_artifact_def
        artifact_uri_new_def Let_def)
  then have "create_artifact_service (\<lambda>_. ''a'') (ok_fs 0) 3 demo_hstate =
      (GrpcOk (''PROOF_a'', ''http://h:1/upload/PROOF_a''), snd (create_artifact_service (\<lambda>_. ''a'') (ok_fs 0) 3 demo_hstate))"
    by (simp add: prod_eq_iff)
  from artifact_urls_routed [OF _ _ _ this refl, of id] show ?thesis
    by (simp add: decodes_def plain_char_def demo_hstate_def hierophant_state_new_def)
qed

end
