(* ===== verification/Fibonacci.thy ===== *)
theory Fibonacci
  imports Prelude
begin

text \<open>
  The function the guests of the integration tests prove (\<^verbatim>\<open>fibonacci/src/lib.rs\<close>): 32-bit Fibonacci numbers with
  wrap-around, related to the numbers themselves.
\<close>

text \<open>The loop, \<open>n\<close> rounds from the current pair.\<close>

fun fibonacci_loop :: "nat \<Rightarrow> u32 \<times> u32 \<Rightarrow> u32 \<times> u32" where
  "fibonacci_loop 0 (a, b) = (a, b)"
| "fibonacci_loop (Suc n) (a, b) = fibonacci_loop n (b, a + b)"

definition fibonacci :: "u32 \<Rightarrow> u32 \<times> u32" where
  "fibonacci n = fibonacci_loop (unat n) (0, 1)"

text \<open>The Fibonacci numbers.\<close>

fun fib :: "nat \<Rightarrow> nat" where
  "fib 0 = 0"
| "fib (Suc 0) = 1"
| "fib (Suc (Suc n)) = fib n + fib (Suc n)"

lemma fibonacci_loop_fib:
  "fibonacci_loop n (of_nat (fib k), of_nat (fib (Suc k))) = (of_nat (fib (k + n)), of_nat (fib (Suc (k + n))))"
proof (induction n arbitrary: k)
  case (Suc n)
  have "fibonacci_loop (Suc n) (of_nat (fib k), of_nat (fib (Suc k)))
      = fibonacci_loop n (of_nat (fib (Suc k)), of_nat (fib (Suc (Suc k))))" by simp
  also note Suc.IH [of "Suc k"]
  finally show ?case by simp
qed simp

text \<open>The pair is the \<open>n\<close>-th number and its successor, modulo \<open>2 ^ 32\<close>.\<close>

lemma fibonacci_exact: "fibonacci n = (of_nat (fib (unat n)), of_nat (fib (Suc (unat n))))"
  using fibonacci_loop_fib [of "unat n" 0] by (simp add: fibonacci_def)

end
