(* ===== verification/Worker_Server.thy ===== *)
theory Worker_Server
  imports Worker_Proto
begin

text \<open>
  The \<^verbatim>\<open>openvm-worker\<close> process (\<^verbatim>\<open>openvm-worker/src/main.rs\<close>): its command line, the loop of a connection and the
  handling of one request, together with what a client of \<open>Worker_Proto\<close> then sees on the connection. The prover
  and the verifier are in the environment of a request.
\<close>

section \<open>Start-up\<close>

datatype worker_backend = Worker_Cpu | Worker_Cuda

record worker_args =
  wa_backend :: string
  wa_evm :: bool

datatype start_error = InvalidBackend string | NeedsCudaBuild | NeedsEvmBuild

text \<open>\<open>cuda\<close> and \<open>evm\<close>: the features \<^verbatim>\<open>enable-openvm-cuda\<close> and \<^verbatim>\<open>enable-openvm-evm\<close> of the build.\<close>

definition worker_start :: "bool \<Rightarrow> bool \<Rightarrow> worker_args \<Rightarrow> start_error + (worker_backend \<times> bool)" where
  "worker_start cuda evm args =
     (let b = to_ascii_lowercase (wa_backend args) in
      if b \<noteq> ''cpu'' \<and> b \<noteq> ''cuda'' then Inl (InvalidBackend b)
      else if \<not> cuda \<and> b = ''cuda'' then Inl NeedsCudaBuild
      else if \<not> evm \<and> wa_evm args then Inl NeedsEvmBuild
      else Inr (if b = ''cuda'' then Worker_Cuda else Worker_Cpu, wa_evm args))"

section \<open>One request\<close>

text \<open>
  What the prove thread puts on its channel; the channel closes when the thread ends, also by a panic. \<open>Inl\<close> of a
  result is the error text.
\<close>

datatype worker_event = Ev_Size u64 | Ev_Done "string + bytes"

fun result_response :: "string + bytes \<Rightarrow> worker_response" where
  "result_response (Inr bs) = ProofResponse bs"
| "result_response (Inl e) = ErrResponse e"

text \<open>
  \<open>se_verify\<close> is \<open>None\<close> when verification panics; \<open>se_peer_up\<close> says that the parent still reads the connection, and
  \<open>se_ser\<close> is the encoder.
\<close>

record server_env =
  se_ser :: "worker_response \<Rightarrow> bytes option"
  se_peer_up :: bool
  se_version :: string
  se_verify :: "worker_proof_mode \<Rightarrow> bytes \<Rightarrow> string option \<Rightarrow> bytes \<Rightarrow> (string + unit) option"
  se_prove :: "worker_request \<Rightarrow> worker_event list"

definition send_frame :: "server_env \<Rightarrow> worker_response \<Rightarrow> bytes \<times> (io_error + unit)" where
  "send_frame e resp = (case write_frame (se_ser e) resp of
       Inl err \<Rightarrow> ([], Inl err)
     | Inr bs \<Rightarrow> (if se_peer_up e then (bs, Inr ()) else ([], Inl BrokenPipe)))"

text \<open>The loop over the events; it ends without a frame when the channel closes.\<close>

fun forward_events :: "server_env \<Rightarrow> worker_event list \<Rightarrow> bytes \<times> (io_error + unit)" where
  "forward_events e [] = ([], Inr ())"
| "forward_events e (Ev_Size segments # evs) = (case send_frame e (SizeResponse segments) of
       (bs, Inl err) \<Rightarrow> (bs, Inl err)
     | (bs, Inr _) \<Rightarrow> (let (bs', r) = forward_events e evs in (bs @ bs', r)))"
| "forward_events e (Ev_Done result # evs) = send_frame e (result_response result)"

text \<open>The bytes written and the outcome; \<open>None\<close>: the thread of the connection panicked.\<close>

fun handle_request :: "server_env \<Rightarrow> worker_request \<Rightarrow> bytes \<times> (io_error + unit) option" where
  "handle_request e Version_Request = map_prod id Some (send_frame e (VersionResponse (se_version e)))"
| "handle_request e (Verify mode elf toml proof_bytes) = (case se_verify e mode elf toml proof_bytes of
       None \<Rightarrow> ([], None)
     | Some (Inr _) \<Rightarrow> map_prod id Some (send_frame e VerifyOk)
     | Some (Inl err) \<Rightarrow> map_prod id Some (send_frame e (ErrResponse err)))"
| "handle_request e (Prove i m elf toml input t) =
     map_prod id Some (forward_events e (se_prove e (Prove i m elf toml input t)))"

section \<open>A connection\<close>

datatype conn_end = Conn_Closed | Conn_Waiting

text \<open>
  The loop of a connection on the bytes the parent sent; \<open>eof\<close>: the parent has closed its end. The result is what
  the worker wrote, and whether it closed the connection or waits for another request.
\<close>

function handle_conn ::
    "(bytes \<Rightarrow> worker_request option) \<Rightarrow> server_env \<Rightarrow> bool \<Rightarrow> bytes \<Rightarrow> bytes \<times> conn_end" where
  "handle_conn de e eof s = (case read_frame de s of
       Inl err \<Rightarrow> ([], if err = UnexpectedEof \<and> \<not> eof then Conn_Waiting else Conn_Closed)
     | Inr (req, s') \<Rightarrow> (case handle_request e req of
           (bs, Some (Inr _)) \<Rightarrow> (let (bs', r) = handle_conn de e eof s' in (bs @ bs', r))
         | (bs, _) \<Rightarrow> (bs, Conn_Closed)))"
  by pat_completeness auto
termination
  by (relation "measure (\<lambda>(_, _, _, s). length s)") (auto dest: read_frame_shorter)

declare handle_conn.simps [simp del]

text \<open>
  The call of a client on such a connection. The client keeps its end open while it reads; \<open>None\<close>: it waits for
  bytes that will not come, since neither side closes the connection.
\<close>

definition worker_client_call ::
    "(worker_request \<Rightarrow> bytes option) \<Rightarrow> (bytes \<Rightarrow> worker_request option) \<Rightarrow> (bytes \<Rightarrow> worker_response option) \<Rightarrow>
     server_env \<Rightarrow> worker_request \<Rightarrow> (u64 list \<times> (io_error + worker_response)) option" where
  "worker_client_call rser rde de e req = (case write_frame rser req of
       Inl err \<Rightarrow> Some ([], Inl err)
     | Inr sent \<Rightarrow>
         (let (out, fin) = handle_conn rde e False sent; res = call_loop de out
          in if snd res = Inl UnexpectedEof \<and> fin = Conn_Waiting then None else Some res))"

section \<open>The process\<close>

text \<open>
  The socket of the process: \<open>ln_exists\<close> says that its path exists, \<open>ln_has_parent\<close> that it has a directory; the other
  fields are the outcomes of the calls.
\<close>

record listen_env =
  ln_exists :: bool
  ln_remove_file :: "io_error + unit"
  ln_has_parent :: bool
  ln_create_dir_all :: "io_error + unit"
  ln_bind :: "io_error + unit"

definition bind_socket :: "listen_env \<Rightarrow> io_error + unit" where
  "bind_socket sock = (case (if ln_exists sock then ln_remove_file sock else Inr ()) of
       Inl e \<Rightarrow> Inl e
     | Inr _ \<Rightarrow> (case (if ln_has_parent sock then ln_create_dir_all sock else Inr ()) of
           Inl e \<Rightarrow> Inl e
         | Inr _ \<Rightarrow> ln_bind sock))"

text \<open>The connections accepted, each with its own thread; an accept error is skipped.\<close>

fun accept_loop :: "worker_backend \<Rightarrow> bool \<Rightarrow> (io_error + 'c) list \<Rightarrow> ('c \<times> worker_backend \<times> bool) list" where
  "accept_loop backend evm [] = []"
| "accept_loop backend evm (Inr stream # rest) = (stream, backend, evm) # accept_loop backend evm rest"
| "accept_loop backend evm (Inl e # rest) = accept_loop backend evm rest"

datatype worker_main_error = Start_Error start_error | Io_Error io_error

definition worker_main ::
    "bool \<Rightarrow> bool \<Rightarrow> worker_args \<Rightarrow> listen_env \<Rightarrow> (io_error + 'c) list \<Rightarrow> worker_main_error + ('c \<times> worker_backend \<times> bool) list" where
  "worker_main cuda evm args sock incoming = (case worker_start cuda evm args of
       Inl e \<Rightarrow> Inl (Start_Error e)
     | Inr (backend, evm_enabled) \<Rightarrow> (case bind_socket sock of
           Inl e \<Rightarrow> Inl (Io_Error e)
         | Inr _ \<Rightarrow> Inr (accept_loop backend evm_enabled incoming)))"

text \<open>A process that runs was built for what it was started with, and its threads get just that.\<close>

lemma worker_main_serves:
  assumes "worker_main cuda evm args sock incoming = Inr threads"
  shows "map fst threads = map projr (filter (\<lambda>s. \<not> isl s) incoming) \<and>
     (\<forall>(stream, backend, evm_enabled) \<in> set threads. (backend = Worker_Cuda \<longrightarrow> cuda) \<and> (evm_enabled \<longrightarrow> evm))"
proof -
  obtain backend evm_enabled where st: "worker_start cuda evm args = Inr (backend, evm_enabled)"
    "threads = accept_loop backend evm_enabled incoming"
    using assms by (auto simp: worker_main_def split: sum.splits)
  have ok: "(backend = Worker_Cuda \<longrightarrow> cuda) \<and> (evm_enabled \<longrightarrow> evm)"
    using st(1) by (auto simp: worker_start_def Let_def split: if_splits)
  show ?thesis unfolding st(2) using ok by (induction backend evm_enabled incoming rule: accept_loop.induct) auto
qed

section \<open>Facts\<close>

text \<open>The encoders are inverted by the decoders.\<close>

definition codec_ok ::
    "(worker_request \<Rightarrow> bytes option) \<Rightarrow> (bytes \<Rightarrow> worker_request option) \<Rightarrow> (bytes \<Rightarrow> worker_response option) \<Rightarrow>
     server_env \<Rightarrow> bool" where
  "codec_ok rser rde de e \<longleftrightarrow>
     (\<forall>x bs. rser x = Some bs \<longrightarrow> rde bs = Some x) \<and> (\<forall>x bs. se_ser e x = Some bs \<longrightarrow> de bs = Some x)"

text \<open>The responses to a request, each of which has to fit a frame.\<close>

fun event_response :: "worker_event \<Rightarrow> worker_response" where
  "event_response (Ev_Size n) = SizeResponse n"
| "event_response (Ev_Done r) = result_response r"

fun responses :: "server_env \<Rightarrow> worker_request \<Rightarrow> worker_response list" where
  "responses e Version_Request = [VersionResponse (se_version e)]"
| "responses e (Verify mode elf toml proof_bytes) = (case se_verify e mode elf toml proof_bytes of
       None \<Rightarrow> [] | Some (Inr _) \<Rightarrow> [VerifyOk] | Some (Inl err) \<Rightarrow> [ErrResponse err])"
| "responses e (Prove i m elf toml input t) = map event_response (se_prove e (Prove i m elf toml input t))"

definition fits :: "server_env \<Rightarrow> worker_response \<Rightarrow> bool" where
  "fits e resp \<longleftrightarrow> (case se_ser e resp of None \<Rightarrow> False | Some bs \<Rightarrow> length bs \<le> unat MAX_FRAME_BYTES)"

text \<open>The sizes reported before the result, and the result; \<open>None\<close>: the prove thread panicked.\<close>

fun prove_outcome :: "worker_event list \<Rightarrow> u64 list \<times> (string + bytes) option" where
  "prove_outcome [] = ([], None)"
| "prove_outcome (Ev_Size n # evs) = (let (ns, r) = prove_outcome evs in (n # ns, r))"
| "prove_outcome (Ev_Done r # evs) = ([], Some r)"

lemma send_frame_ok:
  assumes "codec_ok rser rde de e" "se_peer_up e" "fits e resp"
  shows "\<exists>fr. send_frame e resp = (fr, Inr ()) \<and> (\<forall>rest. read_frame de (fr @ rest) = Inr (resp, rest))"
proof -
  obtain bs where bs: "se_ser e resp = Some bs" "length bs \<le> unat MAX_FRAME_BYTES"
    using assms(3) by (auto simp: fits_def split: option.splits)
  obtain fr where fr: "write_frame (se_ser e) resp = Inr fr"
    using write_frame_refused [of "se_ser e" resp] bs by (cases "write_frame (se_ser e) resp") auto
  moreover have "read_frame de (fr @ rest) = Inr (resp, rest)" for rest
    by (rule frame_roundtrip_aux [OF _ fr]) (use assms(1) in \<open>simp add: codec_ok_def\<close>)
  ultimately show ?thesis using assms(2) by (simp add: send_frame_def)
qed

lemma call_loop_frame:
  assumes "\<forall>rest. read_frame de (fr @ rest) = Inr (resp, rest)"
  shows "call_loop de (fr @ rest) = (case resp of
      SizeResponse n \<Rightarrow> (let (ns, r) = call_loop de rest in (n # ns, r)) | _ \<Rightarrow> ([], Inr resp))"
  using assms by (subst call_loop.simps) (simp split: worker_response.splits)

lemma read_frame_Nil: "read_frame de [] = Inl UnexpectedEof"
  by (simp add: read_frame_def read_exact_def)

lemma forward_events_read:
  assumes "codec_ok rser rde de e" "se_peer_up e" "list_all (fits e) (map event_response evs)"
  shows "\<exists>bs. forward_events e evs = (bs, Inr ()) \<and>
     call_loop de bs = (fst (prove_outcome evs), case snd (prove_outcome evs) of
         None \<Rightarrow> Inl UnexpectedEof | Some r \<Rightarrow> Inr (result_response r))"
  using assms(3)
proof (induction evs rule: prove_outcome.induct)
  case 1
  then show ?case by (simp add: call_loop.simps read_frame_Nil)
next
  case (2 n evs)
  obtain fr where fr: "send_frame e (SizeResponse n) = (fr, Inr ())"
    "\<forall>rest. read_frame de (fr @ rest) = Inr (SizeResponse n, rest)"
    using send_frame_ok [OF assms(1,2), of "SizeResponse n"] 2(2) by auto
  then show ?case using 2 call_loop_frame [OF fr(2)] by (auto split: prod.splits)
next
  case (3 r evs)
  obtain fr where fr: "send_frame e (result_response r) = (fr, Inr ())"
    "\<forall>rest. read_frame de (fr @ rest) = Inr (result_response r, rest)"
    using send_frame_ok [OF assms(1,2), of "result_response r"] 3 by auto
  then show ?case using call_loop_frame [OF fr(2), of "[]"] by (cases r) simp_all
qed

lemma handle_conn_one:
  assumes "codec_ok rser rde de e" "write_frame rser req = Inr sent"
  shows "handle_conn rde e False sent = (case handle_request e req of
      (bs, Some (Inr _)) \<Rightarrow> (bs, Conn_Waiting) | (bs, _) \<Rightarrow> (bs, Conn_Closed))"
proof -
  have "read_frame rde (sent @ []) = Inr (req, [])"
    by (rule frame_roundtrip_aux [OF _ assms(2)]) (use assms(1) in \<open>simp add: codec_ok_def\<close>)
  moreover have "handle_conn rde e False [] = ([], Conn_Waiting)"
    by (simp add: handle_conn.simps read_frame_Nil)
  ultimately show ?thesis
    by (subst handle_conn.simps) (auto split: prod.splits option.splits sum.splits)
qed

lemma send_terminal:
  assumes "codec_ok rser rde de e" "se_peer_up e" "is_terminal resp" "fits e resp"
  shows "\<exists>fr. send_frame e resp = (fr, Inr ()) \<and> call_loop de fr = ([], Inr resp)"
proof -
  obtain fr where fr: "send_frame e resp = (fr, Inr ())" "\<forall>rest. read_frame de (fr @ rest) = Inr (resp, rest)"
    using send_frame_ok [OF assms(1,2,4)] by blast
  then show ?thesis using call_loop_frame [OF fr(2), of "[]"] assms(3) by (cases resp) simp_all
qed

lemma verify_call:
  assumes "codec_ok rser rde de e" "se_peer_up e" "write_frame rser (Verify mode elf toml p) = Inr sent"
    "se_verify e mode elf toml p = Some v" "list_all (fits e) (responses e (Verify mode elf toml p))"
  shows "worker_client_call rser rde de e (Verify mode elf toml p) =
     Some ([], Inr (case v of Inr _ \<Rightarrow> VerifyOk | Inl err \<Rightarrow> ErrResponse err))"
  using assms(3-5) handle_conn_one [OF assms(1,3)] send_terminal [OF assms(1,2), of VerifyOk]
    send_terminal [OF assms(1,2), of "ErrResponse (case v of Inl err \<Rightarrow> err)"]
  by (cases v) (auto simp: worker_client_call_def)

section \<open>Properties\<close>

text \<open>C32. Client and worker process compose: a call returns the segment counts in order and the answer the prover or
  verifier gave; a panic of the verifier closes the connection, which the client sees as a transport error. A panic
  of the prove thread, however, leaves the connection open with no terminal frame: the call never returns.\<close>

theorem worker_call_outcome:
  assumes "codec_ok rser rde de e" "se_peer_up e" "write_frame rser req = Inr sent" "list_all (fits e) (responses e req)"
  shows "worker_client_call rser rde de e req = (case req of
       Version_Request \<Rightarrow> Some ([], Inr (VersionResponse (se_version e)))
     | Verify mode elf toml proof_bytes \<Rightarrow> Some ([], case se_verify e mode elf toml proof_bytes of
           None \<Rightarrow> Inl UnexpectedEof
         | Some (Inr _) \<Rightarrow> Inr VerifyOk
         | Some (Inl err) \<Rightarrow> Inr (ErrResponse err))
     | Prove i m elf toml input t \<Rightarrow> (case prove_outcome (se_prove e req) of
           (sizes, Some r) \<Rightarrow> Some (sizes, Inr (result_response r))
         | (sizes, None) \<Rightarrow> None))"
proof -
  note conn = handle_conn_one [OF assms(1,3)]
  note one = send_terminal [OF assms(1,2)]
  have closed: "call_loop de [] = ([], Inl UnexpectedEof)" by (simp add: call_loop.simps read_frame_Nil)
  show ?thesis
  proof (cases req)
    case Version_Request
    with one [of "VersionResponse (se_version e)"] conn assms(3,4) show ?thesis by (auto simp: worker_client_call_def)
  next
    case (Verify mode elf toml proof_bytes)
    show ?thesis
    proof (cases "se_verify e mode elf toml proof_bytes")
      case None
      with Verify conn assms(3) closed show ?thesis by (simp add: worker_client_call_def)
    next
      case (Some v)
      with Verify verify_call [OF assms(1,2)] assms(3,4) show ?thesis by (cases v) simp_all
    qed
  next
    case (Prove i m elf toml input t)
    obtain bs where "forward_events e (se_prove e req) = (bs, Inr ())"
      "call_loop de bs = (fst (prove_outcome (se_prove e req)), case snd (prove_outcome (se_prove e req)) of
         None \<Rightarrow> Inl UnexpectedEof | Some r \<Rightarrow> Inr (result_response r))"
      using forward_events_read [OF assms(1,2), of "se_prove e req"] assms(4) Prove by auto
    with Prove conn assms(3) show ?thesis
      by (cases "prove_outcome (se_prove e req)") (auto simp: worker_client_call_def split: option.splits)
  qed
qed

text \<open>A worker whose prover panics after reporting a size, with toy encoders.\<close>

definition demo_server :: server_env where
  "demo_server =
     \<lparr>se_ser = (\<lambda>r. if r = SizeResponse 5 then Some [4] else None), se_peer_up = True, se_version = [],
      se_verify = (\<lambda>_ _ _ _. None), se_prove = (\<lambda>_. [Ev_Size 5])\<rparr>"

definition demo_prove_request :: worker_request where
  "demo_prove_request = Prove [] W_App [] None [] True"

theorem worker_call_outcome_witness:
  "worker_client_call (\<lambda>r. if r = demo_prove_request then Some [9] else None) (\<lambda>bs. if bs = [9] then Some demo_prove_request else None)
     (\<lambda>bs. if bs = [4] then Some (SizeResponse 5) else None) demo_server demo_prove_request = None"
proof -
  have "codec_ok (\<lambda>r. if r = demo_prove_request then Some [9] else None) (\<lambda>bs. if bs = [9] then Some demo_prove_request else None)
      (\<lambda>bs. if bs = [4] then Some (SizeResponse 5) else None) demo_server"
    by (auto simp: codec_ok_def demo_server_def split: if_splits)
  moreover have "se_peer_up demo_server" by (simp add: demo_server_def)
  moreover have "write_frame (\<lambda>r. if r = demo_prove_request then Some [9] else None) demo_prove_request = Inr [1, 0, 0, 0, 9]"
    by (simp add: write_frame_def to_le_bytes_def word_less_nat_alt)
  moreover have "list_all (fits demo_server) (responses demo_server demo_prove_request)"
    by (simp add: demo_server_def demo_prove_request_def fits_def)
  ultimately have "worker_client_call (\<lambda>r. if r = demo_prove_request then Some [9] else None)
      (\<lambda>bs. if bs = [9] then Some demo_prove_request else None) (\<lambda>bs. if bs = [4] then Some (SizeResponse 5) else None)
      demo_server demo_prove_request = (case demo_prove_request of
       Version_Request \<Rightarrow> Some ([], Inr (VersionResponse (se_version demo_server)))
     | Verify mode elf toml proof_bytes \<Rightarrow> Some ([], case se_verify demo_server mode elf toml proof_bytes of
           None \<Rightarrow> Inl UnexpectedEof | Some (Inr _) \<Rightarrow> Inr VerifyOk | Some (Inl err) \<Rightarrow> Inr (ErrResponse err))
     | Prove i m elf toml input t \<Rightarrow> (case prove_outcome (se_prove demo_server demo_prove_request) of
           (sizes, Some r) \<Rightarrow> Some (sizes, Inr (result_response r)) | (sizes, None) \<Rightarrow> None))"
    by (rule worker_call_outcome)
  then show ?thesis by (simp add: demo_prove_request_def demo_server_def)
qed

end
