(* ===== verification/Worker_Keys.thy ===== *)
theory Worker_Keys
  imports Worker_Server
begin

text \<open>
  Proving and verification in the \<^verbatim>\<open>openvm-worker\<close> process (\<^verbatim>\<open>prove.rs\<close>, \<^verbatim>\<open>verify.rs\<close>) with their caches of proving keys.
  The OpenVM SDK is a record of operations; its configurations, keys, provers and proofs are values of one opaque
  type \<open>'x\<close>. Requests are served one after another here; a cache entry is written in one critical section. Panics
  of the SDK are not part of this theory (\<open>Worker_Server\<close> has them).
\<close>

section \<open>The SDK\<close>

record 'x agg_proving_key =
  ag_prefix :: 'x
  ag_internal_recursive :: 'x

text \<open>What was set on an SDK builder; \<open>bd_agg_params\<close>: the default aggregation parameters.\<close>

record 'x sdk_builder =
  bd_app_config :: "'x option"
  bd_agg_params :: bool
  bd_app_pk :: "'x option"
  bd_agg_pk :: "'x agg_proving_key option"
  bd_root_pk :: "'x option"
  bd_halo2_pk :: "'x option"

definition new_builder :: "'x sdk_builder" where
  "new_builder = \<lparr>bd_app_config = None, bd_agg_params = False, bd_app_pk = None, bd_agg_pk = None,
     bd_root_pk = None, bd_halo2_pk = None\<rparr>"

text \<open>The operations of the SDK over one proving engine.\<close>

record 'x sdk_ops =
  sdk_new :: "'x \<Rightarrow> string + 'x"
  sdk_build :: "'x sdk_builder \<Rightarrow> string + 'x"
  sdk_app_keygen :: "'x \<Rightarrow> 'x \<times> 'x"
  sdk_agg_prefix_pk :: "'x \<Rightarrow> 'x"
  sdk_agg_pk :: "'x \<Rightarrow> 'x agg_proving_key"
  sdk_agg_vk :: "'x \<Rightarrow> 'x"
  sdk_execute_metered :: "'x \<Rightarrow> bytes \<Rightarrow> bytes list \<Rightarrow> string + nat"
  sdk_app_prover :: "'x \<Rightarrow> bytes \<Rightarrow> string + 'x"
  sdk_app_prove :: "'x \<Rightarrow> string \<Rightarrow> bytes list \<Rightarrow> string + 'x"
  sdk_app_exe_commit :: "'x \<Rightarrow> 'x"
  sdk_prove :: "'x \<Rightarrow> bytes \<Rightarrow> bytes list \<Rightarrow> string + 'x"
  sdk_prove_evm :: "'x \<Rightarrow> bytes \<Rightarrow> bytes list \<Rightarrow> string + 'x"
  sdk_prover :: "'x \<Rightarrow> bytes \<Rightarrow> string + 'x"
  sdk_generate_baseline :: "'x \<Rightarrow> 'x"
  sdk_verify_app :: "'x \<Rightarrow> 'x \<Rightarrow> 'x \<Rightarrow> string + unit"
  sdk_verify_proof :: "'x \<Rightarrow> 'x \<Rightarrow> 'x \<Rightarrow> string + unit"

text \<open>A JSON value as far as the EVM check looks into it.\<close>

datatype json_value = J_Str string | J_Obj "(string \<times> json_value) list" | J_Other

fun json_get :: "json_value \<Rightarrow> string \<Rightarrow> json_value option" where
  "json_get (J_Obj kvs) k = map_of kvs k"
| "json_get _ k = None"

fun as_str :: "json_value \<Rightarrow> string option" where
  "as_str (J_Str s) = Some s"
| "as_str _ = None"

text \<open>The build (its two features), the two engines, the parsers and encoders.\<close>

record 'x worker_env =
  we_cuda :: bool
  we_evm :: bool
  we_cpu_sdk :: "'x sdk_ops"
  we_gpu_sdk :: "'x sdk_ops"
  we_toml :: "string \<Rightarrow> string + 'x"
  we_riscv32 :: 'x
  we_sha256 :: "string \<Rightarrow> bytes"
  we_bitcode_ser :: "'x \<Rightarrow> string + bytes"
  we_bitcode_de :: "bytes \<Rightarrow> string + 'x"
  we_versioned :: "'x \<Rightarrow> string + 'x"
  we_json_ser :: "'x \<Rightarrow> string + bytes"
  we_stark_json :: "bytes \<Rightarrow> string + 'x"
  we_stark_try_from :: "'x \<Rightarrow> string + 'x"
  we_json_value :: "bytes \<Rightarrow> string + json_value"
  we_commit_text :: "'x \<Rightarrow> string"

text \<open>Key files below \<^verbatim>\<open>~/.openvm\<close>, as found when a request looks at them.\<close>

datatype 'x key_file = No_Home | Missing | Unreadable string | Readable 'x

record 'x key_files =
  kf_internal_recursive :: "'x key_file"
  kf_halo2 :: "'x key_file"
  kf_root :: "'x key_file"

fun try_load :: "'x key_file \<Rightarrow> 'x option" where
  "try_load No_Home = None"
| "try_load Missing = None"
| "try_load (Unreadable e) = None"
| "try_load (Readable pk) = Some pk"

definition try_load_internal_recursive_pk :: "'x key_files \<Rightarrow> 'x option" where
  [simp]: "try_load_internal_recursive_pk files = try_load (kf_internal_recursive files)"

definition try_load_halo2_pk :: "'x key_files \<Rightarrow> 'x option" where
  [simp]: "try_load_halo2_pk files = try_load (kf_halo2 files)"

definition try_load_root_pk :: "'x key_files \<Rightarrow> 'x option" where
  [simp]: "try_load_root_pk files = try_load (kf_root files)"

section \<open>Configurations and caches\<close>

definition build_app_config :: "'x worker_env \<Rightarrow> string option \<Rightarrow> string + 'x" where
  "build_app_config env toml = (case toml of
       Some t \<Rightarrow> map_sum (\<lambda>e. ''parse OpenVM app config TOML: '' @ e) id (we_toml env t)
     | None \<Rightarrow> Inr (we_riscv32 env))"

definition hex_digit :: "nat \<Rightarrow> char" where
  "hex_digit n = ''0123456789abcdef'' ! n"

definition hex_byte :: "u8 \<Rightarrow> string" where
  "hex_byte b = [hex_digit (unat b div 16), hex_digit (unat b mod 16)]"

definition config_cache_key :: "'x worker_env \<Rightarrow> string option \<Rightarrow> string" where
  "config_cache_key env toml = (case toml of
       Some t \<Rightarrow> concat (map hex_byte (we_sha256 env t))
     | None \<Rightarrow> ''default-riscv32'')"

record 'x key_caches =
  app_pks :: "string \<rightharpoonup> 'x"
  agg_pks :: "string \<rightharpoonup> 'x agg_proving_key"

definition cold :: "'x key_caches" where
  "cold = \<lparr>app_pks = Map.empty, agg_pks = Map.empty\<rparr>"

definition insert_app :: "string \<Rightarrow> 'x \<Rightarrow> 'x key_caches \<Rightarrow> 'x key_caches" where
  "insert_app k pk cs = cs\<lparr>app_pks := (app_pks cs)(k \<mapsto> pk)\<rparr>"

definition insert_agg :: "string \<Rightarrow> 'x agg_proving_key \<Rightarrow> 'x key_caches \<Rightarrow> 'x key_caches" where
  "insert_agg k pk cs = cs\<lparr>agg_pks := (agg_pks cs)(k \<mapsto> pk)\<rparr>"

section \<open>Proving\<close>

datatype 'x any_sdk = Cpu_Sdk 'x | Gpu_Sdk 'x

fun with_sdk :: "'x worker_env \<Rightarrow> 'x any_sdk \<Rightarrow> ('x sdk_ops \<Rightarrow> 'x \<Rightarrow> 'r) \<Rightarrow> 'r" where
  "with_sdk env (Cpu_Sdk s) body = body (we_cpu_sdk env) s"
| "with_sdk env (Gpu_Sdk s) body = body (we_gpu_sdk env) s"

definition no_cuda_err :: string where
  "no_cuda_err = ''This openvm-worker binary was built without `--features enable-openvm-cuda` and cannot serve an OpenVM CUDA backend.''"

text \<open>The backend dispatch of the three constructors: \<open>mk\<close> is what they do with the SDK of the engine.\<close>

definition on_backend ::
    "'x worker_env \<Rightarrow> worker_backend \<Rightarrow> string \<Rightarrow> ('x sdk_ops \<Rightarrow> string + 'x) \<Rightarrow> string + 'x any_sdk" where
  "on_backend env b what mk = (case b of
       Worker_Cpu \<Rightarrow> map_sum (\<lambda>e. ''construct OpenVM CPU SDK'' @ what @ '': '' @ e) Cpu_Sdk (mk (we_cpu_sdk env))
     | Worker_Cuda \<Rightarrow>
         (if we_cuda env
          then map_sum (\<lambda>e. ''construct OpenVM GPU SDK'' @ what @ '': '' @ e) Gpu_Sdk (mk (we_gpu_sdk env))
          else Inl no_cuda_err))"

definition any_new :: "'x worker_env \<Rightarrow> worker_backend \<Rightarrow> 'x \<Rightarrow> string + 'x any_sdk" where
  "any_new env b cfg = on_backend env b [] (\<lambda>ops. sdk_new ops cfg)"

definition with_keys ::
    "'x worker_env \<Rightarrow> worker_backend \<Rightarrow> 'x \<Rightarrow> 'x agg_proving_key \<Rightarrow> string + 'x any_sdk" where
  "with_keys env b app_pk agg_pk = on_backend env b '' with aggregation key''
     (\<lambda>ops. sdk_build ops (new_builder\<lparr>bd_app_pk := Some app_pk, bd_agg_pk := Some agg_pk\<rparr>))"

definition for_evm ::
    "'x worker_env \<Rightarrow> worker_backend \<Rightarrow> ('x \<times> 'x agg_proving_key) option \<Rightarrow> 'x \<Rightarrow> ('x \<times> 'x) option \<Rightarrow>
     string + 'x any_sdk" where
  "for_evm env b seeded cfg halo2_root =
     (let builder = (case seeded of
            Some (app_pk, agg_pk) \<Rightarrow> new_builder\<lparr>bd_app_pk := Some app_pk, bd_agg_pk := Some agg_pk\<rparr>
          | None \<Rightarrow> new_builder\<lparr>bd_app_config := Some cfg, bd_agg_params := True\<rparr>);
          builder = (case halo2_root of
            Some (halo2_pk, root_pk) \<Rightarrow> builder\<lparr>bd_root_pk := Some root_pk, bd_halo2_pk := Some halo2_pk\<rparr>
          | None \<Rightarrow> builder)
      in on_backend env b '' for EVM proving'' (\<lambda>ops. sdk_build ops builder))"

definition app_keygen_pk :: "'x worker_env \<Rightarrow> 'x any_sdk \<Rightarrow> 'x" where
  "app_keygen_pk env sdk = with_sdk env sdk (\<lambda>ops s. fst (sdk_app_keygen ops s))"

definition any_agg_pk :: "'x worker_env \<Rightarrow> 'x any_sdk \<Rightarrow> 'x agg_proving_key" where
  "any_agg_pk env sdk = with_sdk env sdk sdk_agg_pk"

definition assemble_agg_pk :: "'x worker_env \<Rightarrow> 'x any_sdk \<Rightarrow> 'x \<Rightarrow> 'x agg_proving_key" where
  "assemble_agg_pk env sdk ir =
     with_sdk env sdk (\<lambda>ops s. \<lparr>ag_prefix = sdk_agg_prefix_pk ops s, ag_internal_recursive = ir\<rparr>)"

definition segment_count :: "'x worker_env \<Rightarrow> 'x any_sdk \<Rightarrow> bytes \<Rightarrow> bytes list \<Rightarrow> string + u64" where
  "segment_count env sdk elf stdin = with_sdk env sdk (\<lambda>ops s.
     map_sum (\<lambda>e. ''OpenVM execute_metered (for total): '' @ e) of_nat (sdk_execute_metered ops s elf stdin))"

definition prove_app :: "'x worker_env \<Rightarrow> 'x any_sdk \<Rightarrow> bytes \<Rightarrow> string \<Rightarrow> bytes list \<Rightarrow> string + bytes" where
  "prove_app env sdk elf program_name stdin = with_sdk env sdk (\<lambda>ops s. case sdk_app_prover ops s elf of
       Inl e \<Rightarrow> Inl (''construct OpenVM app prover: '' @ e)
     | Inr prover \<Rightarrow> (case sdk_app_prove ops prover program_name stdin of
           Inl e \<Rightarrow> Inl (''OpenVM app prover error: '' @ e)
         | Inr proof \<Rightarrow> map_sum (\<lambda>e. ''encode OpenVM app proof: '' @ e) id (we_bitcode_ser env proof)))"

definition prove_stark :: "'x worker_env \<Rightarrow> 'x any_sdk \<Rightarrow> bytes \<Rightarrow> bytes list \<Rightarrow> string + bytes" where
  "prove_stark env sdk elf stdin = with_sdk env sdk (\<lambda>ops s. case sdk_prove ops s elf stdin of
       Inl e \<Rightarrow> Inl (''OpenVM stark prover error: '' @ e)
     | Inr proof \<Rightarrow> (case we_versioned env proof of
           Inl e \<Rightarrow> Inl (''encode OpenVM stark proof: '' @ e)
         | Inr versioned \<Rightarrow>
             map_sum (\<lambda>e. ''serialize OpenVM stark proof JSON: '' @ e) id (we_json_ser env versioned)))"

definition prove_evm_bytes :: "'x worker_env \<Rightarrow> 'x any_sdk \<Rightarrow> bytes \<Rightarrow> bytes list \<Rightarrow> string + bytes" where
  "prove_evm_bytes env sdk elf stdin = with_sdk env sdk (\<lambda>ops s. case sdk_prove_evm ops s elf stdin of
       Inl e \<Rightarrow> Inl (''OpenVM EVM prover error: '' @ e)
     | Inr proof \<Rightarrow> map_sum (\<lambda>e. ''serialize OpenVM EVM proof: '' @ e) id (we_json_ser env proof))"

text \<open>The proving side's caches. Each function returns the caches it leaves.\<close>

definition ensure_app_pk ::
    "'x worker_env \<Rightarrow> worker_backend \<Rightarrow> 'x \<Rightarrow> string \<Rightarrow> 'x key_caches \<Rightarrow> (string + 'x) \<times> 'x key_caches" where
  "ensure_app_pk env b cfg key cs = (case app_pks cs key of
       Some app_pk \<Rightarrow> (Inr app_pk, cs)
     | None \<Rightarrow> (case any_new env b cfg of
           Inl e \<Rightarrow> (Inl (''construct OpenVM SDK for app keygen: '' @ e), cs)
         | Inr sdk \<Rightarrow> (let app_pk = app_keygen_pk env sdk in (Inr app_pk, insert_app key app_pk cs))))"

definition ensure_agg_pk ::
    "'x worker_env \<Rightarrow> worker_backend \<Rightarrow> 'x key_files \<Rightarrow> 'x \<Rightarrow> string \<Rightarrow> 'x key_caches \<Rightarrow>
     (string + 'x agg_proving_key option) \<times> 'x key_caches" where
  "ensure_agg_pk env b files cfg key cs = (case agg_pks cs key of
       Some agg_pk \<Rightarrow> (Inr (Some agg_pk), cs)
     | None \<Rightarrow> (case try_load_internal_recursive_pk files of
           None \<Rightarrow> (Inr None, cs)
         | Some internal_recursive \<Rightarrow> (case any_new env b cfg of
               Inl e \<Rightarrow> (Inl (''construct OpenVM SDK for prefix keygen: '' @ e), cs)
             | Inr sdk \<Rightarrow> (let agg_pk = assemble_agg_pk env sdk internal_recursive
                          in (Inr (Some agg_pk), insert_agg key agg_pk cs)))))"

definition build_sdk_with_agg ::
    "'x worker_env \<Rightarrow> worker_backend \<Rightarrow> 'x key_files \<Rightarrow> 'x \<Rightarrow> string \<Rightarrow> 'x key_caches \<Rightarrow>
     (string + 'x any_sdk) \<times> 'x key_caches" where
  "build_sdk_with_agg env b files cfg key cs = (case ensure_agg_pk env b files cfg key cs of
       (Inl e, cs1) \<Rightarrow> (Inl e, cs1)
     | (Inr (Some agg_pk), cs1) \<Rightarrow> (case ensure_app_pk env b cfg key cs1 of
           (Inl e, cs2) \<Rightarrow> (Inl e, cs2)
         | (Inr app_pk, cs2) \<Rightarrow> (with_keys env b app_pk agg_pk, cs2))
     | (Inr None, cs1) \<Rightarrow> (any_new env b cfg, cs1))"

definition store_agg_pk :: "'x worker_env \<Rightarrow> 'x any_sdk \<Rightarrow> string \<Rightarrow> 'x key_caches \<Rightarrow> 'x key_caches" where
  "store_agg_pk env sdk key cs = (if agg_pks cs key = None then insert_agg key (any_agg_pk env sdk) cs else cs)"

definition no_evm_build_err :: string where
  "no_evm_build_err = ''This openvm-worker binary was built without `--features enable-openvm-evm` and cannot produce OpenVM EVM proofs.''"

definition no_evm_err :: string where
  "no_evm_err = ''EVM proofs are not enabled on this worker. Start openvm-worker with --evm (requires the KZG params + halo2 key installed by `cargo openvm setup --evm` and a binary built with `--features enable-openvm-evm`).''"

definition seed_keys ::
    "'x worker_env \<Rightarrow> worker_backend \<Rightarrow> 'x key_files \<Rightarrow> 'x \<Rightarrow> string \<Rightarrow> 'x key_caches \<Rightarrow>
     (string + ('x \<times> 'x agg_proving_key) option) \<times> 'x key_caches" where
  "seed_keys env b files cfg key cs = (case ensure_agg_pk env b files cfg key cs of
       (Inl e, cs1) \<Rightarrow> (Inl e, cs1)
     | (Inr None, cs1) \<Rightarrow> (Inr None, cs1)
     | (Inr (Some agg_pk), cs1) \<Rightarrow> (case ensure_app_pk env b cfg key cs1 of
           (Inl e, cs2) \<Rightarrow> (Inl e, cs2)
         | (Inr app_pk, cs2) \<Rightarrow> (Inr (Some (app_pk, agg_pk)), cs2)))"

definition halo2_root :: "'x key_files \<Rightarrow> ('x \<times> 'x) option" where
  "halo2_root files = (case (try_load_halo2_pk files, try_load_root_pk files) of
       (Some halo2_pk, Some root_pk) \<Rightarrow> Some (halo2_pk, root_pk)
     | (Some _, None) \<Rightarrow> None
     | (None, _) \<Rightarrow> None)"

definition prove_evm ::
    "'x worker_env \<Rightarrow> worker_backend \<Rightarrow> 'x key_files \<Rightarrow> 'x \<Rightarrow> string \<Rightarrow> bytes \<Rightarrow> bytes list \<Rightarrow> 'x key_caches \<Rightarrow>
     (string + bytes) \<times> 'x key_caches" where
  "prove_evm env b files cfg key elf stdin cs =
     (if \<not> we_evm env then (Inl no_evm_build_err, cs)
      else (case seed_keys env b files cfg key cs of
          (Inl e, cs1) \<Rightarrow> (Inl e, cs1)
        | (Inr seeded, cs1) \<Rightarrow> (case for_evm env b seeded cfg (halo2_root files) of
              Inl e \<Rightarrow> (Inl e, cs1)
            | Inr sdk \<Rightarrow> (case prove_evm_bytes env sdk elf stdin of
                  Inl e \<Rightarrow> (Inl e, cs1)
                | Inr proof_bytes \<Rightarrow> (Inr proof_bytes, store_agg_pk env sdk key cs1)))))"

definition prove_mode ::
    "'x worker_env \<Rightarrow> worker_backend \<Rightarrow> bool \<Rightarrow> 'x key_files \<Rightarrow> 'x \<Rightarrow> string \<Rightarrow> string \<Rightarrow> worker_proof_mode \<Rightarrow> bytes \<Rightarrow>
     bytes list \<Rightarrow> 'x key_caches \<Rightarrow> (string + bytes) \<times> 'x key_caches" where
  "prove_mode env b evm_enabled files cfg key request_id mode elf stdin cs = (case mode of
       W_App \<Rightarrow> (case any_new env b cfg of
           Inl e \<Rightarrow> (Inl e, cs)
         | Inr sdk \<Rightarrow> (prove_app env sdk elf (''hierophant-'' @ request_id) stdin, cs))
     | W_Stark \<Rightarrow> (case build_sdk_with_agg env b files cfg key cs of
           (Inl e, cs1) \<Rightarrow> (Inl e, cs1)
         | (Inr sdk, cs1) \<Rightarrow> (case prove_stark env sdk elf stdin of
               Inl e \<Rightarrow> (Inl e, cs1)
             | Inr proof_bytes \<Rightarrow> (Inr proof_bytes, store_agg_pk env sdk key cs1)))
     | W_Evm \<Rightarrow>
         (if \<not> evm_enabled then (Inl no_evm_err, cs) else prove_evm env b files cfg key elf stdin cs))"

text \<open>The events of the prove thread, and the caches.\<close>

definition prove_blocking ::
    "'x worker_env \<Rightarrow> worker_backend \<Rightarrow> bool \<Rightarrow> 'x key_files \<Rightarrow> string \<Rightarrow> worker_proof_mode \<Rightarrow> bytes \<Rightarrow> string option \<Rightarrow>
     bytes list \<Rightarrow> bool \<Rightarrow> 'x key_caches \<Rightarrow> worker_event list \<times> 'x key_caches" where
  "prove_blocking env b evm_enabled files request_id mode elf toml input with_total cs =
     (case build_app_config env toml of
        Inl e \<Rightarrow> ([Ev_Done (Inl e)], cs)
      | Inr cfg \<Rightarrow>
          (let key = config_cache_key env toml;
               size = (if \<not> with_total then Inr [] else (case any_new env b cfg of
                   Inl e \<Rightarrow> Inl e
                 | Inr sdk \<Rightarrow> Inr (case segment_count env sdk elf input of Inr n \<Rightarrow> [Ev_Size n] | Inl e \<Rightarrow> [])))
           in case size of
                Inl e \<Rightarrow> ([Ev_Done (Inl e)], cs)
              | Inr evs \<Rightarrow>
                  (let (r, cs') = prove_mode env b evm_enabled files cfg key request_id mode elf input cs
                   in (evs @ [Ev_Done r], cs'))))"

section \<open>Verification\<close>

text \<open>\<^verbatim>\<open>openvm_sdk::Sdk\<close>: the GPU variant in a build with the cuda feature.\<close>

definition sdk_alias :: "'x worker_env \<Rightarrow> 'x sdk_ops" where
  "sdk_alias env = (if we_cuda env then we_gpu_sdk env else we_cpu_sdk env)"

definition verify_build_sdk :: "'x worker_env \<Rightarrow> 'x \<Rightarrow> string \<Rightarrow> 'x key_caches \<Rightarrow> string + 'x" where
  "verify_build_sdk env cfg key cs = (case app_pks cs key of
       Some app_pk \<Rightarrow> map_sum (\<lambda>e. ''construct OpenVM SDK from cached app key: '' @ e) id
           (sdk_build (sdk_alias env) (new_builder\<lparr>bd_app_pk := Some app_pk, bd_agg_params := True\<rparr>))
     | None \<Rightarrow> map_sum (\<lambda>e. ''construct OpenVM SDK: '' @ e) id (sdk_new (sdk_alias env) cfg))"

definition verify_store_app_pk :: "'x worker_env \<Rightarrow> 'x \<Rightarrow> string \<Rightarrow> 'x key_caches \<Rightarrow> 'x key_caches" where
  "verify_store_app_pk env sdk key cs =
     (if app_pks cs key = None then insert_app key (fst (sdk_app_keygen (sdk_alias env) sdk)) cs else cs)"

definition verify_store_agg_pk :: "'x worker_env \<Rightarrow> 'x \<Rightarrow> string \<Rightarrow> 'x key_caches \<Rightarrow> 'x key_caches" where
  "verify_store_agg_pk env sdk key cs =
     (if agg_pks cs key = None then insert_agg key (sdk_agg_pk (sdk_alias env) sdk) cs else cs)"

definition verify_ensure_agg_pk ::
    "'x worker_env \<Rightarrow> 'x key_files \<Rightarrow> 'x \<Rightarrow> string \<Rightarrow> 'x key_caches \<Rightarrow>
     (string + 'x agg_proving_key option) \<times> 'x key_caches" where
  "verify_ensure_agg_pk env files cfg key cs = (case agg_pks cs key of
       Some agg_pk \<Rightarrow> (Inr (Some agg_pk), cs)
     | None \<Rightarrow> (case try_load_internal_recursive_pk files of
           None \<Rightarrow> (Inr None, cs)
         | Some internal_recursive \<Rightarrow> (case verify_build_sdk env cfg key cs of
               Inl e \<Rightarrow> (Inl e, cs)
             | Inr sdk \<Rightarrow>
                 (let agg_pk = \<lparr>ag_prefix = sdk_agg_prefix_pk (sdk_alias env) sdk,
                                ag_internal_recursive = internal_recursive\<rparr>
                  in (Inr (Some agg_pk), insert_agg key agg_pk (verify_store_app_pk env sdk key cs))))))"

definition verify_app_pk ::
    "'x worker_env \<Rightarrow> 'x \<Rightarrow> string \<Rightarrow> 'x key_caches \<Rightarrow> (string + 'x) \<times> 'x key_caches" where
  "verify_app_pk env cfg key cs = (case app_pks cs key of
       Some app_pk \<Rightarrow> (Inr app_pk, cs)
     | None \<Rightarrow> (case verify_build_sdk env cfg key cs of
           Inl e \<Rightarrow> (Inl e, cs)
         | Inr sdk \<Rightarrow> (let app_pk = fst (sdk_app_keygen (sdk_alias env) sdk)
                      in (Inr app_pk, insert_app key app_pk cs))))"

definition verify_build_sdk_with_agg ::
    "'x worker_env \<Rightarrow> 'x key_files \<Rightarrow> 'x \<Rightarrow> string \<Rightarrow> 'x key_caches \<Rightarrow> (string + 'x) \<times> 'x key_caches" where
  "verify_build_sdk_with_agg env files cfg key cs = (case verify_ensure_agg_pk env files cfg key cs of
       (Inl e, cs1) \<Rightarrow> (Inl e, cs1)
     | (Inr (Some agg_pk), cs1) \<Rightarrow> (case verify_app_pk env cfg key cs1 of
           (Inl e, cs2) \<Rightarrow> (Inl e, cs2)
         | (Inr app_pk, cs2) \<Rightarrow>
             (map_sum (\<lambda>e. ''construct OpenVM SDK with aggregation key: '' @ e) id
                (sdk_build (sdk_alias env) (new_builder\<lparr>bd_app_pk := Some app_pk, bd_agg_pk := Some agg_pk\<rparr>)), cs2))
     | (Inr None, cs1) \<Rightarrow> (verify_build_sdk env cfg key cs1, cs1))"

text \<open>\<^verbatim>\<open>str::trim_start_matches("0x")\<close>, which removes the prefix as often as it occurs.\<close>

fun trim_0x :: "string \<Rightarrow> string" where
  "trim_0x (a # b # s) = (if [a, b] = ''0x'' then trim_0x s else a # b # s)"
| "trim_0x s = s"

definition verify_evm_commit :: "'x worker_env \<Rightarrow> bytes \<Rightarrow> string \<Rightarrow> string + unit" where
  "verify_evm_commit env proof_bytes expected_exe_commit = (case we_json_value env proof_bytes of
       Inl e \<Rightarrow> Inl (''parse EVM proof JSON: '' @ e)
     | Inr v \<Rightarrow>
         (if json_get v ''proof_data'' = None then Inl ''EVM proof JSON is missing the `proof_data` field''
          else (case map_option (\<lambda>s. to_ascii_lowercase (trim_0x s))
                       (Option.bind (json_get v ''app_exe_commit'') as_str) of
              None \<Rightarrow> Inl ''EVM proof JSON is missing the `app_exe_commit` field''
            | Some claimed \<Rightarrow>
                (let expected = to_ascii_lowercase (trim_0x expected_exe_commit)
                 in if claimed \<noteq> expected
                    then Inl (''EVM proof app_exe_commit 0x'' @ claimed @ '' does not match expected commit 0x'' @ expected
                              @ '' of the uploaded program'')
                    else Inr ()))))"

definition transpile_err :: "string \<Rightarrow> string" where
  "transpile_err e = ''transpile + commit uploaded ELF: '' @ e"

definition verify_app_mode ::
    "'x worker_env \<Rightarrow> 'x \<Rightarrow> string \<Rightarrow> bytes \<Rightarrow> bytes \<Rightarrow> 'x key_caches \<Rightarrow> (string + unit) \<times> 'x key_caches" where
  "verify_app_mode env cfg key elf proof_bytes cs = (case verify_build_sdk env cfg key cs of
       Inl e \<Rightarrow> (Inl e, cs)
     | Inr sdk \<Rightarrow> (case we_bitcode_de env proof_bytes of
           Inl e \<Rightarrow> (Inl (''decode app proof bytes: '' @ e), cs)
         | Inr proof \<Rightarrow> (case sdk_app_prover (sdk_alias env) sdk elf of
               Inl e \<Rightarrow> (Inl (transpile_err e), cs)
             | Inr prover \<Rightarrow>
                 (map_sum (\<lambda>e. ''app proof verification failed: '' @ e) id
                    (sdk_verify_app (sdk_alias env) (snd (sdk_app_keygen (sdk_alias env) sdk)) proof
                       (sdk_app_exe_commit (sdk_alias env) prover)),
                  verify_store_app_pk env sdk key cs))))"

definition verify_stark_mode ::
    "'x worker_env \<Rightarrow> 'x key_files \<Rightarrow> 'x \<Rightarrow> string \<Rightarrow> bytes \<Rightarrow> bytes \<Rightarrow> 'x key_caches \<Rightarrow>
     (string + unit) \<times> 'x key_caches" where
  "verify_stark_mode env files cfg key elf proof_bytes cs = (case we_stark_json env proof_bytes of
       Inl e \<Rightarrow> (Inl (''parse stark proof JSON (VersionedVmStarkProof): '' @ e), cs)
     | Inr versioned \<Rightarrow> (case we_stark_try_from env versioned of
           Inl e \<Rightarrow> (Inl (''decode stark proof: '' @ e), cs)
         | Inr proof \<Rightarrow> (case verify_build_sdk_with_agg env files cfg key cs of
               (Inl e, cs1) \<Rightarrow> (Inl e, cs1)
             | (Inr sdk, cs1) \<Rightarrow> (case sdk_prover (sdk_alias env) sdk elf of
                   Inl e \<Rightarrow> (Inl (transpile_err e), cs1)
                 | Inr prover \<Rightarrow>
                     (map_sum (\<lambda>e. ''stark proof verification failed: '' @ e) id
                        (sdk_verify_proof (sdk_alias env) (sdk_agg_vk (sdk_alias env) sdk)
                           (sdk_generate_baseline (sdk_alias env) prover) proof),
                      verify_store_agg_pk env sdk key (verify_store_app_pk env sdk key cs1))))))"

definition verify_evm_mode ::
    "'x worker_env \<Rightarrow> 'x \<Rightarrow> string \<Rightarrow> bytes \<Rightarrow> bytes \<Rightarrow> 'x key_caches \<Rightarrow> (string + unit) \<times> 'x key_caches" where
  "verify_evm_mode env cfg key elf proof_bytes cs = (case verify_build_sdk env cfg key cs of
       Inl e \<Rightarrow> (Inl e, cs)
     | Inr sdk \<Rightarrow> (case sdk_app_prover (sdk_alias env) sdk elf of
           Inl e \<Rightarrow> (Inl (transpile_err e), cs)
         | Inr prover \<Rightarrow>
             (verify_evm_commit env proof_bytes (we_commit_text env (sdk_app_exe_commit (sdk_alias env) prover)),
              verify_store_app_pk env sdk key cs)))"

definition verify_openvm_proof_worker ::
    "'x worker_env \<Rightarrow> 'x key_files \<Rightarrow> bytes \<Rightarrow> string option \<Rightarrow> worker_proof_mode \<Rightarrow> bytes \<Rightarrow> 'x key_caches \<Rightarrow>
     (string + unit) \<times> 'x key_caches" where
  "verify_openvm_proof_worker env files elf toml mode proof_bytes cs = (case build_app_config env toml of
       Inl e \<Rightarrow> (Inl e, cs)
     | Inr cfg \<Rightarrow>
         (let key = config_cache_key env toml
          in case mode of
               W_App \<Rightarrow> verify_app_mode env cfg key elf proof_bytes cs
             | W_Stark \<Rightarrow> verify_stark_mode env files cfg key elf proof_bytes cs
             | W_Evm \<Rightarrow> verify_evm_mode env cfg key elf proof_bytes cs))"

end
