(* ===== verification/Hosts.thy ===== *)
theory Hosts
  imports Routes Fibonacci Worker_Keys
begin

text \<open>
  The integration-test clients: the OpenVM host (\<^verbatim>\<open>openvm-fibonacci/host/src/main.rs\<close>), which speaks HTTP to the
  OpenVM surface, and the RISC Zero host (\<^verbatim>\<open>risc0-fibonacci/host/src/main.rs\<close>), which goes through \<^verbatim>\<open>bonsai-sdk\<close>
  except for two calls; with the guests they prove. The network, the clock and the libraries of a host are in a
  record; a host is a function on the state of that world.
\<close>

section \<open>The guests\<close>

text \<open>The 32 bytes of public values the OpenVM guest reveals, and the journal of the RISC Zero guest.\<close>

definition openvm_guest :: "u32 \<Rightarrow> bytes" where
  "openvm_guest n =
     (let (a, b) = fibonacci n in to_le_bytes n @ to_le_bytes a @ to_le_bytes b @ replicate 20 0)"

definition risc0_guest :: "u32 \<Rightarrow> u32 \<times> u32 \<times> u32" where
  "risc0_guest n = (let (a, b) = fibonacci n in (n, a, b))"

section \<open>Polling until a job ends\<close>

text \<open>
  The three polling loops have one shape: \<^verbatim>\<open>poll_job\<close>, \<^verbatim>\<open>poll_session\<close> and the loop of \<^verbatim>\<open>wrap_and_download\<close>. They
  differ in the request they send, in the way the result is downloaded and in their texts. \<open>None\<close>: the fuel is used up.
\<close>

record 'w poll_client =
  pl_now :: "'w \<Rightarrow> nat"
  pl_sleep :: "nat \<Rightarrow> 'w \<Rightarrow> 'w"
  pl_status :: "'w \<Rightarrow> (string + status_response) \<times> 'w"
  pl_download :: "string \<Rightarrow> 'w \<Rightarrow> (string + bytes) \<times> 'w"
  pl_timed_out :: string
  pl_no_url :: string
  pl_failed :: string

definition no_error_msg :: string where
  "no_error_msg = ''<no error msg>''"

fun poll_loop :: "nat \<Rightarrow> 'w poll_client \<Rightarrow> nat \<Rightarrow> duration \<Rightarrow> 'w \<Rightarrow> ((string + bytes) \<times> 'w) option" where
  "poll_loop 0 pl deadline pause w = None"
| "poll_loop (Suc fuel) pl deadline pause w =
     (if pl_now pl w \<ge> deadline then Some (Inl (pl_timed_out pl), w)
      else (case pl_status pl w of
          (Inl e, w1) \<Rightarrow> Some (Inl e, w1)
        | (Inr res, w1) \<Rightarrow>
            (if sr_status res = ''RUNNING'' then poll_loop fuel pl deadline pause (pl_sleep pl pause w1)
             else if sr_status res = ''SUCCEEDED''
             then (case sr_url res of
                     None \<Rightarrow> Some (Inl (pl_no_url pl), w1)
                   | Some url \<Rightarrow> Some (pl_download pl url w1))
             else if sr_status res = ''FAILED''
             then Some (Inl (pl_failed pl @ (case sr_error_msg res of Some m \<Rightarrow> m | None \<Rightarrow> no_error_msg)), w1)
             else poll_loop fuel pl deadline pause (pl_sleep pl pause w1))))"

definition poll_until ::
    "nat \<Rightarrow> 'w poll_client \<Rightarrow> nat \<Rightarrow> nat \<Rightarrow> 'w \<Rightarrow> ((string + bytes) \<times> 'w) option" where
  "poll_until fuel pl timeout_secs poll_secs w =
     poll_loop fuel pl (pl_now pl w + from_secs timeout_secs) (from_secs poll_secs) w"

section \<open>HTTP\<close>

datatype http_body = B_None | B_Raw bytes | B_Create string string string | B_Session string string string | B_Snark string

datatype http_reply =
    R_Empty | R_Url string | R_Uuid_Url string string | R_Uuid string | R_Status status_response | R_Bytes bytes

text \<open>\<^verbatim>\<open>send\<close> with \<^verbatim>\<open>error_for_status\<close>, and the decoding of the body the caller expects; \<open>call\<close> names the request.\<close>

type_synonym 'w http_send = "http_method \<Rightarrow> string \<Rightarrow> http_body \<Rightarrow> 'w \<Rightarrow> (string + nat \<times> http_reply) \<times> 'w"

definition http_call ::
    "'w http_send \<Rightarrow> (http_reply \<Rightarrow> 'r option) \<Rightarrow> string \<Rightarrow> http_method \<Rightarrow> string \<Rightarrow> http_body \<Rightarrow> 'w \<Rightarrow> (string + 'r) \<times> 'w" where
  "http_call send sel call m url body w = (case send m url body w of
       (Inl e, w') \<Rightarrow> (Inl (call @ '': '' @ e), w')
     | (Inr (code, r), w') \<Rightarrow>
         (if code \<ge> 400 then (Inl (call @ '': HTTP status '' @ show_nat code), w')
          else (case sel r of None \<Rightarrow> (Inl (call @ '': error decoding response body''), w') | Some x \<Rightarrow> (Inr x, w'))))"

fun the_url :: "http_reply \<Rightarrow> string option" where
  "the_url (R_Url u) = Some u"
| "the_url (R_Uuid_Url i u) = Some u"
| "the_url _ = None"

fun the_uuid_url :: "http_reply \<Rightarrow> (string \<times> string) option" where
  "the_uuid_url (R_Uuid_Url i u) = Some (i, u)"
| "the_uuid_url _ = None"

fun the_uuid :: "http_reply \<Rightarrow> string option" where
  "the_uuid (R_Uuid i) = Some i"
| "the_uuid (R_Uuid_Url i u) = Some i"
| "the_uuid _ = None"

fun the_status :: "http_reply \<Rightarrow> status_response option" where
  "the_status (R_Status r) = Some r"
| "the_status _ = None"

fun the_bytes :: "http_reply \<Rightarrow> bytes option" where
  "the_bytes (R_Bytes b) = Some b"
| "the_bytes _ = None"

text \<open>\<^verbatim>\<open>trim_end_matches('/')\<close>.\<close>

definition trim_end_slash :: "string \<Rightarrow> string" where
  "trim_end_slash s = rev (dropWhile (\<lambda>c. c = CHR ''/'') (rev s))"

section \<open>The OpenVM host\<close>

text \<open>The timeout of a single request, set on the HTTP client when it is built.\<close>

definition request_timeout :: duration where
  "request_timeout = from_secs 600"

record openvm_host_args =
  oa_n :: u32
  oa_openvm_url :: string
  oa_proof_mode :: string
  oa_timeout_secs :: nat
  oa_poll_secs :: nat

text \<open>
  The libraries of the OpenVM host: whether the HTTP client can be built, the digest of the embedded program, the encoders, the decoders of the three
  proof formats with the field elements of the public values, and the verification of an app proof, which gives the
  commitment of the program proved.
\<close>

record ('w, 'x) openvm_host_env =
  oh_send :: "'w http_send"
  oh_now :: "'w \<Rightarrow> nat"
  oh_sleep :: "nat \<Rightarrow> 'w \<Rightarrow> 'w"
  oh_client :: "string + unit"
  oh_elf :: bytes
  oh_program_id :: string
  oh_bincode :: "bytes list \<Rightarrow> bytes option"
  oh_decode_app :: "bytes \<Rightarrow> string + 'x"
  oh_verify_app :: "'x \<Rightarrow> string + 'x"
  oh_local_commit :: "string + 'x"
  oh_decode_stark :: "bytes \<Rightarrow> string + 'x"
  oh_public_values :: "'x \<Rightarrow> nat list"
  oh_json :: "bytes \<Rightarrow> string + json_value"
  oh_hex_decode :: "string \<Rightarrow> string + bytes"

definition field_bytes :: "nat list \<Rightarrow> string + bytes" where
  "field_bytes fs =
     (if list_all (\<lambda>f. f < 256) fs then Inr (map of_nat fs) else Inl ''public value field element out of byte range'')"

definition verify_app :: "('w, 'x) openvm_host_env \<Rightarrow> bytes \<Rightarrow> string + bytes" where
  "verify_app he proof_bytes = (case oh_decode_app he proof_bytes of
       Inl e \<Rightarrow> Inl (''decode app proof: '' @ e)
     | Inr proof \<Rightarrow> (case oh_verify_app he proof of
           Inl e \<Rightarrow> Inl (''verify_app_proof: '' @ e)
         | Inr exe_commit \<Rightarrow> (case oh_local_commit he of
               Inl e \<Rightarrow> Inl (''commit local guest ELF: '' @ e)
             | Inr expected \<Rightarrow>
                 (if exe_commit \<noteq> expected then Inl ''proof exe commit does not match local guest ELF commit''
                  else field_bytes (oh_public_values he proof)))))"

definition decode_stark_public_values :: "('w, 'x) openvm_host_env \<Rightarrow> bytes \<Rightarrow> string + bytes" where
  "decode_stark_public_values he proof_bytes = (case oh_decode_stark he proof_bytes of
       Inl e \<Rightarrow> Inl e
     | Inr proof \<Rightarrow> field_bytes (oh_public_values he proof))"

definition decode_evm_public_values :: "('w, 'x) openvm_host_env \<Rightarrow> bytes \<Rightarrow> string + bytes" where
  "decode_evm_public_values he proof_bytes = (case oh_json he proof_bytes of
       Inl e \<Rightarrow> Inl (''parse EVM proof JSON: '' @ e)
     | Inr v \<Rightarrow> (case Option.bind (json_get v ''user_public_values'') as_str of
           None \<Rightarrow> Inl ''EVM proof JSON missing user_public_values''
         | Some hex_str \<Rightarrow>
             map_sum (\<lambda>e. ''decode user_public_values hex: '' @ e) id (oh_hex_decode he (trim_0x hex_str))))"

definition openvm_poll_client :: "('w, 'x) openvm_host_env \<Rightarrow> string \<Rightarrow> string \<Rightarrow> openvm_host_args \<Rightarrow> 'w poll_client" where
  "openvm_poll_client he base job_id args =
     \<lparr>pl_now = oh_now he, pl_sleep = oh_sleep he,
      pl_status = http_call (oh_send he) the_status ''GET /proofs/status'' GET (base @ ''/proofs/status/'' @ job_id) B_None,
      pl_download = (\<lambda>url. http_call (oh_send he) the_bytes (''GET '' @ url) GET url B_None),
      pl_timed_out = ''timed out after '' @ show_nat (oa_timeout_secs args) @ ''s waiting for proof job '' @ job_id,
      pl_no_url = ''SUCCEEDED status had no proof_url'', pl_failed = ''proof job failed: ''\<rparr>"

definition poll_job ::
    "nat \<Rightarrow> ('w, 'x) openvm_host_env \<Rightarrow> string \<Rightarrow> string \<Rightarrow> openvm_host_args \<Rightarrow> 'w \<Rightarrow> ((string + bytes) \<times> 'w) option" where
  "poll_job fuel he base job_id args w =
     poll_until fuel (openvm_poll_client he base job_id args) (oa_timeout_secs args) (oa_poll_secs args) w"

definition check_public_values :: "openvm_host_args \<Rightarrow> bytes \<Rightarrow> string + unit" where
  "check_public_values args pv =
     (if length pv < 12 then Inl (''expected at least 12 bytes of user public values, got '' @ show_nat (length pv))
      else (let read_u32 = \<lambda>i. from_le_bytes (take 4 (drop (i * 4) pv)); (a, b) = fibonacci (oa_n args) in
            if read_u32 0 \<noteq> oa_n args \<or> read_u32 1 \<noteq> a \<or> read_u32 2 \<noteq> b then Inl ''public values mismatch'' else Inr ()))"

definition openvm_host_values :: "('w, 'x) openvm_host_env \<Rightarrow> openvm_host_args \<Rightarrow> bytes \<Rightarrow> string + bytes" where
  "openvm_host_values he args proof_bytes =
     (if oa_proof_mode args = ''app'' then verify_app he proof_bytes
      else if oa_proof_mode args = ''stark'' then decode_stark_public_values he proof_bytes
      else if oa_proof_mode args = ''evm'' then decode_evm_public_values he proof_bytes
      else Inl (''unknown proof mode '' @ oa_proof_mode args))"

definition openvm_host_verify :: "('w, 'x) openvm_host_env \<Rightarrow> openvm_host_args \<Rightarrow> bytes \<Rightarrow> string + unit" where
  "openvm_host_verify he args proof_bytes = (case openvm_host_values he args proof_bytes of
        Inl e \<Rightarrow> Inl e
      | Inr pv \<Rightarrow> check_public_values args pv)"

text \<open>Steps 1 to 3: the program, the input and the job.\<close>

definition openvm_host_submit ::
    "('w, 'x) openvm_host_env \<Rightarrow> string \<Rightarrow> openvm_host_args \<Rightarrow> 'w \<Rightarrow> (string + string) \<times> 'w" where
  "openvm_host_submit he base args w0 =
     (case http_call (oh_send he) the_url ''GET /programs/upload'' GET (base @ ''/programs/upload/'' @ oh_program_id he) B_None w0 of
        (Inl e, w) \<Rightarrow> (Inl e, w)
      | (Inr url, w1) \<Rightarrow> (case http_call (oh_send he) Some ''PUT program'' PUT url (B_Raw (oh_elf he)) w1 of
        (Inl e, w) \<Rightarrow> (Inl e, w)
      | (Inr _, w2) \<Rightarrow> (case oh_bincode he [to_le_bytes (oa_n args)] of
        None \<Rightarrow> (Inl ''bincode input streams'', w2)
      | Some input_body \<Rightarrow> (case http_call (oh_send he) the_uuid_url ''GET /inputs/upload'' GET (base @ ''/inputs/upload'') B_None w2 of
        (Inl e, w) \<Rightarrow> (Inl e, w)
      | (Inr (input_id, input_url), w3) \<Rightarrow> (case http_call (oh_send he) Some ''PUT input'' PUT input_url (B_Raw input_body) w3 of
        (Inl e, w) \<Rightarrow> (Inl e, w)
      | (Inr _, w4) \<Rightarrow> http_call (oh_send he) the_uuid ''POST /proofs/create'' POST (base @ ''/proofs/create'')
          (B_Create (oh_program_id he) input_id (oa_proof_mode args)) w4)))))"

definition openvm_host :: "nat \<Rightarrow> ('w, 'x) openvm_host_env \<Rightarrow> openvm_host_args \<Rightarrow> 'w \<Rightarrow> ((string + unit) \<times> 'w) option" where
  "openvm_host fuel he args w0 =
     (let base = trim_end_slash (oa_openvm_url args) in
      case oh_client he of
        Inl e \<Rightarrow> Some (Inl (''build http client: '' @ e), w0)
      | Inr _ \<Rightarrow> (case openvm_host_submit he base args w0 of
            (Inl e, w) \<Rightarrow> Some (Inl e, w)
          | (Inr job, w1) \<Rightarrow> (case poll_job fuel he base job args w1 of
                None \<Rightarrow> None
              | Some (Inl e, w2) \<Rightarrow> Some (Inl e, w2)
              | Some (Inr proof_bytes, w2) \<Rightarrow> Some (openvm_host_verify he args proof_bytes, w2))))"

section \<open>The RISC Zero host\<close>

record risc0_host_args =
  ra_n :: u32
  ra_bonsai_url :: string
  ra_proof_mode :: string
  ra_wrap_snark :: bool
  ra_timeout_secs :: nat
  ra_poll_secs :: nat

text \<open>\<open>rh_client\<close>: whether the SDK's client can be built; the four calls after it are the SDK's.\<close>

record ('w, 'x) risc0_host_env =
  rh_send :: "'w http_send"
  rh_now :: "'w \<Rightarrow> nat"
  rh_sleep :: "nat \<Rightarrow> 'w \<Rightarrow> 'w"
  rh_client :: "string + unit"
  rh_upload_img :: "string \<Rightarrow> bytes \<Rightarrow> 'w \<Rightarrow> (string + unit) \<times> 'w"
  rh_upload_input :: "bytes \<Rightarrow> 'w \<Rightarrow> (string + string) \<times> 'w"
  rh_session_status :: "string \<Rightarrow> 'w \<Rightarrow> (string + status_response) \<times> 'w"
  rh_download :: "string \<Rightarrow> 'w \<Rightarrow> (string + bytes) \<times> 'w"
  rh_elf :: bytes
  rh_image_id_hex :: string
  rh_serialize :: "u32 \<Rightarrow> string + bytes"
  rh_decode_receipt :: "bytes \<Rightarrow> string + 'x"
  rh_verify :: "'x \<Rightarrow> string + unit"
  rh_journal :: "'x \<Rightarrow> string + (u32 \<times> u32 \<times> u32)"

definition error_prefix :: "string \<Rightarrow> (string + 'r) \<times> 'w \<Rightarrow> (string + 'r) \<times> 'w" where
  "error_prefix p rw = map_prod (map_sum (\<lambda>e. p @ '': '' @ e) id) id rw"

definition session_poll_client :: "('w, 'x) risc0_host_env \<Rightarrow> string \<Rightarrow> risc0_host_args \<Rightarrow> 'w poll_client" where
  "session_poll_client he session args =
     \<lparr>pl_now = rh_now he, pl_sleep = rh_sleep he,
      pl_status = (\<lambda>w. error_prefix ''session.status'' (rh_session_status he session w)),
      pl_download = (\<lambda>url w. error_prefix ''download receipt'' (rh_download he url w)),
      pl_timed_out = ''timed out after '' @ show_nat (ra_timeout_secs args) @ ''s waiting for session '' @ session,
      pl_no_url = ''SUCCEEDED status had no receipt_url'', pl_failed = ''session failed: ''\<rparr>"

definition poll_session ::
    "nat \<Rightarrow> ('w, 'x) risc0_host_env \<Rightarrow> string \<Rightarrow> risc0_host_args \<Rightarrow> 'w \<Rightarrow> ((string + bytes) \<times> 'w) option" where
  "poll_session fuel he session args w =
     poll_until fuel (session_poll_client he session args) (ra_timeout_secs args) (ra_poll_secs args) w"

definition snark_poll_client :: "('w, 'x) risc0_host_env \<Rightarrow> string \<Rightarrow> string \<Rightarrow> risc0_host_args \<Rightarrow> 'w poll_client" where
  "snark_poll_client he base snark args =
     \<lparr>pl_now = rh_now he, pl_sleep = rh_sleep he,
      pl_status = http_call (rh_send he) the_status ''GET /snark/status'' GET (base @ ''/snark/status/'' @ snark) B_None,
      pl_download = (\<lambda>url. http_call (rh_send he) the_bytes (''GET '' @ url) GET url B_None),
      pl_timed_out = ''timed out after '' @ show_nat (ra_timeout_secs args) @ ''s waiting for snark '' @ snark,
      pl_no_url = ''SUCCEEDED snark status had no output url'', pl_failed = ''snark failed: ''\<rparr>"

definition wrap_and_download ::
    "nat \<Rightarrow> ('w, 'x) risc0_host_env \<Rightarrow> risc0_host_args \<Rightarrow> string \<Rightarrow> 'w \<Rightarrow> ((string + bytes) \<times> 'w) option" where
  "wrap_and_download fuel he args session w =
     (let base = trim_end_slash (ra_bonsai_url args) in
      case http_call (rh_send he) the_uuid ''POST /snark/create'' POST (base @ ''/snark/create'') (B_Snark session) w of
        (Inl e, w1) \<Rightarrow> Some (Inl e, w1)
      | (Inr snark, w1) \<Rightarrow>
          poll_until fuel (snark_poll_client he base snark args) (ra_timeout_secs args) (ra_poll_secs args) w1)"

definition risc0_host_submit ::
    "('w, 'x) risc0_host_env \<Rightarrow> risc0_host_args \<Rightarrow> 'w \<Rightarrow> (string + string) \<times> 'w" where
  "risc0_host_submit he args w0 = (case rh_client he of
       Inl e \<Rightarrow> (Inl (''build Bonsai client: '' @ e), w0)
     | Inr _ \<Rightarrow> (case error_prefix ''upload_img'' (rh_upload_img he (rh_image_id_hex he) (rh_elf he) w0) of
       (Inl e, w) \<Rightarrow> (Inl e, w)
     | (Inr _, w1) \<Rightarrow> (case rh_serialize he (ra_n args) of
       Inl e \<Rightarrow> (Inl (''serialize guest input: '' @ e), w1)
     | Inr input_bytes \<Rightarrow> (case error_prefix ''upload_input'' (rh_upload_input he input_bytes w1) of
       (Inl e, w) \<Rightarrow> (Inl e, w)
     | (Inr input_id, w2) \<Rightarrow>
         (let sess_url = trim_end_slash (ra_bonsai_url args) @ ''/sessions/create'' in
          http_call (rh_send he) the_uuid (''POST '' @ sess_url) POST sess_url
            (B_Session (rh_image_id_hex he) input_id (ra_proof_mode args)) w2)))))"

definition risc0_host_verify :: "('w, 'x) risc0_host_env \<Rightarrow> risc0_host_args \<Rightarrow> bytes \<Rightarrow> string + unit" where
  "risc0_host_verify he args receipt_bytes = (case rh_decode_receipt he receipt_bytes of
       Inl e \<Rightarrow> Inl (''deserialize receipt: '' @ e)
     | Inr receipt \<Rightarrow> (case rh_verify he receipt of
         Inl e \<Rightarrow> Inl (''receipt.verify: '' @ e)
       | Inr _ \<Rightarrow> (case rh_journal he receipt of
           Inl e \<Rightarrow> Inl (''decode journal as (u32, u32, u32): '' @ e)
         | Inr (j_n, j_a, j_b) \<Rightarrow>
             (let (a, b) = fibonacci (ra_n args) in
              if j_n \<noteq> ra_n args \<or> j_a \<noteq> a \<or> j_b \<noteq> b then Inl ''journal mismatch'' else Inr ()))))"

definition risc0_host :: "nat \<Rightarrow> ('w, 'x) risc0_host_env \<Rightarrow> risc0_host_args \<Rightarrow> 'w \<Rightarrow> ((string + unit) \<times> 'w) option" where
  "risc0_host fuel he args w0 = (case risc0_host_submit he args w0 of
       (Inl e, w) \<Rightarrow> Some (Inl e, w)
     | (Inr session, w1) \<Rightarrow> (case poll_session fuel he session args w1 of
           None \<Rightarrow> None
         | Some (Inl e, w2) \<Rightarrow> Some (Inl e, w2)
         | Some (Inr stark_receipt, w2) \<Rightarrow>
             (case (if ra_wrap_snark args then wrap_and_download fuel he args session w2 else Some (Inr stark_receipt, w2)) of
                None \<Rightarrow> None
              | Some (Inl e, w3) \<Rightarrow> Some (Inl e, w3)
              | Some (Inr receipt_bytes, w3) \<Rightarrow> Some (risc0_host_verify he args receipt_bytes, w3))))"

section \<open>Polling\<close>

text \<open>Rounds that find the job running; \<open>v i\<close> is the world at the start of round \<open>i\<close>.\<close>

lemma poll_loop_rounds:
  assumes "\<And>i. i < k \<Longrightarrow> pl_now pl (v i) < deadline"
    "\<And>i. i < k \<Longrightarrow> \<exists>res w1. pl_status pl (v i) = (Inr res, w1) \<and> sr_status res = ''RUNNING'' \<and> v (Suc i) = pl_sleep pl pause w1"
  shows "poll_loop (k + fuel) pl deadline pause (v 0) = poll_loop fuel pl deadline pause (v k)"
  using assms
proof (induction k arbitrary: fuel)
  case (Suc k)
  obtain res w1 where round: "pl_status pl (v k) = (Inr res, w1)" "sr_status res = ''RUNNING''" "v (Suc k) = pl_sleep pl pause w1"
    using Suc.prems(2) [of k] by auto
  have "poll_loop (Suc k + fuel) pl deadline pause (v 0) = poll_loop (Suc fuel) pl deadline pause (v k)"
    using Suc.IH [of "Suc fuel"] Suc.prems by (simp del: poll_loop.simps)
  also have "\<dots> = poll_loop fuel pl deadline pause (v (Suc k))"
    using round Suc.prems(1) [of k] by (simp add: not_le [symmetric] del: not_le)
  finally show ?case .
qed simp

text \<open>A clock that a pause moves forward by at least its length and that a request does not move back.\<close>

locale poll_clock =
  fixes pl :: "'w poll_client"
  assumes sleeps: "pl_now pl w + d \<le> pl_now pl (pl_sleep pl d w)"
    and passes: "pl_now pl w \<le> pl_now pl (snd (pl_status pl w))"
begin

text \<open>Each round starts a pause later than the one before; the round that starts after the deadline is the last.\<close>

lemma poll_loop_ends:
  "deadline \<le> pl_now pl w + fuel * pause \<Longrightarrow> poll_loop (Suc fuel) pl deadline pause w \<noteq> None"
proof (induction fuel arbitrary: w)
  case 0
  then show ?case by simp
next
  case (Suc fuel)
  obtain r w1 where st: "pl_status pl w = (r, w1)" by (cases "pl_status pl w")
  have "deadline \<le> pl_now pl (pl_sleep pl pause w1) + fuel * pause"
    using Suc.prems sleeps [of w1 pause] passes [of w] st by simp
  note next_round = Suc.IH [OF this]
  show ?case
    by (subst poll_loop.simps(2)) (use next_round st in \<open>simp del: poll_loop.simps split: sum.split option.split\<close>)
qed

lemma poll_until_ends:
  assumes "timeout_secs \<le> fuel * poll_secs"
  shows "poll_until (Suc fuel) pl timeout_secs poll_secs w \<noteq> None"
proof -
  have "from_secs timeout_secs \<le> fuel * from_secs poll_secs"
    using mult_le_mono1 [OF assms, of nanos_per_sec] by (simp add: from_secs_def ac_simps)
  then show ?thesis unfolding poll_until_def by (intro poll_loop_ends) simp
qed

end

end
