(* ===== verification/Host_Run.thy ===== *)
theory Host_Run
  imports Hosts
begin

text \<open>
  The OpenVM host run against the OpenVM surface: requests of the host are routed by the table of the HTTP server to
  the handlers of the surface. Each request is served in an environment of its own (fresh ids, what the registry
  answers, what the local verifier says) and takes some time. A request that is not answered within the timeout of
  the client fails there; what its handler, cut off at some point, leaves behind at the surface is arbitrary.
\<close>

section \<open>The surface as a server\<close>

record openvm_world =
  ow_inner :: openvm_inner
  ow_now :: nat
  ow_count :: nat

record server_params =
  sp_cfg :: surface_config
  sp_dec :: "string \<Rightarrow> string"
  sp_streams :: "bytes \<Rightarrow> bytes list option"
  sp_env :: "nat \<Rightarrow> openvm_env"
  sp_latency :: "nat \<Rightarrow> duration"
  sp_cut_off :: "nat \<Rightarrow> openvm_inner \<Rightarrow> openvm_inner"

fun reply_of :: "('a \<Rightarrow> http_reply) \<Rightarrow> 'a http_result \<Rightarrow> string + nat \<times> http_reply" where
  "reply_of f (HttpOk x) = Inr (200, f x)"
| "reply_of f (HttpErr code _) = Inr (code, R_Empty)"

fun openvm_endpoint ::
    "server_params \<Rightarrow> openvm_env \<Rightarrow> endpoint \<Rightarrow> string list \<Rightarrow> http_body \<Rightarrow> openvm_inner \<Rightarrow>
     (string + nat \<times> http_reply) \<times> openvm_inner" where
  "openvm_endpoint sp e Ov_Program_Upload_Url [i] b s = (Inr (200, R_Url (handle_program_upload_url (sp_cfg sp) i)), s)"
| "openvm_endpoint sp e Ov_Program_Put [i] (B_Raw b) s = (Inr (200, R_Empty), handle_program_put i b s)"
| "openvm_endpoint sp e Ov_Input_Upload_Url [] b s =
     (Inr (200, case handle_input_upload_url (sp_cfg sp) e of (i, u) \<Rightarrow> R_Uuid_Url i u), s)"
| "openvm_endpoint sp e Ov_Input_Put [i] (B_Raw b) s =
     map_prod (reply_of (\<lambda>_. R_Empty)) id (handle_input_put (sp_streams sp) i b s)"
| "openvm_endpoint sp e Ov_Proof_Create [] (B_Create p i m) s =
     (case handle_proof_create (sp_cfg sp) e \<lparr>pc_program = p, pc_input = i, pc_proof_mode = Some m, pc_app_config_toml = None\<rparr> s of
        (r, s', cs :: unit cmds) \<Rightarrow> (reply_of R_Uuid r, s'))"
| "openvm_endpoint sp e Ov_Proof_Status [i] b s =
     (case openvm_handle_proof_status (sp_cfg sp) e i s of
        (Ph_Done r, s', cs :: unit cmds) \<Rightarrow> (reply_of R_Status r, s')
      | (_, s', _) \<Rightarrow> (Inl ''connection closed before message completed'', s'))"
| "openvm_endpoint sp e Ov_Proof_Download [i] b s = (reply_of R_Bytes (handle_proof_download i s), s)"
| "openvm_endpoint sp e ep ps b s = (Inr (404, R_Empty), s)"

definition authority :: "server_params \<Rightarrow> string" where
  "authority sp = sc_ip (sp_cfg sp) @ '':'' @ show_nat (sc_http_port (sp_cfg sp))"

definition openvm_serve :: "server_params \<Rightarrow> openvm_world http_send" where
  "openvm_serve sp m url body w = (case request_url (sp_dec sp) m url of
       None \<Rightarrow> (Inl ''builder error'', w)
     | Some (auth, r) \<Rightarrow>
         (let w' = w\<lparr>ow_now := ow_now w + min (sp_latency sp (ow_count w)) request_timeout, ow_count := Suc (ow_count w)\<rparr> in
          if auth \<noteq> authority sp then (Inl ''error sending request'', w')
          else if request_timeout \<le> sp_latency sp (ow_count w)
          then (Inl ''operation timed out'', w'\<lparr>ow_inner := sp_cut_off sp (ow_count w) (ow_inner w)\<rparr>)
          else (case r of
              NotFound \<Rightarrow> (Inr (404, R_Empty), w')
            | MethodNotAllowed \<Rightarrow> (Inr (405, R_Empty), w')
            | Routed ep ps \<Rightarrow>
                (case openvm_endpoint sp (sp_env sp (ow_count w)) ep ps body (ow_inner w) of
                   (res, s') \<Rightarrow> (res, w'\<lparr>ow_inner := s'\<rparr>)))))"

text \<open>The host in this world.\<close>

definition host_against :: "server_params \<Rightarrow> (openvm_world, 'x) openvm_host_env \<Rightarrow> (openvm_world, 'x) openvm_host_env" where
  "host_against sp he = he\<lparr>oh_send := openvm_serve sp, oh_now := ow_now, oh_sleep := (\<lambda>d w. w\<lparr>ow_now := ow_now w + d\<rparr>)\<rparr>"

section \<open>Facts\<close>

lemma openvm_serve_time: "ow_now w \<le> ow_now (snd (openvm_serve sp m url body w))"
  by (auto simp: openvm_serve_def Let_def split: option.split prod.split routed.split)

lemma http_call_snd: "snd (http_call send sel call m url body w) = snd (send m url body w)"
  by (auto simp: http_call_def split: prod.split sum.split option.split)

interpretation openvm_clock: poll_clock "openvm_poll_client (host_against sp he) base job args"
  for sp :: server_params and he :: "(openvm_world, 'x) openvm_host_env" and base job args
  by unfold_locales (simp_all add: openvm_poll_client_def host_against_def http_call_snd openvm_serve_time)

text \<open>A request under a path of the surface reaches its endpoint.\<close>

lemma openvm_serve_routed:
  assumes "CHR ''/'' \<notin> set (sc_ip (sp_cfg sp))" "decodes (sp_dec sp)" "find_routes openvm_routes segs = Some (ps, [(f, ep)])"
    "allows f m" "list_all (\<lambda>s. CHR ''/'' \<notin> set s) segs" "segs \<noteq> []" "list_all (\<lambda>s. CHR ''%'' \<notin> set s) ps"
    "sp_latency sp (ow_count w) < request_timeout"
  shows "openvm_serve sp m (presigned_url (sp_cfg sp) (CHR ''/'' # join_str ''/'' segs)) body w =
     (case openvm_endpoint sp (sp_env sp (ow_count w)) ep ps body (ow_inner w) of
        (res, s') \<Rightarrow> (res, \<lparr>ow_inner = s', ow_now = ow_now w + sp_latency sp (ow_count w), ow_count = Suc (ow_count w)\<rparr>))"
  using openvm_url_routed [OF assms(1-7)] assms(8) by (cases w) (simp add: openvm_serve_def authority_def min_def split: prod.split)

text \<open>A request the surface takes too long over fails at the client.\<close>

lemma openvm_serve_late:
  assumes "request_timeout \<le> sp_latency sp (ow_count w)"
  shows "\<exists>e. fst (openvm_serve sp m url body w) = Inl e"
  using assms by (auto simp: openvm_serve_def Let_def split: option.split)

lemma client_paths:
  "find_routes openvm_routes [''inputs'', ''upload''] = Some ([], [(On_Get, Ov_Input_Upload_Url)])"
  "find_routes openvm_routes [''proofs'', ''create''] = Some ([], [(On_Post, Ov_Proof_Create)])"
  "x \<noteq> [] \<Longrightarrow> find_routes openvm_routes [''programs'', ''upload'', x] = Some ([x], [(On_Get, Ov_Program_Upload_Url)])"
  "x \<noteq> [] \<Longrightarrow> find_routes openvm_routes [''proofs'', ''status'', x] = Some ([x], [(On_Get, Ov_Proof_Status)])"
  by (simp_all add: openvm_routes_def)


text \<open>The world after a request that left the surface in state \<open>s\<close>, and the answer to one.\<close>

definition served :: "server_params \<Rightarrow> openvm_inner \<Rightarrow> openvm_world \<Rightarrow> openvm_world" where
  "served sp s w = \<lparr>ow_inner = s, ow_now = ow_now w + sp_latency sp (ow_count w), ow_count = Suc (ow_count w)\<rparr>"

lemma served_simps [simp]:
  "ow_inner (served sp s w) = s" "ow_count (served sp s w) = Suc (ow_count w)"
  "ow_now (served sp s w) = ow_now w + sp_latency sp (ow_count w)"
  by (simp_all add: served_def)

lemma openvm_call:
  assumes "CHR ''/'' \<notin> set (sc_ip (sp_cfg sp))" "decodes (sp_dec sp)" "find_routes openvm_routes segs = Some (ps, [(f, ep)])"
    "allows f m" "list_all (\<lambda>s. CHR ''/'' \<notin> set s) segs" "segs \<noteq> []" "list_all (\<lambda>s. CHR ''%'' \<notin> set s) ps"
    "sp_latency sp (ow_count w) < request_timeout"
    "openvm_endpoint sp (sp_env sp (ow_count w)) ep ps body (ow_inner w) = (Inr (200, r), s')" "sel r = Some x"
  shows "http_call (openvm_serve sp) sel call m (presigned_url (sp_cfg sp) (CHR ''/'' # join_str ''/'' segs)) body w =
     (Inr x, served sp s' w)"
  using openvm_serve_routed [OF assms(1-8), of body] assms(9,10) by (simp add: http_call_def served_def)

lemma presigned_url_base: "presigned_url cfg [] @ path = presigned_url cfg path"
  by (simp add: presigned_url_def)

text \<open>
  The setting of the test: the host is pointed at the surface, ids are single path segments, the program id is in its
  normal form (the digest in lower-case hexadecimal), the surface decodes what the host encoded, and the mode is one
  the host knows.
\<close>

definition host_setting :: "server_params \<Rightarrow> (openvm_world, 'x) openvm_host_env \<Rightarrow> openvm_host_args \<Rightarrow> bool" where
  "host_setting sp he args \<longleftrightarrow>
     CHR ''/'' \<notin> set (sc_ip (sp_cfg sp)) \<and> decodes (sp_dec sp) \<and>
     trim_end_slash (oa_openvm_url args) = presigned_url (sp_cfg sp) [] \<and>
     plain_id (oh_program_id he) \<and> normalize_program_id (oh_program_id he) = oh_program_id he \<and>
     (\<forall>k. plain_id (oe_uuid (sp_env sp k))) \<and> oh_client he = Inr () \<and>
     (\<exists>body. oh_bincode he [to_le_bytes (oa_n args)] = Some body \<and> sp_streams sp body = Some [to_le_bytes (oa_n args)]) \<and>
     (\<exists>mode. parse_openvm_proof_mode (Some (oa_proof_mode args)) = Inr mode)"

text \<open>The job the host creates in a world, and the surface that holds it.\<close>

definition host_job :: "server_params \<Rightarrow> (openvm_world, 'x) openvm_host_env \<Rightarrow> openvm_host_args \<Rightarrow> openvm_world \<Rightarrow> openvm_job" where
  "host_job sp he args w =
     \<lparr>oj_request_id = oe_request_id (sp_env sp (ow_count w + 4)), oj_program_id = oh_program_id he, oj_app_config_toml = None,
      oj_mode = (case parse_openvm_proof_mode (Some (oa_proof_mode args)) of Inr m \<Rightarrow> m | Inl _ \<Rightarrow> O_App),
      oj_terminal_error = None\<rparr>"

definition host_job_id :: "server_params \<Rightarrow> openvm_world \<Rightarrow> string" where
  "host_job_id sp w = oe_uuid (sp_env sp (ow_count w + 4))"

definition host_created ::
    "server_params \<Rightarrow> (openvm_world, 'x) openvm_host_env \<Rightarrow> openvm_host_args \<Rightarrow> openvm_world \<Rightarrow> openvm_inner" where
  "host_created sp he args w = (ow_inner w)
     \<lparr>ov_programs := (ov_programs (ow_inner w))(oh_program_id he \<mapsto> oh_elf he),
      ov_inputs := (ov_inputs (ow_inner w))(oe_uuid (sp_env sp (ow_count w + 2)) \<mapsto> [to_le_bytes (oa_n args)]),
      ov_jobs := (ov_jobs (ow_inner w))(host_job_id sp w \<mapsto> host_job sp he args w)\<rparr>"

definition host_submitted ::
    "server_params \<Rightarrow> (openvm_world, 'x) openvm_host_env \<Rightarrow> openvm_host_args \<Rightarrow> openvm_world \<Rightarrow> openvm_world" where
  "host_submitted sp he args w =
     \<lparr>ow_inner = host_created sp he args w, ow_now = ow_now w + (\<Sum>i<5. sp_latency sp (ow_count w + i)),
      ow_count = ow_count w + 5\<rparr>"

lemma host_against_simps [simp]:
  "oh_send (host_against sp he) = openvm_serve sp" "oh_now (host_against sp he) = ow_now"
  "oh_sleep (host_against sp he) = (\<lambda>d w. w\<lparr>ow_now := ow_now w + d\<rparr>)" "oh_client (host_against sp he) = oh_client he"
  "oh_elf (host_against sp he) = oh_elf he" "oh_program_id (host_against sp he) = oh_program_id he"
  "oh_bincode (host_against sp he) = oh_bincode he" "oh_decode_app (host_against sp he) = oh_decode_app he"
  "oh_verify_app (host_against sp he) = oh_verify_app he" "oh_local_commit (host_against sp he) = oh_local_commit he"
  "oh_decode_stark (host_against sp he) = oh_decode_stark he" "oh_public_values (host_against sp he) = oh_public_values he"
  "oh_json (host_against sp he) = oh_json he" "oh_hex_decode (host_against sp he) = oh_hex_decode he"
  by (simp_all add: host_against_def)

lemma openvm_host_verify_against [simp]:
  "openvm_host_values (host_against sp he) = openvm_host_values he"
  "openvm_host_verify (host_against sp he) = openvm_host_verify he"
  unfolding fun_eq_iff openvm_host_verify_def openvm_host_values_def verify_app_def decode_stark_public_values_def
    decode_evm_public_values_def host_against_simps by (rule allI, rule allI, rule refl)+

lemma host_submits:
  assumes "host_setting sp he args" "oe_up (sp_env sp (ow_count w + 4))"
    "\<And>i. i < 5 \<Longrightarrow> sp_latency sp (ow_count w + i) < request_timeout"
  shows "openvm_host_submit (host_against sp he) (presigned_url (sp_cfg sp) []) args w =
     (Inr (host_job_id sp w), host_submitted sp he args w)"
proof -
  obtain body mode where st: "CHR ''/'' \<notin> set (sc_ip (sp_cfg sp))" "decodes (sp_dec sp)" "plain_id (oh_program_id he)"
    "normalize_program_id (oh_program_id he) = oh_program_id he" "\<And>k. plain_id (oe_uuid (sp_env sp k))"
    "oh_bincode he [to_le_bytes (oa_n args)] = Some body" "sp_streams sp body = Some [to_le_bytes (oa_n args)]"
    "parse_openvm_proof_mode (Some (oa_proof_mode args)) = Inr mode"
    using assms(1) by (auto simp: host_setting_def)
  note call = openvm_call [OF st(1,2)]
  note pid = plain_id_segment [OF st(3)]
  have quick: "sp_latency sp (ow_count w) < request_timeout" "sp_latency sp (Suc (ow_count w)) < request_timeout"
    "sp_latency sp (Suc (Suc (ow_count w))) < request_timeout" "sp_latency sp (Suc (Suc (Suc (ow_count w)))) < request_timeout"
    "sp_latency sp (Suc (Suc (Suc (Suc (ow_count w))))) < request_timeout"
    using assms(3) [of 0] assms(3) [of 1] assms(3) [of 2] assms(3) [of 3] assms(3) [of 4] by (simp_all add: eval_nat_numeral)
  let ?c = "ow_count w" and ?s = "ow_inner w" and ?pid = "oh_program_id he" and ?iid = "oe_uuid (sp_env sp (ow_count w + 2))"
  note iid = plain_id_segment [OF st(5) [of "?c + 2"]]
  let ?s2 = "handle_program_put ?pid (oh_elf he) ?s"
  let ?s4 = "?s2\<lparr>ov_inputs := (ov_inputs ?s2)(?iid \<mapsto> [to_le_bytes (oa_n args)])\<rparr>"
  let ?w1 = "served sp ?s w" let ?w2 = "served sp ?s2 ?w1" let ?w3 = "served sp ?s2 ?w2" let ?w4 = "served sp ?s4 ?w3"
  have 1: "http_call (openvm_serve sp) the_url ''GET /programs/upload'' GET
      (presigned_url (sp_cfg sp) [] @ ''/programs/upload/'' @ ?pid) B_None w = (Inr (presigned_url (sp_cfg sp) (''/programs/'' @ ?pid)), ?w1)"
    using call [OF client_paths(3) [OF pid(1)], where w = w and body = B_None and m = GET and r = "R_Url (handle_program_upload_url (sp_cfg sp) ?pid)"
        and s' = ?s and sel = the_url] pid st(4) quick(1)
    by (simp add: presigned_url_base handle_program_upload_url_def)
  have 2: "http_call (openvm_serve sp) Some ''PUT program'' PUT (presigned_url (sp_cfg sp) (''/programs/'' @ ?pid))
      (B_Raw (oh_elf he)) ?w1 = (Inr R_Empty, ?w2)"
    using call [OF openvm_paths(1) [OF st(3)], where w = ?w1 and body = "B_Raw (oh_elf he)" and m = PUT and r = R_Empty
        and s' = ?s2 and sel = Some] pid quick(2) by simp
  have 3: "http_call (openvm_serve sp) the_uuid_url ''GET /inputs/upload'' GET (presigned_url (sp_cfg sp) [] @ ''/inputs/upload'')
      B_None ?w2 = (Inr (?iid, presigned_url (sp_cfg sp) (''/inputs/'' @ ?iid)), ?w3)"
    using call [OF client_paths(1), where w = ?w2 and body = B_None and m = GET and s' = ?s2 and sel = the_uuid_url] quick(3)
    by (simp add: presigned_url_base handle_input_upload_url_def)
  have 4: "http_call (openvm_serve sp) Some ''PUT input'' PUT (presigned_url (sp_cfg sp) (''/inputs/'' @ ?iid)) (B_Raw body) ?w3 =
      (Inr R_Empty, ?w4)"
    using call [OF openvm_paths(2) [OF st(5)], where w = ?w3 and body = "B_Raw body" and m = PUT and r = R_Empty
        and s' = ?s4 and sel = Some] iid st(7) quick(4)
    by (simp add: handle_input_put_def)
  have create: "openvm_endpoint sp (sp_env sp (?c + 4)) Ov_Proof_Create [] (B_Create ?pid ?iid (oa_proof_mode args)) ?s4 =
      (Inr (200, R_Uuid (host_job_id sp w)), host_created sp he args w)"
    using assms(2) st(4,8)
    by (simp add: handle_proof_create_def handle_program_put_def Let_def route_openvm_proof_def assign_proof_request_def
        host_created_def host_job_def host_job_id_def)
  have 5: "http_call (openvm_serve sp) the_uuid ''POST /proofs/create'' POST (presigned_url (sp_cfg sp) [] @ ''/proofs/create'')
      (B_Create ?pid ?iid (oa_proof_mode args)) ?w4 = (Inr (host_job_id sp w), served sp (host_created sp he args w) ?w4)"
    using call [OF client_paths(2), where w = ?w4 and body = "B_Create ?pid ?iid (oa_proof_mode args)" and m = POST
        and sel = the_uuid] create quick(5)
    by (simp add: presigned_url_base numeral_eq_Suc)
  have "served sp (host_created sp he args w) ?w4 = host_submitted sp he args w"
    by (simp add: host_submitted_def served_def eval_nat_numeral)
  then show ?thesis
    unfolding openvm_host_submit_def host_against_simps 1 prod.case sum.case 2 st(6) option.case 3 4 5 by simp
qed

section \<open>Polling the surface\<close>

text \<open>The world at the start of round \<open>i\<close> of polling, in state \<open>s\<close> from the world \<open>w\<close> on.\<close>

definition round_world :: "server_params \<Rightarrow> duration \<Rightarrow> openvm_world \<Rightarrow> nat \<Rightarrow> openvm_world" where
  "round_world sp pause w i =
     \<lparr>ow_inner = ow_inner w, ow_now = ow_now w + (\<Sum>k<i. sp_latency sp (ow_count w + k) + pause), ow_count = ow_count w + i\<rparr>"

lemma round_world_simps [simp]:
  "ow_inner (round_world sp pause w i) = ow_inner w" "ow_count (round_world sp pause w i) = ow_count w + i"
  "round_world sp pause w 0 = w"
  "(served sp (ow_inner w) (round_world sp pause w i))\<lparr>ow_now := ow_now (served sp (ow_inner w) (round_world sp pause w i)) + pause\<rparr>
     = round_world sp pause w (Suc i)"
  by (simp_all add: round_world_def served_def)

lemma host_polls:
  fixes he :: "(openvm_world, 'x) openvm_host_env"
  assumes "CHR ''/'' \<notin> set (sc_ip (sp_cfg sp))" "decodes (sp_dec sp)" "plain_id job"
    "ov_jobs (ow_inner w) job = Some j" "oj_terminal_error j = None" "ov_proofs (ow_inner w) job = None"
    "ov_programs (ow_inner w) (oj_program_id j) = Some elf"
    "\<And>i. i < k \<Longrightarrow> poll_running (sp_env sp (ow_count w + i)) (oj_request_id j)"
    "poll_fulfilled (sp_env sp (ow_count w + k)) (oj_request_id j) proof" "oe_join_ok (sp_env sp (ow_count w + k))"
    "verify_openvm_proof (oe_calls (sp_env sp (ow_count w + k)) (verify_request j elf proof)) = Inr ()"
    "(\<Sum>i<k. sp_latency sp (ow_count w + i) + from_secs (oa_poll_secs args)) < from_secs (oa_timeout_secs args)"
    "\<And>i. i < k + 2 \<Longrightarrow> sp_latency sp (ow_count w + i) < request_timeout"
  shows "\<exists>w'. poll_job (k + Suc fuel) (host_against sp he) (presigned_url (sp_cfg sp) []) job args w = Some (Inr proof, w') \<and>
     ow_inner w' = (ow_inner w)\<lparr>ov_proofs := (ov_proofs (ow_inner w))(job \<mapsto> proof)\<rparr>"
proof -
  let ?pause = "from_secs (oa_poll_secs args)" and ?deadline = "ow_now w + from_secs (oa_timeout_secs args)"
  let ?v = "round_world sp (from_secs (oa_poll_secs args)) w"
  let ?pl = "openvm_poll_client (host_against sp he) (presigned_url (sp_cfg sp) []) job args"
  let ?s = "(ow_inner w)\<lparr>ov_proofs := (ov_proofs (ow_inner w))(job \<mapsto> proof)\<rparr>"
  note seg = plain_id_segment [OF assms(3)]
  have status: "pl_status ?pl u = (Inr r, served sp s' u)"
    if answer: "\<exists>cs. (openvm_handle_proof_status (sp_cfg sp) (sp_env sp (ow_count u)) job (ow_inner u) :: _ \<times> _ \<times> unit cmds) =
         (Ph_Done (HttpOk r), s', cs)" and quick: "sp_latency sp (ow_count u) < request_timeout" for u r s'
  proof -
    obtain cs where "(openvm_handle_proof_status (sp_cfg sp) (sp_env sp (ow_count u)) job (ow_inner u) :: _ \<times> _ \<times> unit cmds) =
        (Ph_Done (HttpOk r), s', cs)" using answer by blast
    then show ?thesis
      using openvm_call [OF assms(1,2) client_paths(4) [OF seg(1)], where w = u and body = B_None and m = GET
          and r = "R_Status r" and s' = s' and sel = the_status] seg quick
      by (simp add: openvm_poll_client_def presigned_url_base)
  qed
  have in_time: "ow_now (?v i) < ?deadline" if "i \<le> k" for i
  proof -
    have "(\<Sum>n<i. sp_latency sp (ow_count w + n) + ?pause) \<le> (\<Sum>n<k. sp_latency sp (ow_count w + n) + ?pause)"
      using that by (intro sum_mono2) auto
    with assms(12) show ?thesis by (simp add: round_world_def)
  qed
  have running: "\<exists>res w1. pl_status ?pl (?v i) = (Inr res, w1) \<and> sr_status res = ''RUNNING'' \<and> ?v (Suc i) = pl_sleep ?pl ?pause w1"
    if i: "i < k" for i
  proof -
    obtain st where "\<exists>cs. (openvm_handle_proof_status (sp_cfg sp) (sp_env sp (ow_count (?v i))) job (ow_inner (?v i))
        :: _ \<times> _ \<times> unit cmds) = (Ph_Done (HttpOk (response_running st)), ow_inner w, cs)"
      using status_running [OF assms(4-6) assms(8) [OF i], of "sp_cfg sp"] unfolding round_world_simps by blast
    from status [OF this] show ?thesis
      using assms(13) [of i] i round_world_simps(4) [of sp w ?pause i] by (simp add: response_running_def openvm_poll_client_def)
  qed
  have last: "pl_status ?pl (?v k) = (Inr (response_succeeded (presigned_url (sp_cfg sp) (''/proofs/'' @ job @ ''/download''))), served sp ?s (?v k))"
    using status_fulfilled [OF assms(4-6,9,7,10,11)] assms(13) [of k] by (intro status) (simp_all add: openvm_succeeded_def)
  have download: "pl_download ?pl (presigned_url (sp_cfg sp) (''/proofs/'' @ job @ ''/download'')) (served sp ?s (?v k)) =
      (Inr proof, served sp ?s (served sp ?s (?v k)))"
    using openvm_call [OF assms(1,2) openvm_paths(3) [OF assms(3)], where w = "served sp ?s (?v k)" and body = B_None and m = GET
        and r = "R_Bytes proof" and s' = ?s and sel = the_bytes] seg assms(13) [of "Suc k"]
    by (simp add: openvm_poll_client_def handle_proof_download_def)
  have now: "pl_now ?pl = ow_now" by (simp add: openvm_poll_client_def)
  have "poll_loop (k + Suc fuel) ?pl ?deadline ?pause (?v 0) = poll_loop (Suc fuel) ?pl ?deadline ?pause (?v k)"
    by (rule poll_loop_rounds) (use in_time running now in \<open>auto\<close>)
  also have "\<dots> = Some (Inr proof, served sp ?s (served sp ?s (?v k)))"
    using in_time [of k] last download now by (simp add: response_succeeded_def)
  finally show ?thesis
    unfolding poll_job_def poll_until_def now by simp
qed

text \<open>A poll that the client gives up on ends the test with an error, whatever the surface has stored by then.\<close>

lemma late_poll_fails:
  assumes "request_timeout \<le> sp_latency sp (ow_count w)"
  shows "\<exists>e w'. poll_job (Suc fuel) (host_against sp he) base job args w = Some (Inl e, w')"
proof -
  let ?url = "base @ ''/proofs/status/'' @ job"
  obtain e where "fst (openvm_serve sp GET ?url B_None w) = Inl e"
    using openvm_serve_late [OF assms, of GET ?url B_None] by blast
  then have "\<exists>e w1. pl_status (openvm_poll_client (host_against sp he) base job args) w = (Inl e, w1)"
    by (auto simp: openvm_poll_client_def http_call_def split: prod.split sum.split)
  then show ?thesis by (auto simp: poll_job_def poll_until_def)
qed

section \<open>The public values\<close>

lemma length_le_bytes: "length (to_le_bytes w) = 4"
  by (simp add: to_le_bytes_def)

lemma guest_values:
  "length (openvm_guest n) = 32"
  "take 4 (openvm_guest n) = to_le_bytes n"
  "take 4 (drop 4 (openvm_guest n)) = to_le_bytes (fst (fibonacci n))"
  "take 4 (drop 8 (openvm_guest n)) = to_le_bytes (snd (fibonacci n))"
  by (simp_all add: openvm_guest_def length_le_bytes split: prod.split)

lemma check_guest_values: "check_public_values args (openvm_guest (oa_n args)) = Inr ()"
  by (simp add: check_public_values_def guest_values le_bytes_roundtrip split: prod.split)

lemma risc0_host_verified:
  assumes "risc0_host_verify he args b = Inr ()"
  shows "\<exists>x. rh_decode_receipt he b = Inr x \<and> rh_verify he x = Inr () \<and> rh_journal he x = Inr (risc0_guest (ra_n args))"
proof (cases "rh_decode_receipt he b")
  case (Inr x)
  obtain a c where f: "fibonacci (ra_n args) = (a, c)" by (cases "fibonacci (ra_n args)")
  from Inr f assms show ?thesis
    by (cases "rh_verify he x"; cases "rh_journal he x")
      (simp_all add: risc0_host_verify_def risc0_guest_def split: prod.splits if_splits)
qed (use assms in \<open>simp add: risc0_host_verify_def\<close>)

section \<open>Properties\<close>

text \<open>C36. The OpenVM integration test passes against the surface: when the created job is routed, the registry reports it
  running for \<open>k\<close> polls and then fulfilled with a proof that the local worker accepts, the last poll starts before the
  deadline, each of the \<open>7 + k\<close> requests (five to submit the job, the polls, the download) is answered within the
  600 seconds the client waits, the poll during which the proof is verified and the download included, and that
  proof decodes to the public values the guest reveals, then the host ends with success and the proof is stored.\<close>

theorem openvm_host_passes:
  fixes he :: "(openvm_world, 'x) openvm_host_env"
  assumes "host_setting sp he args" "oe_up (sp_env sp (ow_count w + 4))" "ov_proofs (ow_inner w) (host_job_id sp w) = None"
    "\<And>i. i < k \<Longrightarrow> poll_running (sp_env sp (ow_count w + 5 + i)) (oj_request_id (host_job sp he args w))"
    "poll_fulfilled (sp_env sp (ow_count w + 5 + k)) (oj_request_id (host_job sp he args w)) proof"
    "oe_join_ok (sp_env sp (ow_count w + 5 + k))"
    "verify_openvm_proof (oe_calls (sp_env sp (ow_count w + 5 + k)) (verify_request (host_job sp he args w) (oh_elf he) proof)) = Inr ()"
    "(\<Sum>i<k. sp_latency sp (ow_count w + 5 + i) + from_secs (oa_poll_secs args)) < from_secs (oa_timeout_secs args)"
    "openvm_host_values he args proof = Inr (openvm_guest (oa_n args))"
    "\<And>i. i < 7 + k \<Longrightarrow> sp_latency sp (ow_count w + i) < request_timeout"
  shows "\<exists>w'. openvm_host (k + Suc fuel) (host_against sp he) args w = Some (Inr (), w') \<and>
     handle_proof_download (host_job_id sp w) (ow_inner w') = HttpOk proof"
proof -
  have st: "CHR ''/'' \<notin> set (sc_ip (sp_cfg sp))" "decodes (sp_dec sp)" "plain_id (host_job_id sp w)" "oh_client he = Inr ()"
    "trim_end_slash (oa_openvm_url args) = presigned_url (sp_cfg sp) []"
    using assms(1) by (auto simp: host_setting_def host_job_id_def)
  have submitted: "openvm_host_submit (host_against sp he) (presigned_url (sp_cfg sp) []) args w =
      (Inr (host_job_id sp w), host_submitted sp he args w)"
    using assms(10) by (intro host_submits [OF assms(1,2)]) simp
  have quick: "sp_latency sp (ow_count w + 5 + i) < request_timeout" if "i < k + 2" for i
    using assms(10) [of "5 + i"] that by (simp add: add.assoc)
  let ?w = "host_submitted sp he args w"
  have count: "ow_count ?w = ow_count w + 5" and inner: "ow_inner ?w = host_created sp he args w"
    by (simp_all add: host_submitted_def)
  have job: "ov_jobs (ow_inner ?w) (host_job_id sp w) = Some (host_job sp he args w)" "oj_terminal_error (host_job sp he args w) = None"
    "ov_proofs (ow_inner ?w) (host_job_id sp w) = None"
    "ov_programs (ow_inner ?w) (oj_program_id (host_job sp he args w)) = Some (oh_elf he)"
    using assms(3) by (simp_all add: inner host_created_def host_job_def)
  obtain w' where polled: "poll_job (k + Suc fuel) (host_against sp he) (presigned_url (sp_cfg sp) []) (host_job_id sp w) args ?w =
      Some (Inr proof, w')" "ow_inner w' = (ow_inner ?w)\<lparr>ov_proofs := (ov_proofs (ow_inner ?w))(host_job_id sp w \<mapsto> proof)\<rparr>"
    using host_polls [OF st(1-3) job, of k "proof" args fuel he] assms(4-8) quick unfolding count by blast
  have "openvm_host (k + Suc fuel) (host_against sp he) args w = Some (Inr (), w')"
    unfolding openvm_host_def Let_def st(5) host_against_simps st(4) sum.case submitted prod.case polled(1) option.case
    using assms(9) by (simp add: openvm_host_verify_def check_guest_values)
  with polled(2) show ?thesis by (simp add: handle_proof_download_def)
qed

text \<open>The host always ends, whatever the surface answers and however long its answers take: by the deadline, after at
  most one poll more than there are pauses in the timeout, it has the proof, the failure or its own timeout error.\<close>

theorem openvm_host_ends:
  fixes he :: "(openvm_world, 'x) openvm_host_env"
  assumes "oa_timeout_secs args \<le> fuel * oa_poll_secs args"
  shows "\<exists>r w'. openvm_host (Suc fuel) (host_against sp he) args w = Some (r, w')"
proof -
  have "poll_job (Suc fuel) (host_against sp he) base job args u \<noteq> None" for base job u
    unfolding poll_job_def by (rule openvm_clock.poll_until_ends [OF assms])
  then have "openvm_host (Suc fuel) (host_against sp he) args w \<noteq> None"
    by (simp add: openvm_host_def Let_def split: sum.split prod.split option.split del: not_None_eq)
  then show ?thesis by auto
qed

text \<open>A host that reports success has decoded, from the proof it downloaded, public values that begin with its own
  \<open>n\<close> and with the Fibonacci number of \<open>n\<close> and its successor modulo \<open>2 ^ 32\<close>; in app mode the proof was verified and
  is one of the host's own program.\<close>

theorem openvm_host_sound:
  assumes "openvm_host fuel he args w = Some (Inr (), w')"
  shows "\<exists>b pv. openvm_host_values he args b = Inr pv \<and> 12 \<le> length pv \<and>
     from_le_bytes (take 4 pv) = oa_n args \<and>
     from_le_bytes (take 4 (drop 4 pv)) = of_nat (fib (unat (oa_n args))) \<and>
     from_le_bytes (take 4 (drop 8 pv)) = of_nat (fib (Suc (unat (oa_n args)))) \<and>
     (oa_proof_mode args \<noteq> ''app'' \<or> (\<exists>x c. oh_decode_app he b = Inr x \<and> oh_verify_app he x = Inr c \<and> oh_local_commit he = Inr c))"
proof -
  obtain b pv where pv: "openvm_host_values he args b = Inr pv" "check_public_values args pv = Inr ()"
    using assms by (auto simp: openvm_host_def Let_def openvm_host_verify_def split: sum.splits prod.splits option.splits)
  have "\<exists>x c. oh_decode_app he b = Inr x \<and> oh_verify_app he x = Inr c \<and> oh_local_commit he = Inr c" if "oa_proof_mode args = ''app''"
    using pv(1) that by (auto simp: openvm_host_values_def verify_app_def split: sum.splits if_splits)
  with pv show ?thesis
    by (intro exI [of _ b] exI [of _ pv]) (auto simp: check_public_values_def fibonacci_exact split: if_splits)
qed

text \<open>C37. The RISC Zero host, over any network whose requests and pauses move the clock forward: it ends within the
  bound, and when it reports success it has verified a receipt whose journal is the output of the guest, its own \<open>n\<close>
  with the Fibonacci number of \<open>n\<close> and its successor modulo \<open>2 ^ 32\<close>; with \<open>--wrap-snark\<close> as well.\<close>

theorem risc0_host_exact:
  assumes "\<And>d w. rh_now he w + d \<le> rh_now he (rh_sleep he d w)"
    "\<And>i w. rh_now he w \<le> rh_now he (snd (rh_session_status he i w))"
    "\<And>m u b w. rh_now he w \<le> rh_now he (snd (rh_send he m u b w))"
    "ra_timeout_secs args \<le> fuel * ra_poll_secs args"
  shows "\<exists>r w'. risc0_host (Suc fuel) he args w = Some (r, w') \<and>
     (r = Inr () \<longrightarrow> (\<exists>b x. rh_decode_receipt he b = Inr x \<and> rh_verify he x = Inr () \<and> rh_journal he x = Inr (risc0_guest (ra_n args)) \<and>
        risc0_guest (ra_n args) = (ra_n args, of_nat (fib (unat (ra_n args))), of_nat (fib (Suc (unat (ra_n args)))))))"
proof -
  have session: "poll_clock (session_poll_client he session args)" for session
    by unfold_locales (use assms(1,2) in \<open>simp_all add: session_poll_client_def error_prefix_def\<close>)
  have snark: "poll_clock (snark_poll_client he base snark args)" for base snark
    by unfold_locales (use assms(1,3) in \<open>simp_all add: snark_poll_client_def http_call_snd\<close>)
  have "poll_session (Suc fuel) he session args u \<noteq> None" for session u
    unfolding poll_session_def by (rule poll_clock.poll_until_ends [OF session assms(4)])
  moreover have "wrap_and_download (Suc fuel) he args session u \<noteq> None" for session u
    using poll_clock.poll_until_ends [OF snark assms(4)]
    by (simp add: wrap_and_download_def Let_def split: prod.split sum.split del: not_None_eq)
  ultimately have "risc0_host (Suc fuel) he args w \<noteq> None"
    by (simp add: risc0_host_def split: sum.split prod.split option.split del: not_None_eq)
  then obtain r w' where run: "risc0_host (Suc fuel) he args w = Some (r, w')" by auto
  have "\<exists>b. risc0_host_verify he args b = Inr ()" if "r = Inr ()"
    using run that by (auto simp: risc0_host_def split: sum.splits prod.splits option.splits)
  then have "\<exists>b x. rh_decode_receipt he b = Inr x \<and> rh_verify he x = Inr () \<and> rh_journal he x = Inr (risc0_guest (ra_n args))"
    if "r = Inr ()" using that risc0_host_verified by blast
  with run show ?thesis by (auto simp: risc0_guest_def fibonacci_exact)
qed

text \<open>A surface and a host for the examples: one poll finds the job running, the next one the proof.\<close>

definition demo_params :: server_params where
  "demo_params = \<lparr>sp_cfg = demo_cfg, sp_dec = id, sp_streams = (\<lambda>_. Some [to_le_bytes 10]),
     sp_env = (\<lambda>k. demo_openvm_env k (if k < 6 then Received (Some (demo_report\<lparr>cps_execution_status := execution_status_i32 Unexecuted\<rparr>))
                                     else Received (Some demo_report))),
     sp_latency = (\<lambda>_. 1), sp_cut_off = (\<lambda>_ s. s)\<rparr>"

definition demo_host :: "(openvm_world, unit) openvm_host_env" where
  "demo_host = \<lparr>oh_send = (\<lambda>_ _ _ w. (Inl [], w)), oh_now = ow_now, oh_sleep = (\<lambda>_ w. w), oh_client = Inr (), oh_elf = [1],
     oh_program_id = ''p'', oh_bincode = (\<lambda>_. Some [7]), oh_decode_app = (\<lambda>_. Inl []), oh_verify_app = (\<lambda>_. Inl []),
     oh_local_commit = Inl [], oh_decode_stark = (\<lambda>_. Inr ()), oh_public_values = (\<lambda>_. map unat (openvm_guest 10)),
     oh_json = (\<lambda>_. Inl []), oh_hex_decode = (\<lambda>_. Inl [])\<rparr>"

definition demo_args :: openvm_host_args where
  "demo_args = \<lparr>oa_n = 10, oa_openvm_url = ''http://h:1/openvm/'', oa_proof_mode = ''stark'', oa_timeout_secs = 1800, oa_poll_secs = 3\<rparr>"

definition demo_world :: openvm_world where
  "demo_world = \<lparr>ow_inner = openvm_state_new, ow_now = 0, ow_count = 0\<rparr>"

lemma demo_host_setting: "host_setting demo_params demo_host demo_args"
  by (simp add: host_setting_def demo_params_def demo_host_def demo_args_def demo_cfg_def demo_openvm_env_def decodes_def
      presigned_url_def trim_end_slash_def parse_openvm_proof_mode_def to_ascii_lowercase_def ascii_lower_def)

lemma demo_host_values: "openvm_host_values demo_host demo_args b = Inr (openvm_guest (oa_n demo_args))"
proof -
  have "unat x < 256" for x :: u8
    using unsigned_less [of x, where 'a = nat] by simp
  then have "list_all (\<lambda>f. f < 256) (map unat (xs :: bytes))" for xs
    by (simp add: list_all_iff)
  then show ?thesis
    by (simp add: openvm_host_values_def demo_args_def decode_stark_public_values_def demo_host_def field_bytes_def comp_def)
qed

theorem openvm_host_passes_witness:
  "\<exists>w'. openvm_host 2 (host_against demo_params demo_host) demo_args demo_world = Some (Inr (), w') \<and>
     handle_proof_download ''j'' (ow_inner w') = HttpOk [9]"
proof -
  let ?j = "host_job demo_params demo_host demo_args demo_world"
  have poll: "poll_running (sp_env demo_params (ow_count demo_world + 5 + 0)) (oj_request_id ?j)"
    "poll_fulfilled (sp_env demo_params (ow_count demo_world + 5 + 1)) (oj_request_id ?j) [9]"
    by (simp_all add: poll_running_def poll_fulfilled_def demo_params_def demo_world_def demo_step_defs)
  have "verify_openvm_proof (oe_calls (sp_env demo_params (ow_count demo_world + 5 + 1)) (verify_request ?j (oh_elf demo_host) [9])) = Inr ()"
    by (simp add: demo_params_def demo_openvm_env_def verify_request_def)
  from openvm_host_passes [OF demo_host_setting _ _ _ poll(2) _ this _ demo_host_values, of 0] poll(1)
  show ?thesis
    by (simp add: demo_params_def demo_openvm_env_def demo_world_def openvm_state_new_def host_job_id_def demo_args_def from_secs_def
        nanos_per_sec_def numeral_2_eq_2 request_timeout_def)
qed

theorem openvm_host_ends_witness:
  "\<exists>r w'. openvm_host 601 (host_against demo_params demo_host) demo_args demo_world = Some (r, w')"
  using openvm_host_ends [of demo_args 600 demo_params demo_host demo_world] by (simp add: demo_args_def)

text \<open>A server that answers each request of the host at once.\<close>

definition demo_send :: "unit http_send" where
  "demo_send m url body w = (Inr (200,
     if m = PUT then R_Empty else if m = POST then R_Uuid ''j''
     else if url = ''b/inputs/upload'' then R_Uuid_Url ''i'' ''u''
     else if url = ''b/proofs/status/j'' then R_Status (response_succeeded ''d'')
     else if url = ''d'' then R_Bytes [9] else R_Url ''u''), w)"

definition demo_app_host :: "(unit, unit) openvm_host_env" where
  "demo_app_host = \<lparr>oh_send = demo_send, oh_now = (\<lambda>_. 0), oh_sleep = (\<lambda>_ w. w), oh_client = Inr (), oh_elf = [1],
     oh_program_id = ''p'', oh_bincode = (\<lambda>_. Some [7]), oh_decode_app = (\<lambda>b. if b = [9] then Inr () else Inl []),
     oh_verify_app = Inr, oh_local_commit = Inr (), oh_decode_stark = (\<lambda>_. Inl []),
     oh_public_values = (\<lambda>_. [3, 0, 0, 0, 2, 0, 0, 0, 3, 0, 0, 0]), oh_json = (\<lambda>_. Inl []), oh_hex_decode = (\<lambda>_. Inl [])\<rparr>"

definition demo_app_args :: openvm_host_args where
  "demo_app_args = \<lparr>oa_n = 3, oa_openvm_url = ''b/'', oa_proof_mode = ''app'', oa_timeout_secs = 1800, oa_poll_secs = 3\<rparr>"

lemma demo_app_values: "check_public_values demo_app_args [3, 0, 0, 0, 2, 0, 0, 0, 3, 0, 0, 0] = Inr ()"
  by code_simp

lemma demo_app_run: "openvm_host 1 demo_app_host demo_app_args () = Some (Inr (), ())"
proof -
  have "openvm_host_verify demo_app_host demo_app_args [9] = Inr ()"
    using demo_app_values by (simp add: openvm_host_verify_def openvm_host_values_def verify_app_def field_bytes_def demo_app_host_def demo_app_args_def)
  moreover have "trim_end_slash (oa_openvm_url demo_app_args) = ''b''"
    by (simp add: trim_end_slash_def demo_app_args_def)
  moreover have "openvm_host_submit demo_app_host ''b'' demo_app_args () = (Inr ''j'', ())"
    by (simp add: openvm_host_submit_def http_call_def demo_app_host_def demo_send_def)
  moreover have "poll_job 1 demo_app_host ''b'' ''j'' demo_app_args () = Some (Inr [9], ())"
    by (simp add: poll_job_def poll_until_def openvm_poll_client_def http_call_def demo_app_host_def demo_send_def demo_app_args_def
        response_succeeded_def from_secs_def nanos_per_sec_def)
  ultimately show ?thesis by (simp add: openvm_host_def demo_app_host_def)
qed

theorem openvm_host_sound_witness:
  "\<exists>b x c. oh_decode_app demo_app_host b = Inr x \<and> oh_verify_app demo_app_host x = Inr c \<and> oh_local_commit demo_app_host = Inr c"
  using openvm_host_sound [OF demo_app_run] by (auto simp: demo_app_args_def)

text \<open>A Bonsai client whose wrap succeeds at once.\<close>

definition demo_risc0_host :: "(nat, unit) risc0_host_env" where
  "demo_risc0_host = \<lparr>rh_send = (\<lambda>m u b w. (Inr (200, if m = POST then R_Uuid ''s'' else if u = ''d'' then R_Bytes [9] else R_Status (response_succeeded ''d'')), w)),
     rh_now = id, rh_sleep = (\<lambda>d w. w + d), rh_client = Inr (), rh_upload_img = (\<lambda>_ _ w. (Inr (), w)),
     rh_upload_input = (\<lambda>_ w. (Inr ''i'', w)), rh_session_status = (\<lambda>_ w. (Inr (response_succeeded ''d''), w)),
     rh_download = (\<lambda>_ w. (Inr [8], w)), rh_elf = [1], rh_image_id_hex = ''p'', rh_serialize = (\<lambda>_. Inr [7]),
     rh_decode_receipt = (\<lambda>b. if b = [9] then Inr () else Inl []), rh_verify = Inr, rh_journal = (\<lambda>_. Inr (risc0_guest 10))\<rparr>"

definition demo_risc0_args :: risc0_host_args where
  "demo_risc0_args = \<lparr>ra_n = 10, ra_bonsai_url = ''b'', ra_proof_mode = ''succinct'', ra_wrap_snark = True, ra_timeout_secs = 3, ra_poll_secs = 3\<rparr>"

lemma demo_risc0_run: "risc0_host 2 demo_risc0_host demo_risc0_args 0 = Some (Inr (), 0)"
proof -
  have "risc0_host_verify demo_risc0_host demo_risc0_args [9] = Inr ()"
    by (simp add: risc0_host_verify_def demo_risc0_host_def demo_risc0_args_def risc0_guest_def split: prod.split)
  moreover have "risc0_host_submit demo_risc0_host demo_risc0_args 0 = (Inr ''s'', 0)"
    by (simp add: risc0_host_submit_def error_prefix_def http_call_def demo_risc0_host_def)
  moreover have "poll_session 2 demo_risc0_host ''s'' demo_risc0_args 0 = Some (Inr [8], 0)"
    by (simp add: poll_session_def poll_until_def session_poll_client_def error_prefix_def demo_risc0_host_def demo_risc0_args_def
        response_succeeded_def from_secs_def nanos_per_sec_def numeral_2_eq_2)
  moreover have "wrap_and_download 2 demo_risc0_host demo_risc0_args ''s'' 0 = Some (Inr [9], 0)"
    by (simp add: wrap_and_download_def poll_until_def snark_poll_client_def http_call_def demo_risc0_host_def demo_risc0_args_def
        trim_end_slash_def response_succeeded_def from_secs_def nanos_per_sec_def numeral_2_eq_2)
  moreover have "ra_wrap_snark demo_risc0_args" by (simp add: demo_risc0_args_def)
  ultimately show ?thesis by (simp add: risc0_host_def)
qed

theorem risc0_host_exact_witness:
  "\<exists>b x. rh_decode_receipt demo_risc0_host b = Inr x \<and> rh_verify demo_risc0_host x = Inr () \<and>
     rh_journal demo_risc0_host x = Inr (risc0_guest 10)"
proof -
  have "\<exists>r w'. risc0_host (Suc 1) demo_risc0_host demo_risc0_args 0 = Some (r, w') \<and>
     (r = Inr () \<longrightarrow> (\<exists>b x. rh_decode_receipt demo_risc0_host b = Inr x \<and> rh_verify demo_risc0_host x = Inr () \<and>
        rh_journal demo_risc0_host x = Inr (risc0_guest (ra_n demo_risc0_args)) \<and>
        risc0_guest (ra_n demo_risc0_args) = (ra_n demo_risc0_args, of_nat (fib (unat (ra_n demo_risc0_args))),
          of_nat (fib (Suc (unat (ra_n demo_risc0_args)))))))"
    by (rule risc0_host_exact) (simp_all add: demo_risc0_host_def demo_risc0_args_def)
  with demo_risc0_run show ?thesis by (auto simp: demo_risc0_args_def numeral_2_eq_2)
qed

end
