(* ===== verification/Sp1_Host.thy ===== *)
theory Sp1_Host
  imports Fibonacci Worker_Keys
begin

text \<open>
  The SP1 integration test: the guest (\<^verbatim>\<open>sp1-fibonacci/program/src/main.rs\<close>), the layout of its public values
  (\<^verbatim>\<open>sp1-fibonacci/lib/src/lib.rs\<close>) and the driver (\<^verbatim>\<open>sp1-fibonacci/script/src/bin/evm.rs\<close>), which asks the network
  prover of \<^verbatim>\<open>sp1_sdk\<close> for a proof, verifies it and writes a fixture for the modes with an on-chain verifier.
\<close>

section \<open>Guest and public values\<close>

record public_values_struct =
  pvs_n :: u32
  pvs_a :: u32
  pvs_b :: u32

definition sp1_guest :: "(public_values_struct \<Rightarrow> bytes) \<Rightarrow> u32 \<Rightarrow> bytes" where
  "sp1_guest abi_encode n = (let (a, b) = fibonacci n in abi_encode \<lparr>pvs_n = n, pvs_a = a, pvs_b = b\<rparr>)"

section \<open>The driver\<close>

datatype proof_system = Ps_Core | Ps_Compressed | Ps_Plonk | Ps_Groth16

fun debug_proof_system :: "proof_system \<Rightarrow> string" where
  "debug_proof_system Ps_Core = ''Core''"
| "debug_proof_system Ps_Compressed = ''Compressed''"
| "debug_proof_system Ps_Plonk = ''Plonk''"
| "debug_proof_system Ps_Groth16 = ''Groth16''"

record evm_args =
  ea_n :: u32
  ea_system :: proof_system

record sp1_fixture =
  fx_a :: u32
  fx_b :: u32
  fx_n :: u32
  fx_vkey :: string
  fx_public_values :: string
  fx_proof :: string

text \<open>
  The network prover, the codecs and the file system. \<open>nc_build\<close>: whether the client can be built; \<open>nc_proof_bytes\<close>:
  the bytes for a contract, a panic (\<open>None\<close>) for a proof that has none.
\<close>

record ('k, 'v, 'p) network_client =
  nc_build :: "string + unit"
  nc_setup :: "bytes \<Rightarrow> string + 'k"
  nc_verifying_key :: "'k \<Rightarrow> 'v"
  nc_stdin :: "u32 \<Rightarrow> bytes"
  nc_prove :: "proof_system \<Rightarrow> 'k \<Rightarrow> bytes \<Rightarrow> string + 'p"
  nc_verify :: "'p \<Rightarrow> 'v \<Rightarrow> string + unit"
  nc_public_values :: "'p \<Rightarrow> bytes"
  nc_proof_bytes :: "'p \<Rightarrow> bytes option"
  nc_bytes32 :: "'v \<Rightarrow> string"
  nc_abi_decode :: "bytes \<Rightarrow> string + public_values_struct"
  nc_json :: "sp1_fixture \<Rightarrow> string + bytes"
  nc_create_dir_all :: "string \<Rightarrow> string + unit"
  nc_write :: "string \<Rightarrow> string + unit"

text \<open>What the driver has printed, and the files.\<close>

record driver_world =
  dw_out :: "string list"
  dw_files :: "string \<rightharpoonup> bytes"

definition print_line :: "string \<Rightarrow> driver_world \<Rightarrow> driver_world" where
  "print_line l w = w\<lparr>dw_out := dw_out w @ [l]\<rparr>"

definition hex_encode :: "bytes \<Rightarrow> string" where
  "hex_encode bs = concat (map hex_byte bs)"

definition fixture_path :: "string \<Rightarrow> string" where
  "fixture_path manifest_dir = manifest_dir @ ''/../contracts/src/fixtures''"

definition fixture_file :: "string \<Rightarrow> proof_system \<Rightarrow> string" where
  "fixture_file manifest_dir system =
     fixture_path manifest_dir @ ''/'' @ to_ascii_lowercase (debug_proof_system system @ ''-fixture.json'')"

text \<open>Every \<^verbatim>\<open>expect\<close> and \<^verbatim>\<open>unwrap\<close> is a panic with its text.\<close>

definition create_proof_fixture ::
    "('k, 'v, 'p) network_client \<Rightarrow> string \<Rightarrow> 'p \<Rightarrow> 'v \<Rightarrow> proof_system \<Rightarrow> driver_world \<Rightarrow> (string + unit) \<times> driver_world" where
  "create_proof_fixture nc manifest_dir pf vk system w =
     (let bytes = nc_public_values nc pf in
      case nc_abi_decode nc bytes of
        Inl e \<Rightarrow> (Inl e, w)
      | Inr pv \<Rightarrow> (case nc_proof_bytes nc pf of
          None \<Rightarrow> (Inl ''no bytes for this proof'', w)
        | Some pb \<Rightarrow>
            (let fixture = \<lparr>fx_a = pvs_a pv, fx_b = pvs_b pv, fx_n = pvs_n pv, fx_vkey = nc_bytes32 nc vk,
                   fx_public_values = ''0x'' @ hex_encode bytes, fx_proof = ''0x'' @ hex_encode pb\<rparr>;
                 w1 = print_line (''Proof Bytes: '' @ fx_proof fixture)
                   (print_line (''Public Values: '' @ fx_public_values fixture)
                     (print_line (''Verification Key: '' @ fx_vkey fixture) w));
                 file = fixture_file manifest_dir system
             in (case nc_create_dir_all nc (fixture_path manifest_dir) of
                   Inl e \<Rightarrow> (Inl (''failed to create fixture path: '' @ e), w1)
                 | Inr _ \<Rightarrow> (case nc_json nc fixture of
                     Inl e \<Rightarrow> (Inl e, w1)
                   | Inr json \<Rightarrow> (case nc_write nc file of
                       Inl e \<Rightarrow> (Inl (''failed to write fixture: '' @ e), w1)
                     | Inr _ \<Rightarrow> (Inr (), w1\<lparr>dw_files := (dw_files w1)(file \<mapsto> json)\<rparr>)))))))"

definition ok_line :: "evm_args \<Rightarrow> string" where
  "ok_line args = ''OK sp1 fibonacci(n='' @ show_nat (unat (ea_n args)) @ '') verified client-side [system='' @
     debug_proof_system (ea_system args) @ '']''"

definition evm_driver ::
    "('k, 'v, 'p) network_client \<Rightarrow> bytes \<Rightarrow> string \<Rightarrow> evm_args \<Rightarrow> driver_world \<Rightarrow> (string + unit) \<times> driver_world" where
  "evm_driver nc elf manifest_dir args w0 =
     (let w1 = print_line (''Proof System: '' @ debug_proof_system (ea_system args))
                 (print_line (''n: '' @ show_nat (unat (ea_n args))) w0) in
      case nc_build nc of
        Inl e \<Rightarrow> (Inl e, w1)
      | Inr _ \<Rightarrow> (case nc_setup nc elf of
          Inl e \<Rightarrow> (Inl (''failed to set up program: '' @ e), w1)
        | Inr pk \<Rightarrow> (case nc_prove nc (ea_system args) pk (nc_stdin nc (ea_n args)) of
            Inl e \<Rightarrow> (Inl (''failed to generate proof: '' @ e), w1)
          | Inr pf \<Rightarrow> (case nc_verify nc pf (nc_verifying_key nc pk) of
              Inl e \<Rightarrow> (Inl (''proof verification failed: '' @ e), w1)
            | Inr _ \<Rightarrow>
                (let w2 = print_line (ok_line args) w1 in
                 if ea_system args = Ps_Plonk \<or> ea_system args = Ps_Groth16
                 then create_proof_fixture nc manifest_dir pf (nc_verifying_key nc pk) (ea_system args) w2
                 else (Inr (), w2))))))"

section \<open>Facts\<close>

text \<open>A verifier that accepts only proofs of runs of the guest, with a decoder that inverts the encoder.\<close>

definition guest_proofs :: "(public_values_struct \<Rightarrow> bytes) \<Rightarrow> bytes \<Rightarrow> ('k, 'v, 'p) network_client \<Rightarrow> bool" where
  "guest_proofs abi_encode elf nc \<longleftrightarrow> (\<forall>pv. nc_abi_decode nc (abi_encode pv) = Inr pv) \<and>
     (\<forall>pk pf. nc_setup nc elf = Inr pk \<longrightarrow> nc_verify nc pf (nc_verifying_key nc pk) = Inr () \<longrightarrow>
        (\<exists>m. nc_public_values nc pf = sp1_guest abi_encode m))"

lemma evm_driver_cases:
  assumes "evm_driver nc elf dir args w = (Inr (), w')"
  obtains pk pf w2 where "nc_setup nc elf = Inr pk" "nc_prove nc (ea_system args) pk (nc_stdin nc (ea_n args)) = Inr pf"
    "nc_verify nc pf (nc_verifying_key nc pk) = Inr ()" "ok_line args \<in> set (dw_out w2)" "dw_files w2 = dw_files w"
    "(ea_system args = Ps_Plonk \<or> ea_system args = Ps_Groth16) \<and>
       create_proof_fixture nc dir pf (nc_verifying_key nc pk) (ea_system args) w2 = (Inr (), w') \<or>
     \<not> (ea_system args = Ps_Plonk \<or> ea_system args = Ps_Groth16) \<and> w' = w2"
proof (cases "nc_build nc")
  case (Inr u)
  note build = Inr
  show thesis
  proof (cases "nc_setup nc elf")
    case (Inr pk)
    note keys = Inr
    show thesis
    proof (cases "nc_prove nc (ea_system args) pk (nc_stdin nc (ea_n args))")
      case (Inr pf)
      note prove = Inr
      show thesis
      proof (cases "nc_verify nc pf (nc_verifying_key nc pk)")
        case (Inr v)
        show thesis
          by (rule that [OF keys prove, of "print_line (ok_line args)
              (print_line (''Proof System: '' @ debug_proof_system (ea_system args)) (print_line (''n: '' @ show_nat (unat (ea_n args))) w))"])
            (use assms build keys prove Inr in \<open>auto simp: evm_driver_def Let_def print_line_def split: if_splits\<close>)
      qed (use assms build keys prove in \<open>simp add: evm_driver_def Let_def\<close>)
    qed (use assms build keys in \<open>simp add: evm_driver_def Let_def\<close>)
  qed (use assms build in \<open>simp add: evm_driver_def Let_def\<close>)
qed (use assms in \<open>simp add: evm_driver_def Let_def\<close>)

lemma create_proof_fixture_ok:
  assumes "create_proof_fixture nc dir pf vk system w = (Inr (), w')" "nc_abi_decode nc (nc_public_values nc pf) = Inr pv"
  shows "\<exists>fixture json. nc_json nc fixture = Inr json \<and> fx_n fixture = pvs_n pv \<and> fx_a fixture = pvs_a pv \<and> fx_b fixture = pvs_b pv \<and>
     dw_files w' = (dw_files w)(fixture_file dir system \<mapsto> json) \<and> set (dw_out w) \<subseteq> set (dw_out w')"
proof (cases "nc_proof_bytes nc pf")
  case (Some pb)
  let ?fx = "\<lparr>fx_a = pvs_a pv, fx_b = pvs_b pv, fx_n = pvs_n pv, fx_vkey = nc_bytes32 nc vk,
    fx_public_values = ''0x'' @ hex_encode (nc_public_values nc pf), fx_proof = ''0x'' @ hex_encode pb\<rparr>"
  show ?thesis
  proof (cases "nc_json nc ?fx")
    case (Inr json)
    then show ?thesis
      using assms Some
      by (intro exI [of _ ?fx] exI [of _ json]; cases "nc_create_dir_all nc (fixture_path dir)"; cases "nc_write nc (fixture_file dir system)")
        (auto simp: create_proof_fixture_def Let_def print_line_def)
  qed (use assms Some in \<open>auto simp: create_proof_fixture_def Let_def split: sum.splits\<close>)
qed (use assms in \<open>simp add: create_proof_fixture_def Let_def\<close>)

section \<open>Properties\<close>

text \<open>When the SP1 driver succeeds, the network has returned a proof of the guest that verified, and the fixture of an
  EVM mode, the only file written, holds the input of the proven run with its Fibonacci number and successor modulo
  \<open>2 ^ 32\<close>.\<close>

theorem evm_driver_sound:
  assumes "guest_proofs abi_encode elf nc" "evm_driver nc elf dir args w = (Inr (), w')"
  shows "\<exists>pk pf m. nc_setup nc elf = Inr pk \<and> nc_verify nc pf (nc_verifying_key nc pk) = Inr () \<and>
     nc_public_values nc pf = sp1_guest abi_encode m \<and> ok_line args \<in> set (dw_out w') \<and>
     (if ea_system args = Ps_Plonk \<or> ea_system args = Ps_Groth16
      then \<exists>fixture json. nc_json nc fixture = Inr json \<and> fx_n fixture = m \<and> fx_a fixture = of_nat (fib (unat m)) \<and>
        fx_b fixture = of_nat (fib (Suc (unat m))) \<and> dw_files w' = (dw_files w)(fixture_file dir (ea_system args) \<mapsto> json)
      else dw_files w' = dw_files w)"
proof -
  obtain pk pf w2 where run: "nc_setup nc elf = Inr pk" "nc_prove nc (ea_system args) pk (nc_stdin nc (ea_n args)) = Inr pf"
    "nc_verify nc pf (nc_verifying_key nc pk) = Inr ()" "ok_line args \<in> set (dw_out w2)" "dw_files w2 = dw_files w"
    "(ea_system args = Ps_Plonk \<or> ea_system args = Ps_Groth16) \<and>
       create_proof_fixture nc dir pf (nc_verifying_key nc pk) (ea_system args) w2 = (Inr (), w') \<or>
     \<not> (ea_system args = Ps_Plonk \<or> ea_system args = Ps_Groth16) \<and> w' = w2"
    using evm_driver_cases [OF assms(2)] .
  obtain m where m: "nc_public_values nc pf = sp1_guest abi_encode m"
    using assms(1) run(1,3) unfolding guest_proofs_def by blast
  have dec: "nc_abi_decode nc (nc_public_values nc pf) =
      Inr \<lparr>pvs_n = m, pvs_a = of_nat (fib (unat m)), pvs_b = of_nat (fib (Suc (unat m)))\<rparr>"
    using assms(1) by (simp add: m sp1_guest_def fibonacci_exact guest_proofs_def)
  show ?thesis
  proof (cases "ea_system args = Ps_Plonk \<or> ea_system args = Ps_Groth16")
    case True
    with run(6) have "create_proof_fixture nc dir pf (nc_verifying_key nc pk) (ea_system args) w2 = (Inr (), w')" by blast
    from create_proof_fixture_ok [OF this dec] obtain fixture json where "nc_json nc fixture = Inr json" "fx_n fixture = m"
      "fx_a fixture = of_nat (fib (unat m))" "fx_b fixture = of_nat (fib (Suc (unat m)))"
      "dw_files w' = (dw_files w2)(fixture_file dir (ea_system args) \<mapsto> json)" "set (dw_out w2) \<subseteq> set (dw_out w')"
      by auto
    with True run(1,3,4,5) m show ?thesis by auto
  next
    case False
    with run m show ?thesis by auto
  qed
qed

text \<open>The driver does not compare the public values with its own input: any proof of the guest that verifies passes
  for any \<open>n\<close>, and the line with \<open>n\<close> is printed.\<close>

theorem evm_driver_any_input:
  assumes "nc_build nc = Inr ()" "nc_setup nc elf = Inr pk" "nc_prove nc Ps_Core pk (nc_stdin nc n) = Inr pf"
    "nc_verify nc pf (nc_verifying_key nc pk) = Inr ()" "nc_public_values nc pf = sp1_guest abi_encode m"
  shows "\<exists>w'. evm_driver nc elf dir \<lparr>ea_n = n, ea_system = Ps_Core\<rparr> w = (Inr (), w') \<and>
     ok_line \<lparr>ea_n = n, ea_system = Ps_Core\<rparr> \<in> set (dw_out w')"
  using assms(1-4) by (simp add: evm_driver_def Let_def print_line_def)

definition demo_network :: "(unit, unit, u32) network_client" where
  "demo_network = \<lparr>nc_build = Inr (), nc_setup = (\<lambda>_. Inr ()), nc_verifying_key = id, nc_stdin = (\<lambda>_. []),
     nc_prove = (\<lambda>_ _ _. Inr 0), nc_verify = (\<lambda>_ _. Inr ()),
     nc_public_values = (\<lambda>m. sp1_guest (\<lambda>pv. to_le_bytes (pvs_n pv) @ to_le_bytes (pvs_a pv) @ to_le_bytes (pvs_b pv)) m),
     nc_proof_bytes = (\<lambda>_. Some []), nc_bytes32 = (\<lambda>_. []),
     nc_abi_decode = (\<lambda>b. Inr \<lparr>pvs_n = from_le_bytes (take 4 b), pvs_a = from_le_bytes (take 4 (drop 4 b)),
       pvs_b = from_le_bytes (drop 8 b)\<rparr>),
     nc_json = (\<lambda>_. Inr []), nc_create_dir_all = (\<lambda>_. Inr ()), nc_write = (\<lambda>_. Inr ())\<rparr>"

definition demo_abi_encode :: "public_values_struct \<Rightarrow> bytes" where
  "demo_abi_encode pv = to_le_bytes (pvs_n pv) @ to_le_bytes (pvs_a pv) @ to_le_bytes (pvs_b pv)"

lemma demo_guest_proofs: "guest_proofs demo_abi_encode [] demo_network"
proof -
  have "length (to_le_bytes x) = 4" for x by (simp add: to_le_bytes_def)
  then show ?thesis
    by (auto simp: guest_proofs_def demo_network_def demo_abi_encode_def [abs_def] le_bytes_roundtrip)
qed

lemma demo_driver_run:
  "\<exists>w'. evm_driver demo_network [] [] \<lparr>ea_n = 20, ea_system = Ps_Groth16\<rparr> \<lparr>dw_out = [], dw_files = Map.empty\<rparr> = (Inr (), w')"
  by (simp add: evm_driver_def create_proof_fixture_def demo_network_def Let_def)

theorem evm_driver_sound_witness:
  "\<exists>m w' json. evm_driver demo_network [] [] \<lparr>ea_n = 20, ea_system = Ps_Groth16\<rparr> \<lparr>dw_out = [], dw_files = Map.empty\<rparr> = (Inr (), w') \<and>
     dw_files w' = [fixture_file [] Ps_Groth16 \<mapsto> json] \<and> nc_public_values demo_network m = sp1_guest demo_abi_encode m"
proof -
  obtain w' where run: "evm_driver demo_network [] [] \<lparr>ea_n = 20, ea_system = Ps_Groth16\<rparr> \<lparr>dw_out = [], dw_files = Map.empty\<rparr> = (Inr (), w')"
    using demo_driver_run by blast
  have "nc_public_values demo_network m = sp1_guest demo_abi_encode m" for m
    by (simp add: demo_network_def demo_abi_encode_def [abs_def])
  with evm_driver_sound [OF demo_guest_proofs run] run show ?thesis by auto
qed

theorem evm_driver_any_input_witness:
  "\<exists>w'. evm_driver demo_network [] [] \<lparr>ea_n = 20, ea_system = Ps_Core\<rparr> \<lparr>dw_out = [], dw_files = Map.empty\<rparr> = (Inr (), w') \<and>
     ok_line \<lparr>ea_n = 20, ea_system = Ps_Core\<rparr> \<in> set (dw_out w') \<and> nc_public_values demo_network 0 = sp1_guest demo_abi_encode 0"
proof -
  have "nc_public_values demo_network 0 = sp1_guest demo_abi_encode 0"
    by (simp add: demo_network_def demo_abi_encode_def [abs_def])
  with evm_driver_any_input [of demo_network "[]" "()" 20 0 demo_abi_encode 0 "[]" "\<lparr>dw_out = [], dw_files = Map.empty\<rparr>"]
  show ?thesis by (simp add: demo_network_def)
qed

end
