(* ===== verification/Worker_Warm.thy ===== *)
theory Worker_Warm
  imports Worker_Keys
begin

text \<open>
  The key caches and key files of the \<^verbatim>\<open>openvm-worker\<close> are invisible: every answer of a worker that has served requests
  before is, up to the text of an error, the answer of a worker without caches and files.
\<close>

section \<open>Assumptions on the SDK\<close>

text \<open>Two SDKs that no operation tells apart.\<close>

definition same_sdk :: "'x sdk_ops \<Rightarrow> 'x \<Rightarrow> 'x \<Rightarrow> bool" where
  "same_sdk ops s s' \<longleftrightarrow>
     sdk_app_keygen ops s = sdk_app_keygen ops s' \<and> sdk_agg_prefix_pk ops s = sdk_agg_prefix_pk ops s' \<and>
     sdk_agg_pk ops s = sdk_agg_pk ops s' \<and> sdk_agg_vk ops s = sdk_agg_vk ops s' \<and>
     sdk_app_prover ops s = sdk_app_prover ops s' \<and> sdk_prove ops s = sdk_prove ops s' \<and>
     sdk_prove_evm ops s = sdk_prove_evm ops s' \<and> sdk_prover ops s = sdk_prover ops s'"

definition interchangeable :: "'x sdk_ops \<Rightarrow> string + 'x \<Rightarrow> 'x \<Rightarrow> bool" where
  "interchangeable ops r s \<longleftrightarrow> (case r of Inl _ \<Rightarrow> False | Inr s' \<Rightarrow> same_sdk ops s' s)"

text \<open>The universal keys \<^verbatim>\<open>cargo openvm setup\<close> writes.\<close>

record 'x universal_keys =
  uk_internal_recursive :: 'x
  uk_halo2 :: 'x
  uk_root :: 'x

definition tower :: "'x universal_keys \<Rightarrow> 'x sdk_builder \<Rightarrow> 'x sdk_builder" where
  "tower u bd = bd\<lparr>bd_root_pk := Some (uk_root u), bd_halo2_pk := Some (uk_halo2 u)\<rparr>"

text \<open>
  The documented behaviour of the SDK the caches rely on: an aggregation key is the prefix with the universal
  part, and an SDK seeded with the keys of a configuration, with or without the EVM keys, serves as one built
  from the configuration.
\<close>

definition sdk_laws :: "'x universal_keys \<Rightarrow> 'x sdk_ops \<Rightarrow> bool" where
  "sdk_laws u ops \<longleftrightarrow> (\<forall>c.
     let plain = new_builder\<lparr>bd_app_config := Some c, bd_agg_params := True\<rparr>
     in case sdk_new ops c of
          Inl _ \<Rightarrow> isl (sdk_build ops plain) \<and> isl (sdk_build ops (tower u plain))
        | Inr s \<Rightarrow>
            (let app = new_builder\<lparr>bd_app_pk := Some (fst (sdk_app_keygen ops s))\<rparr>;
                 agg = app\<lparr>bd_agg_pk := Some (sdk_agg_pk ops s)\<rparr>
             in \<lparr>ag_prefix = sdk_agg_prefix_pk ops s, ag_internal_recursive = uk_internal_recursive u\<rparr>
                  = sdk_agg_pk ops s \<and>
                list_all (\<lambda>bd. interchangeable ops (sdk_build ops bd) s)
                  [plain, tower u plain, app\<lparr>bd_agg_params := True\<rparr>, agg, tower u agg]))"

definition genuine_files :: "'x universal_keys \<Rightarrow> 'x key_files \<Rightarrow> bool" where
  "genuine_files u files \<longleftrightarrow>
     try_load (kf_internal_recursive files) \<in> {None, Some (uk_internal_recursive u)} \<and>
     try_load (kf_halo2 files) \<in> {None, Some (uk_halo2 u)} \<and> try_load (kf_root files) \<in> {None, Some (uk_root u)}"

text \<open>SHA-256 gives 32 bytes and has no collision among the configurations in use.\<close>

definition sha_ok :: "'x worker_env \<Rightarrow> string option set \<Rightarrow> bool" where
  "sha_ok env T \<longleftrightarrow> (\<forall>t. length (we_sha256 env t) = 32) \<and> inj_on (we_sha256 env) {t. Some t \<in> T}"

section \<open>The worker over its lifetime\<close>

record 'x worker_caches =
  wc_prove :: "'x key_caches"
  wc_verify :: "'x key_caches"

fun worker_step ::
    "'x worker_env \<Rightarrow> worker_backend \<Rightarrow> bool \<Rightarrow> 'x key_files \<Rightarrow> worker_request \<Rightarrow> 'x worker_caches \<Rightarrow> 'x worker_caches" where
  "worker_step env b evm files (Prove i m elf toml input t) st =
     st\<lparr>wc_prove := snd (prove_blocking env b evm files i m elf toml input t (wc_prove st))\<rparr>"
| "worker_step env b evm files (Verify m elf toml p) st =
     st\<lparr>wc_verify := snd (verify_openvm_proof_worker env files elf toml m p (wc_verify st))\<rparr>"
| "worker_step env b evm files Version_Request st = st"

fun request_toml :: "worker_request \<Rightarrow> string option" where
  "request_toml (Prove i m elf toml input t) = toml"
| "request_toml (Verify m elf toml p) = toml"
| "request_toml Version_Request = None"

inductive worker_warm ::
    "'x worker_env \<Rightarrow> worker_backend \<Rightarrow> bool \<Rightarrow> 'x universal_keys \<Rightarrow> string option set \<Rightarrow> 'x worker_caches \<Rightarrow> bool"
  for env b evm u T where
  start: "worker_warm env b evm u T \<lparr>wc_prove = cold, wc_verify = cold\<rparr>"
| step: "worker_warm env b evm u T st \<Longrightarrow> request_toml req \<in> T \<Longrightarrow> genuine_files u files \<Longrightarrow>
     worker_warm env b evm u T (worker_step env b evm files req st)"

text \<open>The environment of a request (\<open>Worker_Server\<close>) in such a state; \<open>e\<close> gives the connection.\<close>

definition worker_server ::
    "'x worker_env \<Rightarrow> worker_backend \<Rightarrow> bool \<Rightarrow> 'x key_files \<Rightarrow> 'x worker_caches \<Rightarrow> server_env \<Rightarrow> server_env" where
  "worker_server env b evm files st e = e\<lparr>
     se_verify := (\<lambda>m elf toml p. Some (fst (verify_openvm_proof_worker env files elf toml m p (wc_verify st)))),
     se_prove := (\<lambda>req. case req of
         Prove i m elf toml input t \<Rightarrow> fst (prove_blocking env b evm files i m elf toml input t (wc_prove st))
       | _ \<Rightarrow> [])\<rparr>"

section \<open>The reference: a fresh SDK for every request\<close>

definition prove_reference ::
    "'x worker_env \<Rightarrow> worker_backend \<Rightarrow> bool \<Rightarrow> string \<Rightarrow> worker_proof_mode \<Rightarrow> bytes \<Rightarrow> string option \<Rightarrow> bytes list \<Rightarrow>
     bool \<Rightarrow> worker_event list" where
  "prove_reference env b evm i mode elf toml input t = (case build_app_config env toml of
       Inl e \<Rightarrow> [Ev_Done (Inl e)]
     | Inr cfg \<Rightarrow> (case any_new env b cfg of
           Inl e \<Rightarrow> [Ev_Done (Inl e)]
         | Inr sdk \<Rightarrow>
             (if t then case segment_count env sdk elf input of Inr n \<Rightarrow> [Ev_Size n] | Inl _ \<Rightarrow> [] else []) @
             [Ev_Done (case mode of
                W_App \<Rightarrow> prove_app env sdk elf (''hierophant-'' @ i) input
              | W_Stark \<Rightarrow> prove_stark env sdk elf input
              | W_Evm \<Rightarrow> if evm then prove_evm_bytes env sdk elf input else Inl no_evm_err)]))"

definition verify_reference ::
    "'x worker_env \<Rightarrow> bytes \<Rightarrow> string option \<Rightarrow> worker_proof_mode \<Rightarrow> bytes \<Rightarrow> string + unit" where
  "verify_reference env elf toml mode p =
     (let ops = sdk_alias env in case build_app_config env toml of
       Inl e \<Rightarrow> Inl e
     | Inr cfg \<Rightarrow> (case sdk_new ops cfg of
           Inl e \<Rightarrow> Inl e
         | Inr sdk \<Rightarrow> (case mode of
               W_App \<Rightarrow> (case (we_bitcode_de env p, sdk_app_prover ops sdk elf) of
                   (Inr proof, Inr prover) \<Rightarrow>
                     sdk_verify_app ops (snd (sdk_app_keygen ops sdk)) proof (sdk_app_exe_commit ops prover)
                 | _ \<Rightarrow> Inl [])
             | W_Stark \<Rightarrow> (case we_stark_json env p of
                   Inl e \<Rightarrow> Inl e
                 | Inr versioned \<Rightarrow> (case (we_stark_try_from env versioned, sdk_prover ops sdk elf) of
                       (Inr proof, Inr prover) \<Rightarrow>
                         sdk_verify_proof ops (sdk_agg_vk ops sdk) (sdk_generate_baseline ops prover) proof
                     | _ \<Rightarrow> Inl []))
             | W_Evm \<Rightarrow> (case sdk_app_prover ops sdk elf of
                   Inr prover \<Rightarrow> verify_evm_commit env p (we_commit_text env (sdk_app_exe_commit ops prover))
                 | _ \<Rightarrow> Inl []))))"

text \<open>Answers up to the text of an error.\<close>

fun quiet :: "worker_response \<Rightarrow> worker_response" where
  "quiet (ErrResponse e) = ErrResponse []"
| "quiet r = r"

abbreviation drop_text :: "string + 'r \<Rightarrow> unit + 'r" where
  "drop_text r \<equiv> map_sum (\<lambda>_. ()) id r"

section \<open>Facts\<close>

text \<open>The engine of a backend the build has.\<close>

fun backend_ops :: "'x worker_env \<Rightarrow> worker_backend \<Rightarrow> 'x sdk_ops" where
  "backend_ops env Worker_Cpu = we_cpu_sdk env"
| "backend_ops env Worker_Cuda = we_gpu_sdk env"

fun any_sdk_of :: "worker_backend \<Rightarrow> 'x \<Rightarrow> 'x any_sdk" where
  "any_sdk_of Worker_Cpu s = Cpu_Sdk s"
| "any_sdk_of Worker_Cuda s = Gpu_Sdk s"

lemma with_any_sdk [simp]: "with_sdk env (any_sdk_of b s) body = body (backend_ops env b) s"
  by (cases b) simp_all

lemma on_backend_cases:
  assumes "b = Worker_Cuda \<longrightarrow> we_cuda env"
  shows "case mk (backend_ops env b) of Inl _ \<Rightarrow> isl (on_backend env b what mk)
     | Inr s \<Rightarrow> on_backend env b what mk = Inr (any_sdk_of b s)"
  using assms by (cases b) (simp_all add: on_backend_def split: sum.splits)

text \<open>The entries of a configuration are the keys an SDK of it generates.\<close>

definition good_at :: "'x sdk_ops \<Rightarrow> 'x \<Rightarrow> string \<Rightarrow> 'x key_caches \<Rightarrow> bool" where
  "good_at ops c k cs \<longleftrightarrow> (case sdk_new ops c of
       Inl _ \<Rightarrow> app_pks cs k = None \<and> agg_pks cs k = None
     | Inr s \<Rightarrow> app_pks cs k \<in> {None, Some (fst (sdk_app_keygen ops s))} \<and>
               agg_pks cs k \<in> {None, Some (sdk_agg_pk ops s)})"

definition only_at :: "string \<Rightarrow> 'x key_caches \<Rightarrow> 'x key_caches \<Rightarrow> bool" where
  "only_at k cs cs' \<longleftrightarrow> (\<forall>k'. k' \<noteq> k \<longrightarrow> app_pks cs' k' = app_pks cs k' \<and> agg_pks cs' k' = agg_pks cs k')"

definition entry_kept :: "'x sdk_ops \<Rightarrow> 'x \<Rightarrow> string \<Rightarrow> 'x key_caches \<Rightarrow> 'x key_caches \<Rightarrow> bool" where
  "entry_kept ops c k cs cs' \<longleftrightarrow> good_at ops c k cs' \<and> only_at k cs cs'"

lemma kept_refl [simp]: "good_at ops c k cs \<Longrightarrow> entry_kept ops c k cs cs"
  by (simp add: entry_kept_def only_at_def)

lemma kept_trans: "entry_kept ops c k cs cs1 \<Longrightarrow> entry_kept ops c k cs1 cs2 \<Longrightarrow> entry_kept ops c k cs cs2"
  by (simp add: entry_kept_def only_at_def)

lemma kept_good [simp]: "entry_kept ops c k cs cs' \<Longrightarrow> good_at ops c k cs'"
  by (simp add: entry_kept_def)

lemma kept_insert_app:
  "sdk_new ops c = Inr s \<Longrightarrow> good_at ops c k cs \<Longrightarrow> entry_kept ops c k cs (insert_app k (fst (sdk_app_keygen ops s)) cs)"
  by (simp add: entry_kept_def good_at_def only_at_def insert_app_def)

lemma kept_insert_agg:
  "sdk_new ops c = Inr s \<Longrightarrow> good_at ops c k cs \<Longrightarrow> entry_kept ops c k cs (insert_agg k (sdk_agg_pk ops s) cs)"
  by (simp add: entry_kept_def good_at_def only_at_def insert_agg_def)

text \<open>What the laws give for a configuration the SDK accepts.\<close>

lemma sdk_laws_accepted:
  assumes "sdk_laws u ops" "sdk_new ops c = Inr s"
  shows "\<lparr>ag_prefix = sdk_agg_prefix_pk ops s, ag_internal_recursive = uk_internal_recursive u\<rparr> = sdk_agg_pk ops s"
    and "interchangeable ops (sdk_build ops (new_builder\<lparr>bd_app_config := Some c, bd_agg_params := True\<rparr>)) s"
    and "interchangeable ops (sdk_build ops (tower u (new_builder\<lparr>bd_app_config := Some c, bd_agg_params := True\<rparr>))) s"
    and "interchangeable ops (sdk_build ops
           (new_builder\<lparr>bd_app_pk := Some (fst (sdk_app_keygen ops s)), bd_agg_params := True\<rparr>)) s"
    and "interchangeable ops (sdk_build ops
           (new_builder\<lparr>bd_app_pk := Some (fst (sdk_app_keygen ops s)), bd_agg_pk := Some (sdk_agg_pk ops s)\<rparr>)) s"
    and "interchangeable ops (sdk_build ops (tower u
           (new_builder\<lparr>bd_app_pk := Some (fst (sdk_app_keygen ops s)), bd_agg_pk := Some (sdk_agg_pk ops s)\<rparr>))) s"
  using assms(1) [unfolded sdk_laws_def, rule_format, of c] assms(2) by (simp_all add: Let_def new_builder_def)

lemma sdk_laws_refused:
  assumes "sdk_laws u ops" "sdk_new ops c = Inl e"
  shows "isl (sdk_build ops (new_builder\<lparr>bd_app_config := Some c, bd_agg_params := True\<rparr>))"
    and "isl (sdk_build ops (tower u (new_builder\<lparr>bd_app_config := Some c, bd_agg_params := True\<rparr>)))"
  using assms(1) [unfolded sdk_laws_def, rule_format, of c] assms(2) by (simp_all add: Let_def)

lemma interchangeableE:
  assumes "interchangeable ops r s" obtains s' where "r = Inr s'" "same_sdk ops s' s"
  using assms by (auto simp: interchangeable_def split: sum.splits)

lemma same_sdkD:
  assumes "same_sdk ops s' s"
  shows "sdk_app_keygen ops s' = sdk_app_keygen ops s" "sdk_agg_prefix_pk ops s' = sdk_agg_prefix_pk ops s"
    "sdk_agg_pk ops s' = sdk_agg_pk ops s" "sdk_agg_vk ops s' = sdk_agg_vk ops s"
    "sdk_app_prover ops s' = sdk_app_prover ops s" "sdk_prove ops s' = sdk_prove ops s"
    "sdk_prove_evm ops s' = sdk_prove_evm ops s" "sdk_prover ops s' = sdk_prover ops s"
  using assms by (simp_all add: same_sdk_def)

lemma same_sdk_refl [simp]: "same_sdk ops s s"
  by (simp add: same_sdk_def)

subsection \<open>Proving\<close>

lemma any_new_accepted:
  assumes "b = Worker_Cuda \<longrightarrow> we_cuda env" "sdk_new (backend_ops env b) c = Inr s"
  shows "any_new env b c = Inr (any_sdk_of b s)"
  using on_backend_cases [OF assms(1), of "[]" "\<lambda>ops. sdk_new ops c"] assms(2) by (simp add: any_new_def)

lemma any_new_refused:
  assumes "b = Worker_Cuda \<longrightarrow> we_cuda env" "sdk_new (backend_ops env b) c = Inl e"
  obtains e' where "any_new env b c = Inl e'"
  using on_backend_cases [OF assms(1), of "[]" "\<lambda>ops. sdk_new ops c"] assms(2)
  by (cases "any_new env b c") (simp_all add: any_new_def)

lemma on_backend_interchangeable:
  assumes "b = Worker_Cuda \<longrightarrow> we_cuda env" "interchangeable (backend_ops env b) (mk (backend_ops env b)) s"
  obtains s' where "on_backend env b what mk = Inr (any_sdk_of b s')" "same_sdk (backend_ops env b) s' s"
  using on_backend_cases [OF assms(1), of what mk] assms(2) by (auto elim!: interchangeableE)

lemma ensure_app_pk_ok:
  assumes "b = Worker_Cuda \<longrightarrow> we_cuda env" "sdk_new (backend_ops env b) c = Inr s" "good_at (backend_ops env b) c k cs"
  obtains cs' where "ensure_app_pk env b c k cs = (Inr (fst (sdk_app_keygen (backend_ops env b) s)), cs')"
    "entry_kept (backend_ops env b) c k cs cs'"
proof (cases "app_pks cs k")
  case None
  then show ?thesis using that [OF _ kept_insert_app [OF assms(2,3)]] any_new_accepted [OF assms(1,2)]
    by (simp add: ensure_app_pk_def Let_def app_keygen_pk_def)
next
  case (Some a)
  then have "a = fst (sdk_app_keygen (backend_ops env b) s)" using assms(2,3) by (simp add: good_at_def)
  with Some show ?thesis using that [OF _ kept_refl [OF assms(3)]] by (simp add: ensure_app_pk_def)
qed

lemma ensure_agg_pk_ok:
  assumes "b = Worker_Cuda \<longrightarrow> we_cuda env" "sdk_laws u (backend_ops env b)" "genuine_files u files"
    "sdk_new (backend_ops env b) c = Inr s" "good_at (backend_ops env b) c k cs"
  obtains r cs' where "ensure_agg_pk env b files c k cs = (Inr r, cs')" "entry_kept (backend_ops env b) c k cs cs'"
    "r = None \<or> r = Some (sdk_agg_pk (backend_ops env b) s)"
proof (cases "agg_pks cs k")
  case None
  show ?thesis
  proof (cases "try_load (kf_internal_recursive files)")
    case (Some ir)
    then have "ir = uk_internal_recursive u" using assms(3) by (simp add: genuine_files_def)
    with None Some show ?thesis using that [OF _ kept_insert_agg [OF assms(4,5)]] any_new_accepted [OF assms(1,4)]
      by (simp add: ensure_agg_pk_def Let_def assemble_agg_pk_def sdk_laws_accepted(1) [OF assms(2,4)])
  qed (use None that [OF _ kept_refl [OF assms(5)]] in \<open>simp add: ensure_agg_pk_def\<close>)
next
  case (Some g)
  then have "g = sdk_agg_pk (backend_ops env b) s" using assms(4,5) by (simp add: good_at_def)
  with Some show ?thesis using that [OF _ kept_refl [OF assms(5)]] by (simp add: ensure_agg_pk_def)
qed

lemma build_sdk_with_agg_ok:
  assumes "b = Worker_Cuda \<longrightarrow> we_cuda env" "sdk_laws u (backend_ops env b)" "genuine_files u files"
    "sdk_new (backend_ops env b) c = Inr s" "good_at (backend_ops env b) c k cs"
  obtains s' cs' where "build_sdk_with_agg env b files c k cs = (Inr (any_sdk_of b s'), cs')"
    "entry_kept (backend_ops env b) c k cs cs'" "same_sdk (backend_ops env b) s' s"
proof -
  obtain r cs1 where r: "ensure_agg_pk env b files c k cs = (Inr r, cs1)" "entry_kept (backend_ops env b) c k cs cs1"
    "r = None \<or> r = Some (sdk_agg_pk (backend_ops env b) s)" by (rule ensure_agg_pk_ok [OF assms])
  obtain cs2 where a: "ensure_app_pk env b c k cs1 = (Inr (fst (sdk_app_keygen (backend_ops env b) s)), cs2)"
    "entry_kept (backend_ops env b) c k cs1 cs2" by (rule ensure_app_pk_ok [OF assms(1,4) kept_good [OF r(2)]])
  obtain s' where s': "with_keys env b (fst (sdk_app_keygen (backend_ops env b) s)) (sdk_agg_pk (backend_ops env b) s)
      = Inr (any_sdk_of b s')" "same_sdk (backend_ops env b) s' s"
    unfolding with_keys_def
    by (rule on_backend_interchangeable [OF assms(1), where mk = "\<lambda>ops. sdk_build ops _"])
      (rule sdk_laws_accepted(5) [OF assms(2,4)])
  from r(3) show ?thesis
  proof
    assume "r = None"
    then show ?thesis using that [OF _ r(2), of s] r(1) any_new_accepted [OF assms(1,4)]
      by (simp add: build_sdk_with_agg_def)
  next
    assume "r = Some (sdk_agg_pk (backend_ops env b) s)"
    then show ?thesis using that [OF _ kept_trans [OF r(2) a(2)] s'(2)] r(1) a(1) s'(1)
      by (simp add: build_sdk_with_agg_def)
  qed
qed

lemma seed_keys_ok:
  assumes "b = Worker_Cuda \<longrightarrow> we_cuda env" "sdk_laws u (backend_ops env b)" "genuine_files u files"
    "sdk_new (backend_ops env b) c = Inr s" "good_at (backend_ops env b) c k cs"
  obtains r cs' where "seed_keys env b files c k cs = (Inr r, cs')" "entry_kept (backend_ops env b) c k cs cs'"
    "r = None \<or> r = Some (fst (sdk_app_keygen (backend_ops env b) s), sdk_agg_pk (backend_ops env b) s)"
proof -
  obtain r cs1 where r: "ensure_agg_pk env b files c k cs = (Inr r, cs1)" "entry_kept (backend_ops env b) c k cs cs1"
    "r = None \<or> r = Some (sdk_agg_pk (backend_ops env b) s)" by (rule ensure_agg_pk_ok [OF assms])
  obtain cs2 where a: "ensure_app_pk env b c k cs1 = (Inr (fst (sdk_app_keygen (backend_ops env b) s)), cs2)"
    "entry_kept (backend_ops env b) c k cs1 cs2" by (rule ensure_app_pk_ok [OF assms(1,4) kept_good [OF r(2)]])
  from r(3) show ?thesis
  proof
    assume "r = None"
    then show ?thesis using that [OF _ r(2), of None] r(1) by (simp add: seed_keys_def)
  next
    assume "r = Some (sdk_agg_pk (backend_ops env b) s)"
    then show ?thesis using that [OF _ kept_trans [OF r(2) a(2)]] r(1) a(1) by (simp add: seed_keys_def)
  qed
qed

lemma halo2_root_genuine:
  "genuine_files u files \<Longrightarrow> halo2_root files = None \<or> halo2_root files = Some (uk_halo2 u, uk_root u)"
  by (auto simp: genuine_files_def halo2_root_def)

lemma for_evm_ok:
  assumes "b = Worker_Cuda \<longrightarrow> we_cuda env" "sdk_laws u (backend_ops env b)" "genuine_files u files"
    "sdk_new (backend_ops env b) c = Inr s"
    "r = None \<or> r = Some (fst (sdk_app_keygen (backend_ops env b) s), sdk_agg_pk (backend_ops env b) s)"
  obtains s' where "for_evm env b r c (halo2_root files) = Inr (any_sdk_of b s')" "same_sdk (backend_ops env b) s' s"
proof -
  note laws = sdk_laws_accepted [OF assms(2,4), unfolded tower_def]
  define bd0 where "bd0 = (case r of
      Some (app_pk, agg_pk) \<Rightarrow> new_builder\<lparr>bd_app_pk := Some app_pk, bd_agg_pk := Some agg_pk\<rparr>
    | None \<Rightarrow> new_builder\<lparr>bd_app_config := Some c, bd_agg_params := True\<rparr>)"
  define bd where "bd = (case halo2_root files of
      Some (halo2_pk, root_pk) \<Rightarrow> bd0\<lparr>bd_root_pk := Some root_pk, bd_halo2_pk := Some halo2_pk\<rparr> | None \<Rightarrow> bd0)"
  have bd: "for_evm env b r c (halo2_root files) = on_backend env b '' for EVM proving'' (\<lambda>ops. sdk_build ops bd)"
    by (simp only: for_evm_def bd_def bd0_def Let_def)
  have ok: "interchangeable (backend_ops env b) (sdk_build (backend_ops env b) bd) s"
    using assms(5) halo2_root_genuine [OF assms(3)] laws(2,3,5,6) by (elim disjE) (simp_all add: bd_def bd0_def)
  obtain s' where "on_backend env b '' for EVM proving'' (\<lambda>ops. sdk_build ops bd) = Inr (any_sdk_of b s')"
    "same_sdk (backend_ops env b) s' s"
    by (rule on_backend_interchangeable [OF assms(1), where mk = "\<lambda>ops. sdk_build ops bd"]) (use ok in simp_all)
  with bd show ?thesis by (intro that) simp_all
qed

lemma store_agg_pk_kept:
  assumes "sdk_new (backend_ops env b) c = Inr s" "good_at (backend_ops env b) c k cs" "same_sdk (backend_ops env b) s' s"
  shows "entry_kept (backend_ops env b) c k cs (store_agg_pk env (any_sdk_of b s') k cs)"
  using kept_insert_agg [OF assms(1,2)] assms(2)
  by (simp add: store_agg_pk_def any_agg_pk_def same_sdkD [OF assms(3)])

text \<open>An accepted configuration: the proof is the one of the plain SDK.\<close>

lemma prove_mode_accepted:
  assumes "b = Worker_Cuda \<longrightarrow> we_cuda env" "evm \<longrightarrow> we_evm env" "sdk_laws u (backend_ops env b)" "genuine_files u files"
    "sdk_new (backend_ops env b) c = Inr s" "good_at (backend_ops env b) c k cs"
  shows "entry_kept (backend_ops env b) c k cs (snd (prove_mode env b evm files c k i mode elf input cs)) \<and>
    fst (prove_mode env b evm files c k i mode elf input cs) = (case mode of
         W_App \<Rightarrow> prove_app env (any_sdk_of b s) elf (''hierophant-'' @ i) input
       | W_Stark \<Rightarrow> prove_stark env (any_sdk_of b s) elf input
       | W_Evm \<Rightarrow> if evm then prove_evm_bytes env (any_sdk_of b s) elf input else Inl no_evm_err)"
proof (cases mode)
  case W_App
  then show ?thesis using assms(6) any_new_accepted [OF assms(1,5)] by (simp add: prove_mode_def)
next
  case W_Stark
  obtain s' cs1 where b: "build_sdk_with_agg env b files c k cs = (Inr (any_sdk_of b s'), cs1)"
    "entry_kept (backend_ops env b) c k cs cs1" "same_sdk (backend_ops env b) s' s"
    by (rule build_sdk_with_agg_ok [OF assms(1,3-6)])
  have "prove_stark env (any_sdk_of b s') elf input = prove_stark env (any_sdk_of b s) elf input"
    by (simp add: prove_stark_def same_sdkD [OF b(3)])
  with W_Stark b(1,2) kept_trans [OF b(2) store_agg_pk_kept [OF assms(5) kept_good [OF b(2)] b(3)]]
  show ?thesis by (simp add: prove_mode_def split: sum.splits)
next
  case W_Evm
  obtain r cs1 where r: "seed_keys env b files c k cs = (Inr r, cs1)" "entry_kept (backend_ops env b) c k cs cs1"
    "r = None \<or> r = Some (fst (sdk_app_keygen (backend_ops env b) s), sdk_agg_pk (backend_ops env b) s)"
    by (rule seed_keys_ok [OF assms(1,3-6)])
  obtain s' where s': "for_evm env b r c (halo2_root files) = Inr (any_sdk_of b s')" "same_sdk (backend_ops env b) s' s"
    by (rule for_evm_ok [OF assms(1,3-5) r(3)])
  have "prove_evm_bytes env (any_sdk_of b s') elf input = prove_evm_bytes env (any_sdk_of b s) elf input"
    by (simp add: prove_evm_bytes_def same_sdkD [OF s'(2)])
  with W_Evm assms(2,6) r(1,2) s'(1) kept_trans [OF r(2) store_agg_pk_kept [OF assms(5) kept_good [OF r(2)] s'(2)]]
  show ?thesis by (simp add: prove_mode_def prove_evm_def split: sum.splits)
qed

text \<open>A refused configuration: every mode fails and nothing is cached.\<close>

lemma prove_mode_refused:
  assumes "b = Worker_Cuda \<longrightarrow> we_cuda env" "sdk_laws u (backend_ops env b)" "genuine_files u files"
    "sdk_new (backend_ops env b) c = Inl e" "good_at (backend_ops env b) c k cs"
  shows "snd (prove_mode env b evm files c k i mode elf input cs) = cs \<and>
    isl (fst (prove_mode env b evm files c k i mode elf input cs))"
proof -
  obtain e' where new: "any_new env b c = Inl e'" by (rule any_new_refused [OF assms(1,4)])
  have empty: "app_pks cs k = None" "agg_pks cs k = None" using assms(4,5) by (simp_all add: good_at_def)
  have agg: "ensure_agg_pk env b files c k cs = (Inr None, cs) \<or> (\<exists>e. ensure_agg_pk env b files c k cs = (Inl e, cs))"
    using empty new by (simp add: ensure_agg_pk_def split: option.splits)
  have "isl (on_backend env b '' for EVM proving''
      (\<lambda>ops. sdk_build ops (new_builder\<lparr>bd_app_config := Some c, bd_agg_params := True\<rparr>)))"
    "isl (on_backend env b '' for EVM proving''
      (\<lambda>ops. sdk_build ops (tower u (new_builder\<lparr>bd_app_config := Some c, bd_agg_params := True\<rparr>))))"
    using on_backend_cases [OF assms(1), of "'' for EVM proving''"
        "\<lambda>ops. sdk_build ops (new_builder\<lparr>bd_app_config := Some c, bd_agg_params := True\<rparr>)"]
      on_backend_cases [OF assms(1), of "'' for EVM proving''"
        "\<lambda>ops. sdk_build ops (tower u (new_builder\<lparr>bd_app_config := Some c, bd_agg_params := True\<rparr>))"]
      sdk_laws_refused [OF assms(2,4)] by (auto split: sum.splits)
  then have "isl (for_evm env b None c (halo2_root files))"
    using halo2_root_genuine [OF assms(3)] by (auto simp: for_evm_def tower_def)
  then obtain e'' where "for_evm env b None c (halo2_root files) = Inl e''" by (auto simp: isl_def)
  with agg new show ?thesis
    by (auto simp: prove_mode_def build_sdk_with_agg_def prove_evm_def seed_keys_def split: worker_proof_mode.split)
qed

subsection \<open>Verification\<close>

lemma verify_build_sdk_ok:
  assumes "sdk_laws u (sdk_alias env)" "sdk_new (sdk_alias env) c = Inr s" "good_at (sdk_alias env) c k cs"
  obtains s' where "verify_build_sdk env c k cs = Inr s'" "same_sdk (sdk_alias env) s' s"
proof (cases "app_pks cs k")
  case None
  with that [of s] assms(2) show ?thesis by (simp add: verify_build_sdk_def)
next
  case (Some a)
  then have a: "a = fst (sdk_app_keygen (sdk_alias env) s)" using assms(2,3) by (simp add: good_at_def)
  obtain s' where "sdk_build (sdk_alias env)
      (new_builder\<lparr>bd_app_pk := Some (fst (sdk_app_keygen (sdk_alias env) s)), bd_agg_params := True\<rparr>) = Inr s'"
    "same_sdk (sdk_alias env) s' s" by (rule interchangeableE [OF sdk_laws_accepted(4) [OF assms(1,2)]])
  with Some a that [of s'] show ?thesis by (simp add: verify_build_sdk_def)
qed

lemma verify_build_sdk_refused:
  "sdk_new (sdk_alias env) c = Inl e \<Longrightarrow> good_at (sdk_alias env) c k cs \<Longrightarrow> isl (verify_build_sdk env c k cs)"
  by (simp add: good_at_def verify_build_sdk_def)

lemma verify_store_app_kept:
  assumes "sdk_new (sdk_alias env) c = Inr s" "good_at (sdk_alias env) c k cs" "same_sdk (sdk_alias env) s' s"
  shows "entry_kept (sdk_alias env) c k cs (verify_store_app_pk env s' k cs)"
  using kept_insert_app [OF assms(1,2)] assms(2) by (simp add: verify_store_app_pk_def same_sdkD [OF assms(3)])

lemma verify_store_agg_kept:
  assumes "sdk_new (sdk_alias env) c = Inr s" "good_at (sdk_alias env) c k cs" "same_sdk (sdk_alias env) s' s"
  shows "entry_kept (sdk_alias env) c k cs (verify_store_agg_pk env s' k cs)"
  using kept_insert_agg [OF assms(1,2)] assms(2) by (simp add: verify_store_agg_pk_def same_sdkD [OF assms(3)])

lemma verify_ensure_agg_ok:
  assumes "sdk_laws u (sdk_alias env)" "genuine_files u files" "sdk_new (sdk_alias env) c = Inr s"
    "good_at (sdk_alias env) c k cs"
  obtains r cs' where "verify_ensure_agg_pk env files c k cs = (Inr r, cs')" "entry_kept (sdk_alias env) c k cs cs'"
    "r = None \<or> r = Some (sdk_agg_pk (sdk_alias env) s)"
proof (cases "agg_pks cs k")
  case None
  show ?thesis
  proof (cases "try_load (kf_internal_recursive files)")
    case (Some ir)
    obtain s' where s': "verify_build_sdk env c k cs = Inr s'" "same_sdk (sdk_alias env) s' s"
      by (rule verify_build_sdk_ok [OF assms(1,3,4)])
    note stored = verify_store_app_kept [OF assms(3,4) s'(2)]
    have "ir = uk_internal_recursive u" using Some assms(2) by (simp add: genuine_files_def)
    moreover have "entry_kept (sdk_alias env) c k cs
        (insert_agg k (sdk_agg_pk (sdk_alias env) s) (verify_store_app_pk env s' k cs))"
      by (rule kept_trans [OF stored kept_insert_agg [OF assms(3) kept_good [OF stored]]])
    ultimately show ?thesis using None Some s'(1) that
      by (simp add: verify_ensure_agg_pk_def Let_def same_sdkD [OF s'(2)] sdk_laws_accepted(1) [OF assms(1,3)])
  qed (use None that [OF _ kept_refl [OF assms(4)]] in \<open>simp add: verify_ensure_agg_pk_def\<close>)
next
  case (Some g)
  then have "g = sdk_agg_pk (sdk_alias env) s" using assms(3,4) by (simp add: good_at_def)
  with Some show ?thesis using that [OF _ kept_refl [OF assms(4)]] by (simp add: verify_ensure_agg_pk_def)
qed

lemma verify_app_pk_ok:
  assumes "sdk_laws u (sdk_alias env)" "sdk_new (sdk_alias env) c = Inr s" "good_at (sdk_alias env) c k cs"
  obtains cs' where "verify_app_pk env c k cs = (Inr (fst (sdk_app_keygen (sdk_alias env) s)), cs')"
    "entry_kept (sdk_alias env) c k cs cs'"
proof (cases "app_pks cs k")
  case None
  obtain s' where s': "verify_build_sdk env c k cs = Inr s'" "same_sdk (sdk_alias env) s' s"
    by (rule verify_build_sdk_ok [OF assms])
  with None that [OF _ kept_insert_app [OF assms(2,3)]] show ?thesis
    by (simp add: verify_app_pk_def Let_def same_sdkD [OF s'(2)])
next
  case (Some a)
  then have "a = fst (sdk_app_keygen (sdk_alias env) s)" using assms(2,3) by (simp add: good_at_def)
  with Some show ?thesis using that [OF _ kept_refl [OF assms(3)]] by (simp add: verify_app_pk_def)
qed

lemma verify_with_agg_ok:
  assumes "sdk_laws u (sdk_alias env)" "genuine_files u files" "sdk_new (sdk_alias env) c = Inr s"
    "good_at (sdk_alias env) c k cs"
  obtains s' cs' where "verify_build_sdk_with_agg env files c k cs = (Inr s', cs')" "entry_kept (sdk_alias env) c k cs cs'"
    "same_sdk (sdk_alias env) s' s"
proof -
  obtain r cs1 where r: "verify_ensure_agg_pk env files c k cs = (Inr r, cs1)" "entry_kept (sdk_alias env) c k cs cs1"
    "r = None \<or> r = Some (sdk_agg_pk (sdk_alias env) s)" by (rule verify_ensure_agg_ok [OF assms])
  obtain cs2 where a: "verify_app_pk env c k cs1 = (Inr (fst (sdk_app_keygen (sdk_alias env) s)), cs2)"
    "entry_kept (sdk_alias env) c k cs1 cs2" by (rule verify_app_pk_ok [OF assms(1,3) kept_good [OF r(2)]])
  obtain s1 where s1: "verify_build_sdk env c k cs1 = Inr s1" "same_sdk (sdk_alias env) s1 s"
    by (rule verify_build_sdk_ok [OF assms(1,3) kept_good [OF r(2)]])
  obtain s2 where s2: "sdk_build (sdk_alias env) (new_builder\<lparr>bd_app_pk := Some (fst (sdk_app_keygen (sdk_alias env) s)),
      bd_agg_pk := Some (sdk_agg_pk (sdk_alias env) s)\<rparr>) = Inr s2" "same_sdk (sdk_alias env) s2 s"
    by (rule interchangeableE [OF sdk_laws_accepted(5) [OF assms(1,3)]])
  from r(3) show ?thesis
  proof
    assume "r = None"
    then show ?thesis using that [OF _ r(2) s1(2)] r(1) s1(1) by (simp add: verify_build_sdk_with_agg_def)
  next
    assume "r = Some (sdk_agg_pk (sdk_alias env) s)"
    then show ?thesis using that [OF _ kept_trans [OF r(2) a(2)] s2(2)] r(1) a(1) s2(1)
      by (simp add: verify_build_sdk_with_agg_def)
  qed
qed

lemma verify_with_agg_refused:
  assumes "sdk_new (sdk_alias env) c = Inl e" "good_at (sdk_alias env) c k cs"
  obtains e' where "verify_build_sdk_with_agg env files c k cs = (Inl e', cs)"
proof -
  obtain e' where "verify_build_sdk env c k cs = Inl e'"
    using verify_build_sdk_refused [OF assms] by (auto simp: isl_def)
  moreover have "agg_pks cs k = None" using assms by (simp add: good_at_def)
  ultimately show ?thesis using that [of e']
    by (cases "try_load (kf_internal_recursive files)")
      (simp_all add: verify_build_sdk_with_agg_def verify_ensure_agg_pk_def)
qed

lemma drop_text_map: "drop_text (map_sum f id r) = drop_text r"
  by (cases r) simp_all

lemma verify_openvm_proof_worker_ok:
  assumes "sdk_laws u (sdk_alias env)" "genuine_files u files" "build_app_config env toml = Inr c"
    "good_at (sdk_alias env) c (config_cache_key env toml) cs"
  shows "entry_kept (sdk_alias env) c (config_cache_key env toml) cs (snd (verify_openvm_proof_worker env files elf toml mode p cs)) \<and>
    drop_text (fst (verify_openvm_proof_worker env files elf toml mode p cs)) = drop_text (verify_reference env elf toml mode p)"
proof (cases "sdk_new (sdk_alias env) c")
  case (Inl e)
  obtain e1 where e1: "verify_build_sdk env c (config_cache_key env toml) cs = Inl e1"
    using verify_build_sdk_refused [OF Inl assms(4)] by (auto simp: isl_def)
  obtain e2 where e2: "verify_build_sdk_with_agg env files c (config_cache_key env toml) cs = (Inl e2, cs)"
    by (rule verify_with_agg_refused [OF Inl assms(4)])
  show ?thesis using assms(3,4) Inl e1 e2
    by (cases mode) (auto simp: verify_openvm_proof_worker_def verify_reference_def verify_app_mode_def verify_stark_mode_def
        verify_evm_mode_def Let_def split: sum.split)
next
  case (Inr s)
  let ?k = "config_cache_key env toml"
  obtain s1 where s1: "verify_build_sdk env c ?k cs = Inr s1" "same_sdk (sdk_alias env) s1 s"
    by (rule verify_build_sdk_ok [OF assms(1) Inr assms(4)])
  obtain s2 cs2 where s2: "verify_build_sdk_with_agg env files c ?k cs = (Inr s2, cs2)"
    "entry_kept (sdk_alias env) c ?k cs cs2" "same_sdk (sdk_alias env) s2 s"
    by (rule verify_with_agg_ok [OF assms(1,2) Inr assms(4)])
  note app1 = verify_store_app_kept [OF Inr assms(4) s1(2)]
  note app2 = verify_store_app_kept [OF Inr kept_good [OF s2(2)] s2(3)]
  note agg2 = kept_trans [OF kept_trans [OF s2(2) app2] verify_store_agg_kept [OF Inr kept_good [OF app2] s2(3)]]
  note eqs = verify_openvm_proof_worker_def verify_reference_def assms(3) Inr Let_def same_sdkD [OF s1(2)] same_sdkD [OF s2(3)]
  show ?thesis
  proof (cases mode)
    case W_App
    then show ?thesis using assms(4) app1 by (simp add: eqs verify_app_mode_def s1(1) drop_text_map split: sum.split)
  next
    case W_Stark
    then show ?thesis using assms(4) agg2 s2(2)
      by (simp add: eqs verify_stark_mode_def s2(1) drop_text_map split: sum.split)
  next
    case W_Evm
    then show ?thesis using assms(4) app1 by (simp add: eqs verify_evm_mode_def s1(1) drop_text_map split: sum.split)
  qed
qed

lemma prove_blocking_ok:
  assumes "b = Worker_Cuda \<longrightarrow> we_cuda env" "evm \<longrightarrow> we_evm env" "sdk_laws u (backend_ops env b)" "genuine_files u files"
    "build_app_config env toml = Inr c" "good_at (backend_ops env b) c (config_cache_key env toml) cs"
  shows "entry_kept (backend_ops env b) c (config_cache_key env toml) cs
      (snd (prove_blocking env b evm files i mode elf toml input t cs)) \<and>
    map (quiet \<circ> event_response) (fst (prove_blocking env b evm files i mode elf toml input t cs)) =
    map (quiet \<circ> event_response) (prove_reference env b evm i mode elf toml input t)"
proof (cases "sdk_new (backend_ops env b) c")
  case (Inl e)
  let ?r = "prove_mode env b evm files c (config_cache_key env toml) i mode elf input cs"
  obtain e1 where "any_new env b c = Inl e1" by (rule any_new_refused [OF assms(1) Inl])
  moreover obtain e2 where "?r = (Inl e2, cs)"
    using prove_mode_refused [OF assms(1,3,4) Inl assms(6), of evm i mode elf input] by (cases ?r) (auto simp: isl_def)
  ultimately show ?thesis using assms(5,6) by (simp add: prove_blocking_def prove_reference_def Let_def)
next
  case (Inr s)
  let ?r = "prove_mode env b evm files c (config_cache_key env toml) i mode elf input cs"
  define ref where "ref = (case mode of
         W_App \<Rightarrow> prove_app env (any_sdk_of b s) elf (''hierophant-'' @ i) input
       | W_Stark \<Rightarrow> prove_stark env (any_sdk_of b s) elf input
       | W_Evm \<Rightarrow> if evm then prove_evm_bytes env (any_sdk_of b s) elf input else Inl no_evm_err)"
  note new = any_new_accepted [OF assms(1) Inr]
  have "?r = (ref, snd ?r)" "entry_kept (backend_ops env b) c (config_cache_key env toml) cs (snd ?r)"
    using prove_mode_accepted [OF assms(1-4) Inr assms(6), of i mode elf input, folded ref_def]
    by (simp_all add: prod_eq_iff)
  moreover have "prove_reference env b evm i mode elf toml input t =
      (if t then case segment_count env (any_sdk_of b s) elf input of Inr n \<Rightarrow> [Ev_Size n] | Inl _ \<Rightarrow> [] else [])
      @ [Ev_Done ref]"
    unfolding prove_reference_def ref_def assms(5) sum.case new by (rule refl)
  ultimately show ?thesis using assms(5) new
    by (cases ?r) (simp add: prove_blocking_def split: sum.split)
qed

subsection \<open>Cache keys\<close>

lemma hex_digit_inj: "m < 16 \<Longrightarrow> n < 16 \<Longrightarrow> hex_digit m = hex_digit n \<longleftrightarrow> m = n"
  unfolding hex_digit_def by (rule nth_eq_iff_index_eq) simp_all

lemma hex_byte_inj:
  assumes "hex_byte a = hex_byte b" shows "a = b"
proof -
  have "unat x < 2 ^ LENGTH(8)" for x :: u8 by (rule unsigned_less)
  then have "unat x div 16 < 16" "unat x mod 16 < 16" for x :: u8
    by (simp_all add: less_mult_imp_div_less)
  then have "unat a div 16 = unat b div 16" "unat a mod 16 = unat b mod 16"
    using assms by (simp_all add: hex_byte_def hex_digit_inj)
  then have "unat a = unat b" by (metis div_mult_mod_eq)
  then show ?thesis by (simp add: word_unat_eq_iff)
qed

lemma config_cache_key_inj:
  assumes "sha_ok env T" "x \<in> T" "y \<in> T" "config_cache_key env x = config_cache_key env y"
  shows "x = y"
proof -
  have len: "length (concat (map hex_byte (we_sha256 env t))) = 64" for t
    using assms(1) by (simp add: length_concat hex_byte_def o_def sha_ok_def sum_list_triv)
  have hex: "we_sha256 env s = we_sha256 env t"
    if "concat (map hex_byte (we_sha256 env s)) = concat (map hex_byte (we_sha256 env t))" for s t
  proof -
    have "map hex_byte (we_sha256 env s) = map hex_byte (we_sha256 env t)"
      using that assms(1)
      by (subst (asm) concat_eq_concat_iff) (auto simp: sha_ok_def hex_byte_def zip_map_map)
    then show ?thesis by (rule map_injective) (simp add: inj_def hex_byte_inj)
  qed
  have "concat (map hex_byte (we_sha256 env t)) \<noteq> ''default-riscv32''" for t
    using len [of t] by auto
  then show ?thesis using assms hex
    by (cases x; cases y) (auto simp: config_cache_key_def sha_ok_def inj_on_def)
qed

subsection \<open>The caches over the lifetime of the worker\<close>

definition good_caches :: "'x sdk_ops \<Rightarrow> 'x worker_env \<Rightarrow> string option set \<Rightarrow> 'x key_caches \<Rightarrow> bool" where
  "good_caches ops env T cs \<longleftrightarrow>
     (\<forall>toml \<in> T. \<forall>c. build_app_config env toml = Inr c \<longrightarrow> good_at ops c (config_cache_key env toml) cs)"

lemma good_at_cong:
  "app_pks cs' k = app_pks cs k \<Longrightarrow> agg_pks cs' k = agg_pks cs k \<Longrightarrow> good_at ops c k cs' \<longleftrightarrow> good_at ops c k cs"
  by (simp only: good_at_def)

lemma good_caches_cold: "good_caches ops env T cold"
  by (simp add: good_caches_def good_at_def cold_def split: sum.split)

lemma good_caches_kept:
  assumes "sha_ok env T" "good_caches ops env T cs" "toml \<in> T" "build_app_config env toml = Inr c"
    "entry_kept ops c (config_cache_key env toml) cs cs'"
  shows "good_caches ops env T cs'"
  unfolding good_caches_def
proof (intro ballI allI impI)
  fix toml' c' assume t: "toml' \<in> T" "build_app_config env toml' = Inr c'"
  show "good_at ops c' (config_cache_key env toml') cs'"
  proof (cases "toml' = toml")
    case True
    with t(2) assms(4,5) show ?thesis by (simp add: entry_kept_def)
  next
    case False
    then have "config_cache_key env toml' \<noteq> config_cache_key env toml"
      using config_cache_key_inj [OF assms(1) t(1) assms(3)] by blast
    moreover have "good_at ops c' (config_cache_key env toml') cs" using assms(2) t by (simp add: good_caches_def)
    ultimately show ?thesis using assms(5) good_at_cong by (fastforce simp: entry_kept_def only_at_def)
  qed
qed

definition genuine_sdk :: "'x universal_keys \<Rightarrow> 'x worker_env \<Rightarrow> bool" where
  "genuine_sdk u env \<longleftrightarrow> sdk_laws u (we_cpu_sdk env) \<and> sdk_laws u (we_gpu_sdk env)"

lemma genuine_sdkD:
  assumes "genuine_sdk u env"
  shows "sdk_laws u (backend_ops env b)" "sdk_laws u (sdk_alias env)"
proof -
  show "sdk_laws u (backend_ops env b)" using assms by (cases b) (simp_all add: genuine_sdk_def)
  show "sdk_laws u (sdk_alias env)" using assms by (simp add: genuine_sdk_def sdk_alias_def)
qed

lemma worker_start_built:
  "worker_start cuda evm_build args = Inr (b, evm) \<Longrightarrow> (b = Worker_Cuda \<longrightarrow> cuda) \<and> (evm \<longrightarrow> evm_build)"
  by (auto simp: worker_start_def Let_def split: if_splits)

lemma worker_warm_good:
  assumes "worker_warm env b evm u T st" "sha_ok env T" "genuine_sdk u env"
    "b = Worker_Cuda \<longrightarrow> we_cuda env" "evm \<longrightarrow> we_evm env"
  shows "good_caches (backend_ops env b) env T (wc_prove st) \<and> good_caches (sdk_alias env) env T (wc_verify st)"
  using assms(1)
proof induction
  case start
  then show ?case by (simp add: good_caches_cold)
next
  case (step st req files)
  note laws = genuine_sdkD [OF assms(3)]
  show ?case
  proof (cases req)
    case (Prove i m elf toml input t)
    have toml: "toml \<in> T" using step.hyps(2) Prove by simp
    show ?thesis
    proof (cases "build_app_config env toml")
      case (Inl e)
      with Prove step.IH show ?thesis by (simp add: prove_blocking_def)
    next
      case (Inr c)
      have "good_at (backend_ops env b) c (config_cache_key env toml) (wc_prove st)"
        using step.IH step.hyps(2) Prove Inr by (simp add: good_caches_def)
      from prove_blocking_ok [OF assms(4,5) laws(1) step.hyps(3) Inr this]
      have "good_caches (backend_ops env b) env T (snd (prove_blocking env b evm files i m elf toml input t (wc_prove st)))"
        using step.IH by (blast intro: good_caches_kept [OF assms(2) _ _ Inr] toml)
      with Prove step.IH show ?thesis by simp
    qed
  next
    case (Verify m elf toml p)
    have toml: "toml \<in> T" using step.hyps(2) Verify by simp
    show ?thesis
    proof (cases "build_app_config env toml")
      case (Inl e)
      with Verify step.IH show ?thesis by (simp add: verify_openvm_proof_worker_def)
    next
      case (Inr c)
      have "good_at (sdk_alias env) c (config_cache_key env toml) (wc_verify st)"
        using step.IH step.hyps(2) Verify Inr by (simp add: good_caches_def)
      from verify_openvm_proof_worker_ok [OF laws(2) step.hyps(3) Inr this]
      have "good_caches (sdk_alias env) env T (snd (verify_openvm_proof_worker env files elf toml m p (wc_verify st)))"
        using step.IH by (blast intro: good_caches_kept [OF assms(2) _ _ Inr] toml)
      with Verify step.IH show ?thesis by simp
    qed
  qed (use step.IH in simp)
qed

text \<open>The environment of a request when every request gets a fresh SDK.\<close>

definition reference_server :: "'x worker_env \<Rightarrow> worker_backend \<Rightarrow> bool \<Rightarrow> server_env \<Rightarrow> server_env" where
  "reference_server env b evm e = e\<lparr>
     se_verify := (\<lambda>m elf toml p. Some (verify_reference env elf toml m p)),
     se_prove := (\<lambda>req. case req of
         Prove i m elf toml input t \<Rightarrow> prove_reference env b evm i m elf toml input t | _ \<Rightarrow> [])\<rparr>"

lemma as_str_Some [simp]: "as_str j = Some t \<longleftrightarrow> j = J_Str t"
  by (cases j) auto

lemma verify_evm_commit_accepts:
  "verify_evm_commit env p x = Inr () \<longleftrightarrow> (\<exists>v d claimed. we_json_value env p = Inr v \<and>
      json_get v ''proof_data'' = Some d \<and> json_get v ''app_exe_commit'' = Some (J_Str claimed) \<and>
      to_ascii_lowercase (trim_0x claimed) = to_ascii_lowercase (trim_0x x))"
proof (cases "we_json_value env p")
  case (Inr v)
  show ?thesis
  proof (cases "Option.bind (json_get v ''app_exe_commit'') as_str")
    case None
    with Inr show ?thesis by (auto simp: verify_evm_commit_def)
  next
    case (Some c)
    then have "json_get v ''app_exe_commit'' = Some (J_Str c)" by (simp add: bind_eq_Some_conv)
    with Inr show ?thesis by (auto simp: verify_evm_commit_def Let_def split: if_splits)
  qed
qed (simp add: verify_evm_commit_def)

lemma verify_as_fresh:
  assumes "worker_start (we_cuda env) (we_evm env) args = Inr (b, evm)" "genuine_sdk u env" "sha_ok env T"
    "worker_warm env b evm u T st" "toml \<in> T" "genuine_files u files"
  shows "drop_text (fst (verify_openvm_proof_worker env files elf toml m p (wc_verify st))) =
    drop_text (verify_reference env elf toml m p)"
proof (cases "build_app_config env toml")
  case (Inl e)
  then show ?thesis by (simp add: verify_openvm_proof_worker_def verify_reference_def)
next
  case (Inr c)
  note start = worker_start_built [OF assms(1)]
  have "good_at (sdk_alias env) c (config_cache_key env toml) (wc_verify st)"
    using worker_warm_good [OF assms(4,3,2) conjunct1 [OF start] conjunct2 [OF start]] assms(5) Inr
    by (simp add: good_caches_def)
  from verify_openvm_proof_worker_ok [OF genuine_sdkD(2) [OF assms(2)] assms(6) Inr this] show ?thesis by simp
qed

section \<open>Properties\<close>

text \<open>C31. Whatever requests an openvm-worker has served, and whether or not the key files are there, its answer to a
  request is the answer of a fresh SDK without caches and files, up to the text of an error.\<close>

theorem warm_worker_as_fresh:
  assumes "worker_start (we_cuda env) (we_evm env) args = Inr (b, evm)" "genuine_sdk u env" "sha_ok env T"
    "worker_warm env b evm u T st" "request_toml req \<in> T" "genuine_files u files"
  shows "map quiet (responses (worker_server env b evm files st e) req) =
         map quiet (responses (reference_server env b evm e) req)"
proof -
  note start = worker_start_built [OF assms(1)]
  note laws = genuine_sdkD [OF assms(2)]
  note good = worker_warm_good [OF assms(4,3,2) conjunct1 [OF start] conjunct2 [OF start]]
  show ?thesis
  proof (cases req)
    case (Prove i m elf toml input t)
    show ?thesis
    proof (cases "build_app_config env toml")
      case (Inl e)
      with Prove show ?thesis by (simp add: worker_server_def reference_server_def prove_blocking_def prove_reference_def)
    next
      case (Inr c)
      have "good_at (backend_ops env b) c (config_cache_key env toml) (wc_prove st)"
        using good assms(5) Prove Inr by (simp add: good_caches_def)
      from prove_blocking_ok [OF conjunct1 [OF start] conjunct2 [OF start] laws(1) assms(6) Inr this] Prove
      show ?thesis by (simp add: worker_server_def reference_server_def)
    qed
  next
    case (Verify m elf toml p)
    have "drop_text (fst (verify_openvm_proof_worker env files elf toml m p (wc_verify st))) =
        drop_text (verify_reference env elf toml m p)"
      by (rule verify_as_fresh [OF assms(1-4) _ assms(6)]) (use assms(5) Verify in simp)
    with Verify show ?thesis
      by (cases "fst (verify_openvm_proof_worker env files elf toml m p (wc_verify st))"; cases "verify_reference env elf toml m p")
        (simp_all add: worker_server_def reference_server_def)
  qed (simp add: worker_server_def reference_server_def)
qed

text \<open>A toy SDK on numbers: a configuration is its own SDK and key, the universal key is 7.\<close>

definition toy_sdk :: "nat sdk_ops" where
  "toy_sdk = \<lparr>sdk_new = Inr,
     sdk_build = (\<lambda>bd. case bd_app_config bd of Some c \<Rightarrow> Inr c
                       | None \<Rightarrow> (case bd_app_pk bd of Some a \<Rightarrow> Inr a | None \<Rightarrow> Inl [])),
     sdk_app_keygen = (\<lambda>s. (s, s)), sdk_agg_prefix_pk = id,
     sdk_agg_pk = (\<lambda>s. \<lparr>ag_prefix = s, ag_internal_recursive = 7\<rparr>), sdk_agg_vk = id,
     sdk_execute_metered = (\<lambda>s elf input. Inr (length elf)), sdk_app_prover = (\<lambda>s elf. Inr (s + length elf)),
     sdk_app_prove = (\<lambda>p name input. Inr p), sdk_app_exe_commit = id,
     sdk_prove = (\<lambda>s elf input. Inr (s + length elf)), sdk_prove_evm = (\<lambda>s elf input. Inr s),
     sdk_prover = (\<lambda>s elf. Inr s), sdk_generate_baseline = id,
     sdk_verify_app = (\<lambda>vk p c. Inr ()), sdk_verify_proof = (\<lambda>vk b p. Inr ())\<rparr>"

definition toy_keys :: "nat universal_keys" where
  "toy_keys = \<lparr>uk_internal_recursive = 7, uk_halo2 = 8, uk_root = 9\<rparr>"

definition toy_files :: "nat key_files" where
  "toy_files = \<lparr>kf_internal_recursive = Readable 7, kf_halo2 = Missing, kf_root = No_Home\<rparr>"

definition toy_env :: "nat worker_env" where
  "toy_env = \<lparr>we_cuda = False, we_evm = False, we_cpu_sdk = toy_sdk, we_gpu_sdk = toy_sdk,
     we_toml = (\<lambda>t. Inr (length t)), we_riscv32 = 1, we_sha256 = (\<lambda>t. replicate 32 0),
     we_bitcode_ser = (\<lambda>p. Inr []), we_bitcode_de = (\<lambda>bs. Inr 0), we_versioned = Inr,
     we_json_ser = (\<lambda>p. Inr (replicate p 5)), we_stark_json = (\<lambda>bs. Inr 0), we_stark_try_from = Inr,
     we_json_value = (\<lambda>bs. Inr J_Other), we_commit_text = (\<lambda>c. [])\<rparr>"

definition toy_request :: worker_request where
  "toy_request = Prove [] W_Stark [4, 2] None [] True"

lemma toy_genuine: "genuine_sdk toy_keys toy_env"
  by (simp add: genuine_sdk_def toy_env_def sdk_laws_def toy_sdk_def toy_keys_def interchangeable_def same_sdk_def
      tower_def new_builder_def)

theorem warm_worker_as_fresh_witness:
  "map quiet (responses (worker_server toy_env Worker_Cpu False toy_files
     (worker_step toy_env Worker_Cpu False toy_files toy_request \<lparr>wc_prove = cold, wc_verify = cold\<rparr>) demo_server)
     toy_request)
   = [SizeResponse 2, ProofResponse [5, 5, 5]]"
proof -
  have start: "worker_start (we_cuda toy_env) (we_evm toy_env) \<lparr>wa_backend = ''cpu'', wa_evm = False\<rparr> = Inr (Worker_Cpu, False)"
    by (simp add: worker_start_def to_ascii_lowercase_def ascii_lower_def)
  have files: "genuine_files toy_keys toy_files" by (simp add: genuine_files_def toy_files_def toy_keys_def)
  have sha: "sha_ok toy_env {None}" by (simp add: sha_ok_def toy_env_def)
  have toml: "request_toml toy_request \<in> {None}" by (simp add: toy_request_def)
  have "worker_warm toy_env Worker_Cpu False toy_keys {None}
     (worker_step toy_env Worker_Cpu False toy_files toy_request \<lparr>wc_prove = cold, wc_verify = cold\<rparr>)"
    by (rule worker_warm.step [OF worker_warm.start toml files])
  from warm_worker_as_fresh [OF start toy_genuine sha this toml files, of demo_server]
  show ?thesis
    by (simp add: reference_server_def toy_request_def prove_reference_def build_app_config_def any_new_def on_backend_def
        segment_count_def prove_stark_def toy_env_def toy_sdk_def)
qed

text \<open>In EVM mode the worker accepts exactly the JSON objects with some \<open>proof_data\<close> and the commitment of the
  uploaded program, compared without prefix and case; the proof data itself is not looked at.\<close>

theorem evm_verdict_exact:
  "fst (verify_openvm_proof_worker env files elf toml W_Evm p cs) = Inr () \<longleftrightarrow>
   (\<exists>cfg sdk prover v d claimed. build_app_config env toml = Inr cfg \<and>
      verify_build_sdk env cfg (config_cache_key env toml) cs = Inr sdk \<and>
      sdk_app_prover (sdk_alias env) sdk elf = Inr prover \<and> we_json_value env p = Inr v \<and>
      json_get v ''proof_data'' = Some d \<and> json_get v ''app_exe_commit'' = Some (J_Str claimed) \<and>
      to_ascii_lowercase (trim_0x claimed) =
      to_ascii_lowercase (trim_0x (we_commit_text env (sdk_app_exe_commit (sdk_alias env) prover))))"
  by (auto simp: verify_openvm_proof_worker_def verify_evm_mode_def Let_def verify_evm_commit_accepts split: sum.splits)

end
