(* ===== verification/Spec2Isabelle.thy ===== *)
theory Spec2Isabelle
  imports Entry_Points Worker_Socket Host_Run Sp1_Host Worker_Warm
begin

text \<open>
  Verification of the hierophant proof network.

  \<^bold>\<open>The program.\<close> A \<^emph>\<open>hierophant\<close> accepts proof requests from clients over three surfaces (SP1's prover network
  over gRPC, a Bonsai-compatible REST surface for RISC Zero, a REST surface for OpenVM) and hands them to
  \<^emph>\<open>contemplants\<close>, the proving workers that connect to it over websockets. The worker registry is the actor in
  the middle: it tracks workers, assigns requests, queues what cannot be assigned, polls workers for status and
  evicts dead ones. A contemplant keeps the statuses of its recent requests in a proof store, proves with one
  executor per virtual machine and answers polls; OpenVM proving and verification run in a separate worker
  process behind a framed protocol on a unix socket.

  \<^bold>\<open>Theories and sources\<close> (paths below \<^verbatim>\<open>src/src/\<close>).

  \<^item> \<open>Prelude\<close>: machine types, \<^verbatim>\<open>HashMap\<close> as an association list in iteration order, strings. \<open>Rust_Float\<close>:
    \<^verbatim>\<open>f32\<close>/\<^verbatim>\<open>f64\<close> arithmetic with round-to-nearest-even on rationals, durations in nanoseconds.
  \<^item> \<open>Actor\<close>: tasks that own a state and handle commands in sequence; reachable states; the locale
    \<open>actor_invariant\<close>. \<open>Ring\<close>: fixed-size rings of recent keys; the locale \<open>ring_cache\<close>.
  \<^item> \<open>Network_Lib\<close> (\<^verbatim>\<open>network-lib/src\<close>): requests, statuses, the progress order, websocket messages.
    \<open>Proof_Status\<close> (\<^verbatim>\<open>hierophant/src/proof/status.rs\<close>, \<^verbatim>\<open>completed_proof_info.rs\<close>).
  \<^item> \<open>Worker_State\<close>, \<open>Registry\<close>, \<open>Registry_Ops\<close>, \<open>Registry_Inv\<close>, \<open>Registry_Progress\<close>, \<open>Registry_Props\<close>
    (\<^verbatim>\<open>hierophant/src/worker_registry\<close>): the registry actor with all thirteen commands. Effects (messages to
    workers, replies, calls to the Magister) are a trace in the state.
  \<^item> \<open>Registry_Client\<close> (\<^verbatim>\<open>worker_registry/client.rs\<close>, \<^verbatim>\<open>proof/router.rs\<close>, \<^verbatim>\<open>api/websocket.rs\<close>): the handle through
    which the surfaces talk to the registry, with the failure of every send and receive.
  \<^item> \<open>Artifact_Uri\<close>, \<open>Artifact_Store\<close> (\<^verbatim>\<open>hierophant/src/artifact_store\<close>): uris, the store actor over a map of files.
  \<^item> \<open>Status_Poll\<close>, \<open>OpenVm\<close>, \<open>Bonsai\<close> (\<^verbatim>\<open>hierophant/src/openvm\<close>, \<^verbatim>\<open>hierophant/src/bonsai\<close>): the REST surfaces. A
    status handler is a sequence of critical sections between its awaits; concurrent polls interleave there. The
    locale \<open>status_surface\<close> is the rule for invariants of interleaved polls.
  \<^item> \<open>Prover_Network\<close> (\<^verbatim>\<open>api/grpc\<close>, \<^verbatim>\<open>hierophant_state.rs\<close>, \<^verbatim>\<open>api/http.rs\<close>): the SP1 surface. The task that
    downloads circuit artifacts has a step per await (install, route, remove the mark); \<open>sp1_run\<close> interleaves
    these steps with the calls of clients.
  \<^item> \<open>Configuration\<close> (both \<^verbatim>\<open>config.rs\<close>): defaults, environment overrides in source order, validation; for the
    hierophant also the derived deserialiser, field by field, from a TOML table.
  \<^item> \<open>Proof_Store\<close>, \<open>Rate_Model\<close> (\<^verbatim>\<open>contemplant/src/proof_store\<close>, \<^verbatim>\<open>rate_model.rs\<close>).
  \<^item> \<open>Contemplant\<close> (\<^verbatim>\<open>contemplant/src/worker_state.rs\<close>, \<^verbatim>\<open>message_handler.rs\<close>, \<^verbatim>\<open>proof_executor\<close>): the state, the
    message handler, and each request as a task whose phases end at the awaits of the source, so that tasks
    interleave. A copy of the SP1 prover belongs to the step before it: the lock is free and the runtime has one
    thread. \<open>Contemplant_Props\<close>, \<open>Contemplant_Tasks\<close>: their properties.
  \<^item> \<open>Contemplant_Link\<close> (\<^verbatim>\<open>api/connect_to_hierophant.rs\<close>, \<^verbatim>\<open>main.rs\<close>): the connection and its renewal.
    \<open>Worker_Socket\<close> (\<^verbatim>\<open>hierophant/src/api/websocket.rs\<close>, \<^verbatim>\<open>ws_handler\<close>): the other end, its two tasks interleaved.
  \<^item> \<open>Worker_Proto\<close> (\<^verbatim>\<open>openvm-worker-proto/src/lib.rs\<close>, \<^verbatim>\<open>hierophant/src/openvm/verify.rs\<close>): frames, the client of the
    worker process, the verification retries. \<open>Worker_Server\<close> (\<^verbatim>\<open>openvm-worker/src/main.rs\<close>): the process itself, its
    connections and requests, and a call from client to server and back. \<open>Worker_Keys\<close> (\<^verbatim>\<open>prove.rs\<close>, \<^verbatim>\<open>verify.rs\<close>):
    proving and verification around the SDK with the caches of proving keys; \<open>Worker_Warm\<close>: their transparency.
  \<^item> \<open>Entry_Points\<close> (\<^verbatim>\<open>hierophant/src/main.rs\<close>, \<^verbatim>\<open>contemplant/src/main.rs\<close>): the processes as event machines, from the
    loaded configuration over signals, servers and the connection thread to the exit status; the locale \<open>process\<close>.
  \<^item> \<open>Routes\<close> (\<^verbatim>\<open>create_router\<close> of \<^verbatim>\<open>api/http.rs\<close>, \<^verbatim>\<open>bonsai_routes\<close>, \<^verbatim>\<open>openvm_routes\<close>): the route tables, the look-up
    of a request in them and the urls the surfaces hand out.
  \<^item> \<open>Fibonacci\<close> (\<^verbatim>\<open>fibonacci/src/lib.rs\<close>): the function the test guests prove. \<open>Hosts\<close>
    (\<^verbatim>\<open>openvm-fibonacci\<close>, \<^verbatim>\<open>risc0-fibonacci\<close>): the guests and hosts of these integration tests, with the locale \<open>poll_clock\<close>
    for their polling. \<open>Host_Run\<close>: the OpenVM host against the surface, request by request through the route table, with
    the time each request takes and the 600 seconds the client waits for it.
    \<open>Sp1_Host\<close> (\<^verbatim>\<open>sp1-fibonacci\<close>): guest and driver of the SP1 test.

  \<^bold>\<open>What is shown.\<close> Of the registry: a request has at most one worker and is not queued and assigned at once; idle
  capable workers leave no serviceable request queued; assignment accounts for every request; bounds, order and
  expiry of the queue; a worker that is freed takes the oldest request it can serve; progress never regresses; polls
  are answered; what a reconnect keeps. Of the surfaces: a
  job reported as succeeded serves a proof that verification accepted, under every interleaving of polls, with
  the exceptions stated; polls report loss exactly when the registry has lost track or the worker, past its start-up
  grace, disowns the request; a request that waits for circuit artifacts is not reported lost before it is routed. Of
  the configuration: which source each field comes from, and when loading fails. Of the stores: files and
  entries are bounded, the ring of the proof store refines a bounded queue. Of the contemplant: it reports only its
  provers' own proofs and only statuses the hierophant converts; an undisturbed task settles its request, unless the SP1
  library panics or a call to the OpenVM worker hangs; no SP1 task proves with an evicted prover; eviction,
  demotion and registration agree with what the hierophant is told; a websocket session is its tasks run alone and delivers no report above its
  size limit. Of the worker protocol: frames round-trip,
  calls end, only an acceptance is an acceptance; a call gets the answer of prover or verifier unless the prove
  thread panics; caches and key files do not change an answer. Of the processes: when they end, with which status, and
  which signals are lost. Of the integration tests: every url handed out leads back to its handler; the OpenVM test
  passes when the network delivers a verified proof in time and no request exceeds the timeout of the client; the hosts end, and succeed only on the values of the
  guest (the SP1 driver with the exception stated). This theory
  composes them: the verdict of the hierophant on an OpenVM proof is that of a fresh SDK.

  \<^bold>\<open>Environment and bounds.\<close> Clocks, channel liveness, the iteration order of maps, fresh ids, file-system outcomes
  and the answers of libraries are arguments (records ending in \<open>env\<close>), sampled for each step; assumptions on them
  are named predicates (\<open>env_ok\<close>, \<open>honest_worker\<close>, \<open>honest_provers\<close>, \<open>uuid_text\<close>, \<open>codec_ok\<close>, \<open>genuine_sdk\<close>,
  \<open>genuine_files\<close>, \<open>sha_ok\<close>). Panics and errors are values.
  Loops are structural recursions or have termination proofs; a status handler takes at most seven critical
  sections, a proof task at most twelve phases, the worker call at most 241 attempts (a minute of 250 ms
  sleeps), each proved sufficient. The polling loops of the hosts have fuel: one round more than there are pauses in
  the timeout is proved to be enough.

  \<^bold>\<open>Interfaces.\<close> \<open>actor_invariant\<close> is interpreted for the registry (\<open>reg\<close>, and \<open>excl\<close> for clients that use each id for
  one request), the proof store and the contemplant; \<open>ring_cache\<close> for the ring of the proof store (\<open>store_ring\<close>);
  \<open>status_surface\<close> for OpenVM and Bonsai; \<open>process\<close> for both entry points; \<open>poll_clock\<close> for the host against the surface.

  \<^bold>\<open>Not modelled.\<close> Log output, the build scripts, and the serialisation formats and SDKs of third-party crates, which
  are parameters. Requests to one openvm-worker use its key caches one after another; two requests that fill the same
  entry at the same time are not modelled. Panics of the websocket tasks and of the connection thread of the
  contemplant are not events of their machines.

  \<^bold>\<open>Granularity.\<close> Where a definition takes a coarser step than the source: in \<open>Worker_Socket\<close> the end of one task of a
  session and the abort of the other by the \<^verbatim>\<open>select!\<close> are one step, and the size check of the websocket library is an
  error at the receiver, with nothing said about the write of the sender. In \<open>Contemplant_Link\<close> a websocket write is
  one step, so the abort of the sending task falls between writes (it concerns at most one response), and after a
  failed Magister check all four tasks count as left running, also one that ended by itself before. \<open>Contemplant\<close>
  takes the construction of the SP1 prover at start-up as successful (a construction that panics inside a task is an
  answer of the environment). Calls of the SP1 surface are whole steps, and the ids it draws at random are taken to be
  new. Strikes are natural numbers without the wrap-around of \<^verbatim>\<open>usize\<close>; \<^verbatim>\<open>to_lowercase\<close> of the worker's arguments is
  that of ASCII. A TOML table written as an array is not read, and for the contemplant deserialisation is part of
  the parser, which is a parameter.
\<close>

section \<open>Properties across components\<close>

lemma verify_attempts_accepting:
  "\<forall>r \<in> set rs. isl r \<or> r = Inr VerifyOk \<Longrightarrow> verify_attempts rs = Inr () \<longleftrightarrow> (\<exists>r \<in> set rs. \<not> isl r)"
  by (induction rs) (auto split: sum.splits)

lemma verify_attempts_rejecting:
  "\<forall>r \<in> set rs. isl r \<or> (\<exists>err. r = Inr (ErrResponse err)) \<Longrightarrow> verify_attempts rs \<noteq> Inr ()"
  by (induction rs) (auto split: sum.splits)

lemma worker_server_keeps [simp]:
  "se_peer_up (worker_server env b evm files st e) = se_peer_up e"
  "codec_ok rser rde de (worker_server env b evm files st e) = codec_ok rser rde de e"
  "fits (worker_server env b evm files st e) = fits e"
  "se_verify (worker_server env b evm files st e) mode elf toml p
     = Some (fst (verify_openvm_proof_worker env files elf toml mode p (wc_verify st)))"
  by (simp_all add: worker_server_def codec_ok_def fits_def fun_eq_iff)

text \<open>
  What one call of the verifying hierophant may give: a transport error, or the answer of a worker process that has
  served any requests before.
\<close>

definition verify_call_possible ::
    "'x worker_env \<Rightarrow> worker_backend \<Rightarrow> bool \<Rightarrow> 'x universal_keys \<Rightarrow> string option set \<Rightarrow>
     (worker_request \<Rightarrow> bytes option) \<Rightarrow> (bytes \<Rightarrow> worker_request option) \<Rightarrow> (bytes \<Rightarrow> worker_response option) \<Rightarrow>
     server_env \<Rightarrow> worker_request \<Rightarrow> io_error + worker_response \<Rightarrow> bool" where
  "verify_call_possible env b evm u T rser rde de conn req r \<longleftrightarrow> isl r \<or>
     (\<exists>st files. worker_warm env b evm u T st \<and> genuine_files u files \<and>
        list_all (fits conn) (responses (worker_server env b evm files st conn) req) \<and>
        worker_client_call rser rde de (worker_server env b evm files st conn) req = Some ([], r))"

text \<open>C33. Verification end to end: the hierophant, calling its openvm-worker up to three times over the framed
  protocol, accepts a proof exactly if one of the calls is answered and a fresh SDK accepts the proof, whatever the
  worker has served before and whichever calls fail in transport.\<close>

theorem openvm_verdict_end_to_end:
  assumes "worker_start (we_cuda env) (we_evm env) args = Inr (b, evm)" "genuine_sdk u env" "sha_ok env T" "toml \<in> T"
    "codec_ok rser rde de conn" "se_peer_up conn" "write_frame rser (Verify mode elf toml p) = Inr sent"
    "\<And>k. verify_call_possible env b evm u T rser rde de conn (Verify mode elf toml p) (calls k)"
  shows "verify_openvm_proof calls = Inr () \<longleftrightarrow>
     (\<exists>k \<in> {1, 2, 3}. \<not> isl (calls k)) \<and> verify_reference env elf toml mode p = Inr ()"
proof -
  have answer: "drop_text (case r of VerifyOk \<Rightarrow> Inr () | ErrResponse err \<Rightarrow> Inl err)
      = drop_text (verify_reference env elf toml mode p) \<and> (r = VerifyOk \<or> (\<exists>err. r = ErrResponse err))"
    if r: "calls k = Inr r" for k r
  proof -
    obtain st files where w: "worker_warm env b evm u T st" "genuine_files u files"
      "list_all (fits conn) (responses (worker_server env b evm files st conn) (Verify mode elf toml p))"
      "worker_client_call rser rde de (worker_server env b evm files st conn) (Verify mode elf toml p) = Some ([], Inr r)"
      using assms(8) [of k] r by (auto simp: verify_call_possible_def)
    define v where "v = fst (verify_openvm_proof_worker env files elf toml mode p (wc_verify st))"
    have "Some ([], Inr r :: io_error + worker_response) =
        Some ([] :: u64 list, Inr (case v of Inr _ \<Rightarrow> VerifyOk | Inl err \<Rightarrow> ErrResponse err))"
      unfolding w(4) [symmetric] by (rule verify_call [OF _ _ assms(7)]) (use assms(5,6) w(3) in \<open>simp_all add: v_def\<close>)
    moreover have "drop_text v = drop_text (verify_reference env elf toml mode p)"
      unfolding v_def by (rule verify_as_fresh [OF assms(1-3) w(1) assms(4) w(2)])
    ultimately show ?thesis by (cases v) simp_all
  qed
  have calls: "verify_openvm_proof calls = verify_attempts [calls 1, calls 2, calls 3]"
    by (simp add: verify_openvm_proof_def VERIFY_TRANSPORT_RETRIES_def upt_rec numeral_eq_Suc)
  show ?thesis
  proof (cases "verify_reference env elf toml mode p")
    case (Inl e)
    have "isl (calls k) \<or> (\<exists>err. calls k = Inr (ErrResponse err))" for k
      using answer [of k] Inl by (cases "calls k") fastforce+
    then have "verify_openvm_proof calls \<noteq> Inr ()" unfolding calls by (intro verify_attempts_rejecting) simp
    with Inl show ?thesis by simp
  next
    case (Inr x)
    have "isl (calls k) \<or> calls k = Inr VerifyOk" for k
      using answer [of k] Inr by (cases "calls k") fastforce+
    then have "verify_openvm_proof calls = Inr () \<longleftrightarrow> (\<exists>r \<in> set [calls 1, calls 2, calls 3]. \<not> isl r)"
      unfolding calls by (intro verify_attempts_accepting) simp
    with Inr show ?thesis by simp
  qed
qed

definition toy_conn :: server_env where
  "toy_conn = \<lparr>se_ser = (\<lambda>r. if r = VerifyOk then Some [1] else None), se_peer_up = True, se_version = [],
     se_verify = (\<lambda>_ _ _ _. None), se_prove = (\<lambda>_. [])\<rparr>"

definition toy_verify :: worker_request where
  "toy_verify = Verify W_App [] None []"

theorem openvm_verdict_end_to_end_witness:
  "verify_openvm_proof (\<lambda>k. if k = 1 then Inl BrokenPipe else Inr VerifyOk) = Inr ()"
proof -
  let ?rser = "\<lambda>r. if r = toy_verify then Some [9] else None"
  let ?rde = "\<lambda>bs. if bs = [9] then Some toy_verify else None"
  let ?de = "\<lambda>bs. if bs = [1] then Some VerifyOk else None"
  let ?st = "\<lparr>wc_prove = cold, wc_verify = cold\<rparr> :: nat worker_caches"
  have start: "worker_start (we_cuda toy_env) (we_evm toy_env) \<lparr>wa_backend = ''cpu'', wa_evm = False\<rparr> = Inr (Worker_Cpu, False)"
    by (simp add: worker_start_def toy_env_def to_ascii_lowercase_def ascii_lower_def)
  have files: "genuine_files toy_keys toy_files" by (simp add: genuine_files_def toy_files_def toy_keys_def)
  have sha: "sha_ok toy_env {None}" by (simp add: sha_ok_def toy_env_def)
  have codec: "codec_ok ?rser ?rde ?de toy_conn" by (auto simp: codec_ok_def toy_conn_def split: if_splits)
  have up: "se_peer_up toy_conn" by (simp add: toy_conn_def)
  have sent: "write_frame ?rser (Verify W_App [] None []) = Inr [1, 0, 0, 0, 9]"
    by (simp add: write_frame_def to_le_bytes_def word_less_nat_alt toy_verify_def)
  have accepts: "fst (verify_openvm_proof_worker toy_env toy_files [] None W_App [] cold) = Inr ()"
    by (simp add: verify_openvm_proof_worker_def build_app_config_def verify_app_mode_def verify_build_sdk_def cold_def
        sdk_alias_def toy_env_def toy_sdk_def)
  let ?server = "worker_server toy_env Worker_Cpu False toy_files ?st toy_conn"
  have fits: "list_all (fits toy_conn) (responses ?server (Verify W_App [] None []))"
    by (simp add: accepts fits_def toy_conn_def)
  have "worker_client_call ?rser ?rde ?de ?server (Verify W_App [] None []) = Some ([], Inr VerifyOk)"
    using verify_call [of ?rser ?rde ?de ?server, OF _ _ sent, of "Inr ()"] codec up fits accepts by simp
  then have possible: "verify_call_possible toy_env Worker_Cpu False toy_keys {None} ?rser ?rde ?de toy_conn
      (Verify W_App [] None []) (if k = 1 then Inl BrokenPipe else Inr VerifyOk)" for k :: nat
    unfolding verify_call_possible_def using worker_warm.start files fits by fastforce
  have "verify_reference toy_env [] None W_App [] = Inr ()"
    by (simp add: verify_reference_def build_app_config_def sdk_alias_def toy_env_def toy_sdk_def)
  with openvm_verdict_end_to_end [OF start toy_genuine sha _ codec up sent possible]
  show ?thesis by simp
qed

end
